(* ===== verification/Prelude.thy ===== *)
theory Prelude
  imports Main "HOL-Library.Word" "HOL-Library.Sublist"
begin

text \<open>
  Shared vocabulary of the development.

  \<^item> the machine integers of the C code (\<open>uint64_t\<close>, \<open>int64_t\<close>, \<open>int\<close>, \<open>uint32_t\<close>) as words;
  \<^item> C strings: a string is the list of the bytes before the terminator, a pointer into a string is
    the remaining suffix, and reading at the end of the suffix yields the terminator;
  \<^item> the functions of \<open>ctype.h\<close>, \<open>string.h\<close> and \<open>stdlib.h\<close> that the code calls, in the "C" locale;
  \<^item> the outcome type: a value, or undefined behaviour of the C code (a read through the wrong
    member of a union, a division by zero, a conversion of a double that does not fit).

  The collection \<open>cstring\<close> gathers the simplification rules of the string functions, \<open>outcome_simps\<close>
  those of the outcome type.
\<close>

named_theorems cstring
named_theorems outcome_simps
named_theorems parser_mono
named_theorems window_arith

type_synonym u64 = "64 word"
type_synonym i64 = "64 word"
type_synonym u32 = "32 word"
type_synonym i32 = "32 word"

section \<open>Undefined behaviour as a value\<close>

datatype 'a outcome = Ok 'a | UB

fun bind_outcome :: "'a outcome \<Rightarrow> ('a \<Rightarrow> 'b outcome) \<Rightarrow> 'b outcome" where
  "bind_outcome (Ok x) f = f x"
| "bind_outcome UB f = UB"

lemma bind_outcome_Ok_iff [outcome_simps]:
  "bind_outcome m f = Ok y \<longleftrightarrow> (\<exists>x. m = Ok x \<and> f x = Ok y)"
  by (cases m) auto

lemma bind_outcome_UB_iff [outcome_simps]:
  "bind_outcome m f = UB \<longleftrightarrow> m = UB \<or> (\<exists>x. m = Ok x \<and> f x = UB)"
  by (cases m) auto

lemma not_UB_iff [outcome_simps]: "m \<noteq> UB \<longleftrightarrow> (\<exists>x. m = Ok x)"
  by (cases m) auto

lemma bind_outcome_cong:
  "m = m' \<Longrightarrow> (\<And>x. m' = Ok x \<Longrightarrow> f x = g x) \<Longrightarrow> bind_outcome m f = bind_outcome m' g"
  by (cases m') auto

lemma bind_outcome_assoc: "bind_outcome (bind_outcome x f) g = bind_outcome x (\<lambda>a. bind_outcome (f a) g)"
  by (cases x) simp_all

section \<open>Characters (ctype.h, "C" locale)\<close>

definition byte :: "char \<Rightarrow> int" where
  "byte c = of_char c"

definition NUL :: char where
  "NUL = CHR 0x00"

definition isspace :: "char \<Rightarrow> bool" where
  "isspace c \<longleftrightarrow> c \<in> {CHR '' '', CHR 0x09, CHR 0x0A, CHR 0x0B, CHR 0x0C, CHR 0x0D}"

definition isdigit :: "char \<Rightarrow> bool" where
  "isdigit c \<longleftrightarrow> 48 \<le> byte c \<and> byte c \<le> 57"

definition isupper :: "char \<Rightarrow> bool" where
  "isupper c \<longleftrightarrow> 65 \<le> byte c \<and> byte c \<le> 90"

definition islower :: "char \<Rightarrow> bool" where
  "islower c \<longleftrightarrow> 97 \<le> byte c \<and> byte c \<le> 122"

definition isalpha :: "char \<Rightarrow> bool" where
  "isalpha c \<longleftrightarrow> isupper c \<or> islower c"

definition isalnum :: "char \<Rightarrow> bool" where
  "isalnum c \<longleftrightarrow> isalpha c \<or> isdigit c"

definition tolower :: "char \<Rightarrow> char" where
  "tolower c = (if isupper c then char_of (byte c + 32) else c)"

definition digit_val :: "char \<Rightarrow> int" where
  "digit_val c = byte c - 48"

definition digit_char :: "int \<Rightarrow> char" where
  "digit_char n = char_of (48 + n)"

lemmas ctype_defs = isspace_def isdigit_def isupper_def islower_def isalpha_def isalnum_def
  tolower_def digit_val_def byte_def NUL_def

lemma isspace_not_alnum [cstring]: "isspace c \<Longrightarrow> \<not> isalnum c"
  by (auto simp: ctype_defs)

lemma isdigit_not_space [cstring]: "isdigit c \<Longrightarrow> \<not> isspace c"
  by (auto simp: ctype_defs)

lemma isalpha_not_space [cstring]: "isalpha c \<Longrightarrow> \<not> isspace c"
  by (auto simp: ctype_defs)

lemma isalpha_not_digit [cstring]: "isalpha c \<Longrightarrow> \<not> isdigit c"
  by (auto simp: ctype_defs)

lemma byte_digit_char [cstring]: "0 \<le> n \<Longrightarrow> n < 10 \<Longrightarrow> byte (digit_char n) = 48 + n"
  by (simp add: byte_def digit_char_def)

lemma isdigit_digit_char [cstring]: "0 \<le> n \<Longrightarrow> n < 10 \<Longrightarrow> isdigit (digit_char n)"
  by (simp add: isdigit_def byte_digit_char)

lemma digit_val_digit_char [cstring]: "0 \<le> n \<Longrightarrow> n < 10 \<Longrightarrow> digit_val (digit_char n) = n"
  by (simp add: digit_val_def byte_digit_char)

section \<open>Strings and pointers into strings\<close>

text \<open>\<open>*p\<close> for a pointer given by its suffix: the terminator at the end.\<close>

definition deref :: "string \<Rightarrow> char" where
  "deref s = (case s of [] \<Rightarrow> NUL | c # _ \<Rightarrow> c)"

lemma deref_simps [simp]: "deref [] = NUL" "deref (c # s) = c"
  by (simp_all add: deref_def)

text \<open>\<open>while (*p && P(*p)) p++\<close>: the pointer after the loop is the suffix that \<open>dropWhile\<close> leaves.\<close>

abbreviation skip :: "(char \<Rightarrow> bool) \<Rightarrow> string \<Rightarrow> string" where
  "skip \<equiv> dropWhile"

abbreviation skip_space :: "string \<Rightarrow> string" where
  "skip_space \<equiv> dropWhile isspace"

text \<open>\<open>strncmp(s, k, strlen(k)) == 0\<close> and \<open>strncasecmp(s, k, strlen(k)) == 0\<close>.\<close>

definition starts_with :: "string \<Rightarrow> string \<Rightarrow> bool" where
  "starts_with k s \<longleftrightarrow> take (length k) s = k"

definition starts_with_nocase :: "string \<Rightarrow> string \<Rightarrow> bool" where
  "starts_with_nocase k s \<longleftrightarrow> map tolower (take (length k) s) = map tolower k"

lemma starts_with_append [cstring, simp]: "starts_with k (k @ s)"
  by (simp add: starts_with_def)

lemma starts_with_nocase_append [cstring, simp]: "starts_with_nocase k (k @ s)"
  by (simp add: starts_with_nocase_def)

lemma starts_with_length: "starts_with k s \<Longrightarrow> length k \<le> length s"
  unfolding starts_with_def by (metis length_take min.cobounded1 min.absorb_iff2 nle_le)

lemma starts_with_nocase_length: "starts_with_nocase k s \<Longrightarrow> length k \<le> length s"
  unfolding starts_with_nocase_def
  by (metis length_map length_take min.cobounded1 min.absorb_iff2 nle_le)

text \<open>A word without a space that does not begin \<open>p\<close> does not begin \<open>p\<close> followed by a space either.\<close>

lemma not_starts_with_append:
  assumes k: "\<not> starts_with k p" and nosp: "CHR '' '' \<notin> set k"
    and rest: "rest = [] \<or> hd rest = CHR '' ''"
  shows "\<not> starts_with k (p @ rest)"
proof
  assume sw: "starts_with k (p @ rest)"
  show False
  proof (cases "length k \<le> length p")
    case True
    with sw k show False by (simp add: starts_with_def)
  next
    case False
    with sw have kp: "p @ take (length k - length p) rest = k" by (simp add: starts_with_def)
    show False
    proof (cases rest)
      case Nil
      with kp k show False by (simp add: starts_with_def)
    next
      case (Cons c r)
      with False rest have "CHR '' '' \<in> set (take (length k - length p) rest)"
        by (cases "length k - length p") auto
      with kp nosp show False by (metis Un_iff set_append)
    qed
  qed
qed

lemma length_skip_le [simp]: "length (dropWhile P s) \<le> length s"
  by (rule length_dropWhile_le)

lemma dropWhile_idem_hd: "dropWhile P s = [] \<or> \<not> P (hd (dropWhile P s))"
  using hd_dropWhile by blast

lemma skip_space_no_space [simp]: "s \<noteq> [] \<Longrightarrow> \<not> isspace (hd s) \<Longrightarrow> dropWhile isspace s = s"
  by (cases s) auto

section \<open>Decimal numbers\<close>

text \<open>The value of a block of decimal digits, and the decimal representation of a natural number
  (\<open>printf("%llu")\<close>).\<close>

definition dec_val :: "string \<Rightarrow> int" where
  "dec_val ds = foldl (\<lambda>n c. 10 * n + digit_val c) 0 ds"

fun dec_rev :: "int \<Rightarrow> string" where
  "dec_rev n = (if n < 10 then [digit_char n] else digit_char (n mod 10) # dec_rev (n div 10))"

declare dec_rev.simps [simp del]

text \<open>The decimal representation of a non-negative number, and of any integer.\<close>

definition dec_of_pos :: "int \<Rightarrow> string" where
  "dec_of_pos n = rev (dec_rev n)"

definition dec_of_int :: "int \<Rightarrow> string" where
  "dec_of_int i = (if i < 0 then CHR ''-'' # dec_of_pos (- i) else dec_of_pos i)"

lemma dec_val_snoc: "dec_val (ds @ [c]) = 10 * dec_val ds + digit_val c"
  by (simp add: dec_val_def)

lemma dec_rev_nonempty: "dec_rev n \<noteq> []"
  by (subst dec_rev.simps) simp

lemma dec_of_pos_nonempty [simp]: "dec_of_pos n \<noteq> []"
  by (simp add: dec_of_pos_def dec_rev_nonempty)

lemma dec_rev_digits: "0 \<le> n \<Longrightarrow> \<forall>c \<in> set (dec_rev n). isdigit c"
proof (induction n rule: dec_rev.induct)
  case (1 n)
  then show ?case
    by (cases "n < 10") (auto simp: dec_rev.simps [of n] isdigit_digit_char)
qed

lemma dec_of_pos_digits: "0 \<le> n \<Longrightarrow> \<forall>c \<in> set (dec_of_pos n). isdigit c"
  using dec_rev_digits by (simp add: dec_of_pos_def)

lemma dec_val_dec_of_pos [simp]: "0 \<le> n \<Longrightarrow> dec_val (dec_of_pos n) = n"
proof (induction n rule: dec_rev.induct)
  case (1 n)
  show ?case
  proof (cases "n < 10")
    case True
    with "1.prems" show ?thesis
      by (simp add: dec_of_pos_def dec_rev.simps [of n] dec_val_def digit_val_digit_char)
  next
    case False
    then have "dec_of_pos n = dec_of_pos (n div 10) @ [digit_char (n mod 10)]"
      by (simp add: dec_of_pos_def dec_rev.simps [of n])
    moreover have "dec_val (dec_of_pos (n div 10)) = n div 10"
      using False "1.prems" by (intro "1.IH") auto
    ultimately show ?thesis
      by (simp add: dec_val_snoc digit_val_digit_char)
  qed
qed

lemma dec_val_nonneg: "\<forall>c \<in> set ds. isdigit c \<Longrightarrow> 0 \<le> dec_val ds"
proof (induction ds rule: rev_induct)
  case Nil
  then show ?case by (simp add: dec_val_def)
next
  case (snoc c ds)
  have "0 \<le> digit_val c"
    using snoc.prems by (simp add: isdigit_def digit_val_def)
  with snoc show ?case by (simp add: dec_val_snoc)
qed

text \<open>\<open>strtol(p, &end, 10)\<close> on a 64-bit \<open>long\<close>: leading white space, an optional sign, digits; the
  value saturates. \<open>None\<close> for \<open>end == p\<close> (no digits). The result is the value and the suffix at
  \<open>end\<close>.\<close>

definition split_sign :: "string \<Rightarrow> bool \<times> string" where
  "split_sign s = (case s of
      [] \<Rightarrow> (False, [])
    | c # r \<Rightarrow> if c = CHR ''-'' then (True, r) else if c = CHR ''+'' then (False, r) else (False, s))"

definition strtol :: "string \<Rightarrow> (int \<times> string) option" where
  "strtol p = (case split_sign (skip_space p) of (neg, s) \<Rightarrow>
     (let ds = takeWhile isdigit s; n = dec_val ds in
      if ds = [] then None
      else Some (if neg then max (- (2 ^ 63)) (- n) else min (2 ^ 63 - 1) n, dropWhile isdigit s)))"

text \<open>\<open>strtoull(p, &end, 10)\<close>: the same syntax; a minus sign negates in the unsigned type, and a
  magnitude over \<open>ULLONG_MAX\<close> saturates (whatever the sign).\<close>

definition strtoull :: "string \<Rightarrow> (u64 \<times> string) option" where
  "strtoull p = (case split_sign (skip_space p) of (neg, s) \<Rightarrow>
     (let ds = takeWhile isdigit s; n = dec_val ds in
      if ds = [] then None
      else Some (if 2 ^ 64 \<le> n then - 1 else if neg then - word_of_int n else word_of_int n,
                 dropWhile isdigit s)))"

lemma split_sign_length: "split_sign s = (b, r) \<Longrightarrow> length r \<le> length s"
  by (auto simp: split_sign_def split: list.splits if_splits)

lemma length_dropWhile_less: "takeWhile P s \<noteq> [] \<Longrightarrow> length (dropWhile P s) < length s"
proof -
  assume ne: "takeWhile P s \<noteq> []"
  have "length (takeWhile P s) + length (dropWhile P s) = length s"
    by (metis length_append takeWhile_dropWhile_id)
  with ne show ?thesis by (cases "takeWhile P s") auto
qed

text \<open>\<open>atoi\<close> is \<open>(int)strtol(p, NULL, 10)\<close>, and 0 without digits.\<close>

definition atoi :: "string \<Rightarrow> int" where
  "atoi p = (case strtol p of None \<Rightarrow> 0 | Some (n, _) \<Rightarrow> sint (word_of_int n :: i32))"

text \<open>The C string in a buffer.\<close>

definition cstr :: "string \<Rightarrow> string" where
  "cstr b = takeWhile (\<lambda>c. c \<noteq> NUL) b"

lemma strtol_length [parser_mono]: "strtol p = Some (v, r) \<Longrightarrow> length r < length p"
proof -
  assume "strtol p = Some (v, r)"
  then obtain neg s where s: "split_sign (skip_space p) = (neg, s)"
    and "takeWhile isdigit s \<noteq> []" and "r = dropWhile isdigit s"
    by (auto simp: strtol_def Let_def split: prod.splits if_splits)
  then have "length r < length s" using length_dropWhile_less by blast
  also have "length s \<le> length (skip_space p)" using s by (rule split_sign_length)
  also have "\<dots> \<le> length p" by simp
  finally show ?thesis .
qed

lemma strtoull_length [parser_mono]: "strtoull p = Some (v, r) \<Longrightarrow> length r < length p"
proof -
  assume "strtoull p = Some (v, r)"
  then obtain neg s where s: "split_sign (skip_space p) = (neg, s)"
    and "takeWhile isdigit s \<noteq> []" and "r = dropWhile isdigit s"
    by (auto simp: strtoull_def Let_def split: prod.splits if_splits)
  then have "length r < length s" using length_dropWhile_less by blast
  also have "length s \<le> length (skip_space p)" using s by (rule split_sign_length)
  also have "\<dots> \<le> length p" by simp
  finally show ?thesis .
qed

section \<open>Pointers only move forward\<close>

lemma suffix_tl_trans [parser_mono]: "suffix s t \<Longrightarrow> suffix (tl s) t"
  using suffix_order.trans suffix_tl by blast

lemma suffix_drop_trans [parser_mono]: "suffix s t \<Longrightarrow> suffix (drop n s) t"
  using suffix_drop suffix_order.trans by blast

lemma suffix_skip_trans [parser_mono]: "suffix s t \<Longrightarrow> suffix (dropWhile P s) t"
  using suffix_dropWhile suffix_order.trans by blast

lemma suffix_ConsD_dropWhile: "dropWhile P s = c # r \<Longrightarrow> suffix r s"
  by (metis suffix_ConsD suffix_dropWhile)

lemma split_sign_suffix: "split_sign s = (b, r) \<Longrightarrow> suffix r s"
  by (auto simp: split_sign_def suffix_ConsI split: list.splits if_splits)

lemma split_sign_skip_suffix: "split_sign (skip_space p) = (b, r) \<Longrightarrow> suffix r p"
  using split_sign_suffix suffix_dropWhile suffix_order.trans by blast

lemma strtol_suffix [parser_mono]: "strtol p = Some (v, r) \<Longrightarrow> suffix r p"
  by (auto simp: strtol_def Let_def split: prod.splits if_splits
      dest!: split_sign_skip_suffix intro: suffix_skip_trans)

lemma strtoull_suffix [parser_mono]: "strtoull p = Some (v, r) \<Longrightarrow> suffix r p"
  by (auto simp: strtoull_def Let_def split: prod.splits if_splits
      dest!: split_sign_skip_suffix intro: suffix_skip_trans)

end
