(* ===== verification/F64.thy ===== *)
theory F64
  imports Complex_Main Prelude
begin

text \<open>
  The C type \<open>double\<close>: IEEE 754 binary64 with round-to-nearest-even, executable.

  A finite number is a sign, an integer significand and a binary exponent; every operation computes
  the exact rational result and rounds it once (\<open>f64_of_ratio\<close>). The operations are the ones the code
  uses: \<open>+\<close>, \<open>*\<close>, \<open>/\<close>, \<open><\<close>, \<open>==\<close>, \<open>fabs\<close>, the conversions from and to integers, \<open>strtod\<close> and the
  conversions \<open>%.0f\<close> and \<open>%.6f\<close> of \<open>printf\<close>. The lemmas relate the comparison of finite numbers to
  the order of the real numbers.
\<close>

datatype f64 = F_nan | F_inf bool | F_fin bool int int

section \<open>Rounding\<close>

fun ilog2 :: "int \<Rightarrow> int" where
  "ilog2 n = (if n < 2 then 0 else 1 + ilog2 (n div 2))"

declare ilog2.simps [simp del]

text \<open>The exponent \<open>k\<close> with \<open>2 ^ k \<le> n / d < 2 ^ (k + 1)\<close>.\<close>

definition ratio_exp :: "int \<Rightarrow> int \<Rightarrow> int" where
  "ratio_exp n d =
     (let l = ilog2 n - ilog2 d in
      if (if 0 \<le> l then d * 2 ^ nat l \<le> n else d \<le> n * 2 ^ nat (- l)) then l else l - 1)"

definition round_half_even :: "int \<Rightarrow> int \<Rightarrow> int" where
  "round_half_even n d =
     (let q = n div d; r = n mod d in
      if 2 * r < d then q else if d < 2 * r then q + 1 else q + q mod 2)"

definition f64_of_ratio :: "bool \<Rightarrow> int \<Rightarrow> int \<Rightarrow> f64" where
  "f64_of_ratio s n d =
     (if n = 0 then F_fin s 0 (- 1074)
      else
        let e = max (- 1074) (ratio_exp n d - 52);
            q = (if 0 \<le> e then round_half_even n (d * 2 ^ nat e)
                 else round_half_even (n * 2 ^ nat (- e)) d)
        in if q = 2 ^ 53 then (if 971 < e + 1 then F_inf s else F_fin s (2 ^ 52) (e + 1))
           else if 971 < e then F_inf s else F_fin s q e)"

definition f64_of_dyadic :: "bool \<Rightarrow> int \<Rightarrow> int \<Rightarrow> f64" where
  "f64_of_dyadic s m e =
     (if 0 \<le> e then f64_of_ratio s (m * 2 ^ nat e) 1 else f64_of_ratio s m (2 ^ nat (- e)))"

section \<open>Arithmetic\<close>

abbreviation f64_zero :: f64 where
  "f64_zero \<equiv> F_fin False 0 (- 1074)"

abbreviation f64_infinity :: f64 where
  "f64_infinity \<equiv> F_inf False"

abbreviation f64_neg_infinity :: f64 where
  "f64_neg_infinity \<equiv> F_inf True"

definition signed :: "bool \<Rightarrow> int \<Rightarrow> int" where
  "signed s m = (if s then - m else m)"

fun f64_add :: "f64 \<Rightarrow> f64 \<Rightarrow> f64" where
  "f64_add F_nan y = F_nan"
| "f64_add x F_nan = F_nan"
| "f64_add (F_inf s) (F_inf t) = (if s = t then F_inf s else F_nan)"
| "f64_add (F_inf s) (F_fin t m e) = F_inf s"
| "f64_add (F_fin s m e) (F_inf t) = F_inf t"
| "f64_add (F_fin s m e) (F_fin t n f) =
     (let g = min e f;
          i = signed s m * 2 ^ nat (e - g) + signed t n * 2 ^ nat (f - g)
      in if i = 0 then F_fin (s \<and> t) 0 (- 1074) else f64_of_dyadic (i < 0) \<bar>i\<bar> g)"

fun f64_neg :: "f64 \<Rightarrow> f64" where
  "f64_neg F_nan = F_nan"
| "f64_neg (F_inf s) = F_inf (\<not> s)"
| "f64_neg (F_fin s m e) = F_fin (\<not> s) m e"

definition f64_sub :: "f64 \<Rightarrow> f64 \<Rightarrow> f64" where
  "f64_sub x y = f64_add x (f64_neg y)"

fun f64_mul :: "f64 \<Rightarrow> f64 \<Rightarrow> f64" where
  "f64_mul F_nan y = F_nan"
| "f64_mul x F_nan = F_nan"
| "f64_mul (F_inf s) (F_inf t) = F_inf (s \<noteq> t)"
| "f64_mul (F_inf s) (F_fin t m e) = (if m = 0 then F_nan else F_inf (s \<noteq> t))"
| "f64_mul (F_fin s m e) (F_inf t) = (if m = 0 then F_nan else F_inf (s \<noteq> t))"
| "f64_mul (F_fin s m e) (F_fin t n f) = f64_of_dyadic (s \<noteq> t) (m * n) (e + f)"

fun f64_div :: "f64 \<Rightarrow> f64 \<Rightarrow> f64" where
  "f64_div F_nan y = F_nan"
| "f64_div x F_nan = F_nan"
| "f64_div (F_inf s) (F_inf t) = F_nan"
| "f64_div (F_inf s) (F_fin t m e) = F_inf (s \<noteq> t)"
| "f64_div (F_fin s m e) (F_inf t) = F_fin (s \<noteq> t) 0 (- 1074)"
| "f64_div (F_fin s m e) (F_fin t n f) =
     (if n = 0 then (if m = 0 then F_nan else F_inf (s \<noteq> t))
      else if 0 \<le> e - f then f64_of_ratio (s \<noteq> t) (m * 2 ^ nat (e - f)) n
      else f64_of_ratio (s \<noteq> t) m (n * 2 ^ nat (f - e)))"

fun f64_abs :: "f64 \<Rightarrow> f64" where
  "f64_abs F_nan = F_nan"
| "f64_abs (F_inf s) = F_inf False"
| "f64_abs (F_fin s m e) = F_fin False m e"

section \<open>Comparison\<close>

fun f64_lt :: "f64 \<Rightarrow> f64 \<Rightarrow> bool" where
  "f64_lt F_nan y = False"
| "f64_lt x F_nan = False"
| "f64_lt (F_inf s) (F_inf t) = (s \<and> \<not> t)"
| "f64_lt (F_inf s) (F_fin t n f) = s"
| "f64_lt (F_fin s m e) (F_inf t) = (\<not> t)"
| "f64_lt (F_fin s m e) (F_fin t n f) =
     (let g = min e f in signed s m * 2 ^ nat (e - g) < signed t n * 2 ^ nat (f - g))"

fun f64_eq :: "f64 \<Rightarrow> f64 \<Rightarrow> bool" where
  "f64_eq F_nan y = False"
| "f64_eq x F_nan = False"
| "f64_eq (F_inf s) (F_inf t) = (s = t)"
| "f64_eq (F_inf s) (F_fin t n f) = False"
| "f64_eq (F_fin s m e) (F_inf t) = False"
| "f64_eq (F_fin s m e) (F_fin t n f) =
     (let g = min e f in signed s m * 2 ^ nat (e - g) = signed t n * 2 ^ nat (f - g))"

definition f64_le :: "f64 \<Rightarrow> f64 \<Rightarrow> bool" where
  "f64_le x y \<longleftrightarrow> f64_lt x y \<or> f64_eq x y"

section \<open>Conversions\<close>

definition f64_of_int :: "int \<Rightarrow> f64" where
  "f64_of_int i = f64_of_ratio (i < 0) \<bar>i\<bar> 1"

text \<open>Truncation towards zero, defined on finite numbers only.\<close>

fun f64_trunc :: "f64 \<Rightarrow> int option" where
  "f64_trunc F_nan = None"
| "f64_trunc (F_inf s) = None"
| "f64_trunc (F_fin s m e) =
     Some (signed s (if 0 \<le> e then m * 2 ^ nat e else m div 2 ^ nat (- e)))"

text \<open>A conversion to an integer type whose range does not hold the truncated value is undefined
  behaviour in C.\<close>

definition f64_to_u64 :: "f64 \<Rightarrow> u64 outcome" where
  "f64_to_u64 x = (case f64_trunc x of
      None \<Rightarrow> UB
    | Some i \<Rightarrow> if 0 \<le> i \<and> i < 2 ^ 64 then Ok (word_of_int i) else UB)"

definition f64_to_i32 :: "f64 \<Rightarrow> i32 outcome" where
  "f64_to_i32 x = (case f64_trunc x of
      None \<Rightarrow> UB
    | Some i \<Rightarrow> if - (2 ^ 31) \<le> i \<and> i < 2 ^ 31 then Ok (word_of_int i) else UB)"

section \<open>Decimal input and output\<close>

text \<open>\<open>printf("%.<k>f")\<close>: the exact value rounded to \<open>k\<close> decimals, half to even.\<close>

definition pad_zeros :: "nat \<Rightarrow> string \<Rightarrow> string" where
  "pad_zeros k ds = replicate (k - length ds) (CHR ''0'') @ ds"

definition fmt_decimal :: "nat \<Rightarrow> int \<Rightarrow> string" where
  "fmt_decimal k i =
     (let ds = pad_zeros (k + 1) (dec_of_pos i); a = length ds - k in
      if k = 0 then ds else take a ds @ ''.'' @ drop a ds)"

fun fmt_f :: "nat \<Rightarrow> f64 \<Rightarrow> string" where
  "fmt_f k F_nan = ''nan''"
| "fmt_f k (F_inf s) = (if s then ''-inf'' else ''inf'')"
| "fmt_f k (F_fin s m e) =
     (if s then ''-'' else []) @
     fmt_decimal k (if 0 \<le> e then m * 2 ^ nat e * 10 ^ k
                    else round_half_even (m * 10 ^ k) (2 ^ nat (- e)))"

definition isxdigit :: "char \<Rightarrow> bool" where
  "isxdigit c \<longleftrightarrow> isdigit c \<or> (97 \<le> byte (tolower c) \<and> byte (tolower c) \<le> 102)"

definition hex_digit_val :: "char \<Rightarrow> int" where
  "hex_digit_val c = (if isdigit c then digit_val c else byte (tolower c) - 87)"

definition hex_val :: "string \<Rightarrow> int" where
  "hex_val ds = foldl (\<lambda>n c. 16 * n + hex_digit_val c) 0 ds"

text \<open>The optional exponent part introduced by the letter \<open>l\<close>: its value and the rest of the string.\<close>

definition exponent_part :: "char \<Rightarrow> string \<Rightarrow> int \<times> string" where
  "exponent_part l s = (case s of
      [] \<Rightarrow> (0, s)
    | c # r \<Rightarrow>
        if tolower c \<noteq> l then (0, s)
        else (case split_sign r of (neg, t) \<Rightarrow>
          let ds = takeWhile isdigit t in
          if ds = [] then (0, s)
          else (signed neg (dec_val ds), dropWhile isdigit t)))"

text \<open>Digits, an optional point, digits: the two digit blocks and the rest.\<close>

definition digit_blocks :: "(char \<Rightarrow> bool) \<Rightarrow> string \<Rightarrow> string \<times> string \<times> string" where
  "digit_blocks P s =
     (let a = takeWhile P s; t = dropWhile P s in
      case t of
        [] \<Rightarrow> (a, [], t)
      | c # r \<Rightarrow> if c = CHR ''.'' \<and> (a \<noteq> [] \<or> takeWhile P r \<noteq> [])
                 then (a, takeWhile P r, dropWhile P r) else (a, [], t))"

definition scale :: "bool \<Rightarrow> int \<Rightarrow> int \<Rightarrow> int \<Rightarrow> f64" where
  "scale neg b n x =
     (if 0 \<le> x then f64_of_ratio neg (n * b ^ nat x) 1 else f64_of_ratio neg n (b ^ nat (- x)))"

definition strtod_decimal :: "bool \<Rightarrow> string \<Rightarrow> (f64 \<times> string) option" where
  "strtod_decimal neg s = (case digit_blocks isdigit s of (a, b, t) \<Rightarrow>
     if a = [] \<and> b = [] then None
     else case exponent_part (CHR ''e'') t of (x, r) \<Rightarrow>
       Some (scale neg 10 (dec_val (a @ b)) (x - int (length b)), r))"

definition strtod_hex :: "bool \<Rightarrow> string \<Rightarrow> (f64 \<times> string) option" where
  "strtod_hex neg s = (case digit_blocks isxdigit s of (a, b, t) \<Rightarrow>
     if a = [] \<and> b = [] then None
     else case exponent_part (CHR ''p'') t of (x, r) \<Rightarrow>
       Some (scale neg 2 (hex_val (a @ b)) (x - 4 * int (length b)), r))"

definition nan_chars :: "string \<Rightarrow> string" where
  "nan_chars s = (case s of
      [] \<Rightarrow> s
    | c # r \<Rightarrow> if c = CHR ''('' then
        (case dropWhile (\<lambda>c. isalnum c \<or> c = CHR ''_'') r of
           d # t \<Rightarrow> if d = CHR '')'' then t else s
         | [] \<Rightarrow> s)
      else s)"

text \<open>\<open>strtod(p, &end)\<close>: white space, sign, then an infinity, a NaN, a hexadecimal or a decimal number.
  \<open>None\<close> for \<open>end == p\<close>.\<close>

definition strtod :: "string \<Rightarrow> (f64 \<times> string) option" where
  "strtod p = (case split_sign (skip_space p) of (neg, s) \<Rightarrow>
     if starts_with_nocase ''infinity'' s then Some (F_inf neg, drop 8 s)
     else if starts_with_nocase ''inf'' s then Some (F_inf neg, drop 3 s)
     else if starts_with_nocase ''nan'' s then Some (F_nan, nan_chars (drop 3 s))
     else if starts_with_nocase ''0x'' s then
       (case strtod_hex neg (drop 2 s) of
          Some r \<Rightarrow> Some r
        | None \<Rightarrow> strtod_decimal neg s)
     else strtod_decimal neg s)"

lemma exponent_part_suffix: "exponent_part l s = (x, r) \<Longrightarrow> suffix r s"
  by (auto simp: exponent_part_def Let_def split: list.splits if_splits prod.splits
      dest!: split_sign_suffix intro: suffix_skip_trans suffix_ConsI)

lemma digit_blocks_suffix: "digit_blocks P s = (a, b, r) \<Longrightarrow> suffix r s"
  by (auto simp: digit_blocks_def Let_def split: list.splits if_splits
      intro: suffix_dropWhile suffix_skip_trans suffix_ConsD_dropWhile)

lemma nan_chars_suffix: "suffix (nan_chars s) s"
  by (auto simp: nan_chars_def split: list.splits intro: suffix_ConsI suffix_ConsD_dropWhile)

lemma strtod_decimal_suffix: "strtod_decimal neg s = Some (v, r) \<Longrightarrow> suffix r s"
  by (auto simp: strtod_decimal_def split: prod.splits if_splits
      dest!: exponent_part_suffix digit_blocks_suffix intro: suffix_order.trans)

lemma strtod_hex_suffix: "strtod_hex neg s = Some (v, r) \<Longrightarrow> suffix r s"
  by (auto simp: strtod_hex_def split: prod.splits if_splits
      dest!: exponent_part_suffix digit_blocks_suffix intro: suffix_order.trans)

lemma strtod_suffix [parser_mono]:
  assumes "strtod p = Some (v, r)"
  shows "suffix r p"
proof -
  obtain neg s where ns: "split_sign (skip_space p) = (neg, s)" by fastforce
  have "suffix r s"
    using assms ns nan_chars_suffix [of "drop 3 s"] suffix_order.trans [OF strtod_hex_suffix suffix_drop]
    by (auto simp: strtod_def suffix_drop dest: strtod_decimal_suffix
        intro: suffix_order.trans [OF _ suffix_drop]
        split: if_splits option.splits)
  then show ?thesis
    using split_sign_skip_suffix [OF ns] suffix_order.trans by blast
qed

section \<open>Comparison is the order of the real numbers\<close>

fun f64_val :: "f64 \<Rightarrow> real" where
  "f64_val (F_fin s m e) = of_int (signed s m) * 2 powi e"
| "f64_val _ = 0"

fun f64_finite :: "f64 \<Rightarrow> bool" where
  "f64_finite (F_fin s m e) = True"
| "f64_finite _ = False"

lemma powi_shift:
  assumes "g \<le> e"
  shows "(2 :: real) powi e = 2 powi g * 2 ^ nat (e - g)"
proof -
  have "(2 :: real) powi e = 2 powi (g + int (nat (e - g)))" using assms by simp
  also have "\<dots> = 2 powi g * 2 powi int (nat (e - g))" by (rule power_int_add) simp
  finally show ?thesis by (simp only: power_int_of_nat)
qed

lemma f64_scaled:
  assumes "g \<le> e"
  shows "of_int i * (2 :: real) powi e = of_int (i * 2 ^ nat (e - g)) * 2 powi g"
  using powi_shift [OF assms] by simp

lemma f64_lt_val:
  assumes "f64_finite x" and "f64_finite y"
  shows "f64_lt x y \<longleftrightarrow> f64_val x < f64_val y"
proof -
  obtain s m e t n f where xy: "x = F_fin s m e" "y = F_fin t n f"
    using assms by (cases x; cases y) auto
  let ?g = "min e f"
  have "f64_val x = of_int (signed s m * 2 ^ nat (e - ?g)) * 2 powi ?g"
    and "f64_val y = of_int (signed t n * 2 ^ nat (f - ?g)) * 2 powi ?g"
    using xy f64_scaled [of ?g e "signed s m"] f64_scaled [of ?g f "signed t n"] by simp_all
  moreover have "(0 :: real) < 2 powi ?g" by simp
  ultimately show ?thesis
    using xy by (simp add: Let_def del: of_int_mult of_int_power)
qed

lemma f64_eq_val:
  assumes "f64_finite x" and "f64_finite y"
  shows "f64_eq x y \<longleftrightarrow> f64_val x = f64_val y"
proof -
  obtain s m e t n f where xy: "x = F_fin s m e" "y = F_fin t n f"
    using assms by (cases x; cases y) auto
  let ?g = "min e f"
  have "f64_val x = of_int (signed s m * 2 ^ nat (e - ?g)) * 2 powi ?g"
    and "f64_val y = of_int (signed t n * 2 ^ nat (f - ?g)) * 2 powi ?g"
    using xy f64_scaled [of ?g e "signed s m"] f64_scaled [of ?g f "signed t n"] by simp_all
  then show ?thesis
    using xy by (simp add: Let_def del: of_int_mult of_int_power)
qed

end
