(* ===== verification/Json.thy ===== *)
theory Json
  imports F64 "HOL-Library.AList"
begin

text \<open>
  The libraries nblex is linked with, as parameters of the model.

  \<open>'j ext\<close> collects the external functions the code calls: jansson (\<open>'j\<close> is the type of a
  \<open>json_t*\<close> that is not NULL), PCRE2, and libuv's \<open>uv_hrtime()\<close> and timer return codes. Every definition that calls one of them
  takes the record as its first argument. A call that may return NULL or an error code returns an
  option. A compiled regular expression is represented by the pattern it was compiled from (the code
  always compiles with the same options), and the clock by the sequence of its readings.

  The locale \<open>jansson\<close> states the documented behaviour of jansson the code relies on. At the end of
  the theory the locale is interpreted on a concrete implementation (objects as insertion-ordered
  association lists, strings checked for UTF-8), which shows the laws are consistent and lets
  theorems be evaluated on concrete events.
\<close>

section \<open>The interface\<close>

datatype json_type =
  JSON_OBJECT | JSON_ARRAY | JSON_STRING | JSON_INTEGER | JSON_REAL | JSON_TRUE | JSON_FALSE | JSON_NULL

record 'j ext =
  json_typeof :: "'j \<Rightarrow> json_type"
  json_string_value :: "'j \<Rightarrow> string"
  json_integer_value :: "'j \<Rightarrow> i64"
  json_real_value :: "'j \<Rightarrow> f64"
  json_object_get :: "'j \<Rightarrow> string \<Rightarrow> 'j option"
  json_object_items :: "'j \<Rightarrow> (string \<times> 'j) list"
  json_array_items :: "'j \<Rightarrow> 'j list"
  json_object :: 'j
  json_array :: 'j
  json_string :: "string \<Rightarrow> 'j option"
  json_integer :: "i64 \<Rightarrow> 'j"
  json_real :: "f64 \<Rightarrow> 'j option"
  json_boolean :: "bool \<Rightarrow> 'j"
  json_object_set :: "'j \<Rightarrow> string \<Rightarrow> 'j \<Rightarrow> 'j option"
  json_array_append :: "'j \<Rightarrow> 'j \<Rightarrow> 'j"
  json_loads :: "string \<Rightarrow> 'j option"
  json_dumps :: "'j \<Rightarrow> string option"
  pcre2_compiles :: "string \<Rightarrow> bool"
  pcre2_match :: "string \<Rightarrow> string \<Rightarrow> int"
  uv_hrtime :: "nat \<Rightarrow> u64"
  uv_timer_init :: int
  uv_timer_start :: int

definition ascii :: "string \<Rightarrow> bool" where
  "ascii s \<longleftrightarrow> list_all (\<lambda>c. 0 < byte c \<and> byte c < 128) s"

lemma ascii_cstr: "ascii s \<Longrightarrow> cstr s = s"
  unfolding cstr_def takeWhile_eq_all_conv by (auto simp: ascii_def list_all_iff NUL_def byte_def)

section \<open>Calls whose result the code ignores\<close>

text \<open>\<open>json_object_set_new(o, k, v)\<close> as a statement: with a NULL value or an invalid key the object
  stays as it was.\<close>

definition obj_set_new :: "'j ext \<Rightarrow> 'j \<Rightarrow> string \<Rightarrow> 'j option \<Rightarrow> 'j" where
  "obj_set_new X ob k vo = (case vo of
      None \<Rightarrow> ob
    | Some v \<Rightarrow> (case json_object_set X ob k v of None \<Rightarrow> ob | Some ob' \<Rightarrow> ob'))"

definition arr_append_new :: "'j ext \<Rightarrow> 'j \<Rightarrow> 'j option \<Rightarrow> 'j" where
  "arr_append_new X ar vo = (case vo of None \<Rightarrow> ar | Some v \<Rightarrow> json_array_append X ar v)"

section \<open>The contract\<close>

locale jansson =
  fixes X :: "'j ext"
  assumes typeof_object: "json_typeof X (json_object X) = JSON_OBJECT"
    and get_empty: "json_object_get X (json_object X) k = None"
    and set_typeof: "json_typeof X ob = JSON_OBJECT \<Longrightarrow> json_object_set X ob k v = Some ob' \<Longrightarrow>
        json_typeof X ob' = JSON_OBJECT"
    and set_get: "json_typeof X ob = JSON_OBJECT \<Longrightarrow> json_object_set X ob k v = Some ob' \<Longrightarrow>
        json_object_get X ob' k' = (if k' = k then Some v else json_object_get X ob k')"
    and set_ascii: "json_typeof X ob = JSON_OBJECT \<Longrightarrow> ascii k \<Longrightarrow>
        \<exists>ob'. json_object_set X ob k v = Some ob'"
    and items_get: "json_typeof X ob = JSON_OBJECT \<Longrightarrow> map_of (json_object_items X ob) = json_object_get X ob"
    and items_distinct: "json_typeof X ob = JSON_OBJECT \<Longrightarrow> distinct (map fst (json_object_items X ob))"
    and string_ascii: "ascii s \<Longrightarrow> \<exists>v. json_string X s = Some v"
    and string_value: "json_string X s = Some v \<Longrightarrow>
        json_typeof X v = JSON_STRING \<and> json_string_value X v = s"
    and integer_value: "json_typeof X (json_integer X i) = JSON_INTEGER
        \<and> json_integer_value X (json_integer X i) = i"
    and real_finite: "json_typeof X v = JSON_REAL \<Longrightarrow> f64_finite (json_real_value X v)"
    and real_some: "f64_finite r \<Longrightarrow> \<exists>v. json_real X r = Some v"
    and real_none: "\<not> f64_finite r \<Longrightarrow> json_real X r = None"
    and real_value: "json_real X r = Some v \<Longrightarrow> json_typeof X v = JSON_REAL \<and> json_real_value X v = r"
    and boolean_typeof: "json_typeof X (json_boolean X b) = (if b then JSON_TRUE else JSON_FALSE)"
    and array_empty: "json_array_items X (json_array X) = []"
    and array_append: "json_array_items X (json_array_append X ar v) = json_array_items X ar @ [v]"
begin

lemma obj_set_new_typeof [simp]:
  "json_typeof X ob = JSON_OBJECT \<Longrightarrow> json_typeof X (obj_set_new X ob k vo) = JSON_OBJECT"
  using set_typeof by (auto simp: obj_set_new_def split: option.splits)

lemma obj_set_new_get:
  assumes "json_typeof X ob = JSON_OBJECT" and "ascii k"
  shows "json_object_get X (obj_set_new X ob k vo) k' =
    (if k' = k \<and> vo \<noteq> None then vo else json_object_get X ob k')"
proof (cases vo)
  case None
  then show ?thesis by (simp add: obj_set_new_def)
next
  case (Some v)
  obtain ob' where ob': "json_object_set X ob k v = Some ob'"
    using set_ascii [OF assms] by blast
  with Some assms show ?thesis
    by (simp add: obj_set_new_def set_get [OF assms(1) ob'])
qed

lemma obj_set_new_get_other:
  assumes "json_typeof X ob = JSON_OBJECT" and "k' \<noteq> k"
  shows "json_object_get X (obj_set_new X ob k vo) k' = json_object_get X ob k'"
  using assms set_get by (auto simp: obj_set_new_def split: option.splits)

lemma arr_append_new_items:
  "json_array_items X (arr_append_new X ar vo) =
    json_array_items X ar @ (case vo of None \<Rightarrow> [] | Some v \<Rightarrow> [v])"
  by (auto simp: arr_append_new_def array_append split: option.splits)

end

section \<open>A concrete jansson\<close>

datatype jtree =
  JObj "(string \<times> jtree) list"
| JArr "jtree list"
| JStr string
| JInt i64
| JReal f64
| JTrue
| JFalse
| JNull

text \<open>RFC 3629 without surrogates, as jansson checks strings and keys.\<close>

fun utf8_ok :: "int list \<Rightarrow> bool" where
  "utf8_ok [] = True"
| "utf8_ok (a # s) =
     (if a < 128 then utf8_ok s
      else (case s of
        [] \<Rightarrow> False
      | b # t \<Rightarrow>
          if \<not> (128 \<le> b \<and> b \<le> 191) then False
          else if 194 \<le> a \<and> a \<le> 223 then utf8_ok t
          else (case t of
            [] \<Rightarrow> False
          | c # u \<Rightarrow>
              if \<not> (128 \<le> c \<and> c \<le> 191) then False
              else if 224 \<le> a \<and> a \<le> 239 then (a = 224 \<longrightarrow> 160 \<le> b) \<and> (a = 237 \<longrightarrow> b < 160) \<and> utf8_ok u
              else (case u of
                [] \<Rightarrow> False
              | d # w \<Rightarrow> 240 \<le> a \<and> a \<le> 244 \<and> 128 \<le> d \<and> d \<le> 191
                  \<and> (a = 240 \<longrightarrow> 144 \<le> b) \<and> (a = 244 \<longrightarrow> b < 144) \<and> utf8_ok w))))"

fun tree_typeof :: "jtree \<Rightarrow> json_type" where
  "tree_typeof (JObj _) = JSON_OBJECT"
| "tree_typeof (JArr _) = JSON_ARRAY"
| "tree_typeof (JStr _) = JSON_STRING"
| "tree_typeof (JInt _) = JSON_INTEGER"
| "tree_typeof (JReal r) = (if f64_finite r then JSON_REAL else JSON_NULL)"
| "tree_typeof JTrue = JSON_TRUE"
| "tree_typeof JFalse = JSON_FALSE"
| "tree_typeof JNull = JSON_NULL"

fun tree_items :: "jtree \<Rightarrow> (string \<times> jtree) list" where
  "tree_items (JObj kvs) = AList.clearjunk kvs"
| "tree_items _ = []"

fun tree_get :: "jtree \<Rightarrow> string \<Rightarrow> jtree option" where
  "tree_get (JObj kvs) k = map_of kvs k"
| "tree_get _ k = None"

fun tree_set :: "jtree \<Rightarrow> string \<Rightarrow> jtree \<Rightarrow> jtree option" where
  "tree_set (JObj kvs) k v = (if utf8_ok (map byte k) then Some (JObj (AList.update k v kvs)) else None)"
| "tree_set _ k v = None"

fun tree_elems :: "jtree \<Rightarrow> jtree list" where
  "tree_elems (JArr vs) = vs"
| "tree_elems _ = []"

text \<open>The remaining parameters of a concrete world: what \<open>json_loads\<close> and \<open>json_dumps\<close> return, the
  patterns PCRE2 compiles and matches, and the clock readings.\<close>

definition tree_ext ::
  "(string \<Rightarrow> jtree option) \<Rightarrow> (jtree \<Rightarrow> string option) \<Rightarrow> (string \<Rightarrow> bool) \<Rightarrow> (string \<Rightarrow> string \<Rightarrow> int)
     \<Rightarrow> (nat \<Rightarrow> u64) \<Rightarrow> jtree ext" where
  "tree_ext loads dumps compiles mat clk = \<lparr>
     json_typeof = tree_typeof,
     json_string_value = (\<lambda>v. case v of JStr s \<Rightarrow> s | _ \<Rightarrow> []),
     json_integer_value = (\<lambda>v. case v of JInt i \<Rightarrow> i | _ \<Rightarrow> 0),
     json_real_value = (\<lambda>v. case v of JReal r \<Rightarrow> r | _ \<Rightarrow> f64_zero),
     json_object_get = tree_get,
     json_object_items = tree_items,
     json_array_items = tree_elems,
     json_object = JObj [],
     json_array = JArr [],
     json_string = (\<lambda>s. if utf8_ok (map byte s) then Some (JStr s) else None),
     json_integer = JInt,
     json_real = (\<lambda>r. if f64_finite r then Some (JReal r) else None),
     json_boolean = (\<lambda>b. if b then JTrue else JFalse),
     json_object_set = tree_set,
     json_array_append = (\<lambda>ar v. JArr (tree_elems ar @ [v])),
     json_loads = loads,
     json_dumps = dumps,
     pcre2_compiles = compiles,
     pcre2_match = mat,
     uv_hrtime = clk,
     uv_timer_init = 0,
     uv_timer_start = 0 \<rparr>"

lemma tree_ext_simps [simp]:
  "json_typeof (tree_ext l d c m h) = tree_typeof"
  "json_string_value (tree_ext l d c m h) (JStr s) = s"
  "json_integer_value (tree_ext l d c m h) (JInt i) = i"
  "json_real_value (tree_ext l d c m h) (JReal r) = r"
  "json_object_get (tree_ext l d c m h) = tree_get"
  "json_object_items (tree_ext l d c m h) = tree_items"
  "json_array_items (tree_ext l d c m h) = tree_elems"
  "json_object (tree_ext l d c m h) = JObj []"
  "json_array (tree_ext l d c m h) = JArr []"
  "json_string (tree_ext l d c m h) s = (if utf8_ok (map byte s) then Some (JStr s) else None)"
  "json_integer (tree_ext l d c m h) = JInt"
  "json_real (tree_ext l d c m h) r = (if f64_finite r then Some (JReal r) else None)"
  "json_boolean (tree_ext l d c m h) b = (if b then JTrue else JFalse)"
  "json_object_set (tree_ext l d c m h) = tree_set"
  "json_array_append (tree_ext l d c m h) ar v = JArr (tree_elems ar @ [v])"
  "json_loads (tree_ext l d c m h) = l"
  "json_dumps (tree_ext l d c m h) = d"
  "pcre2_compiles (tree_ext l d c m h) = c"
  "pcre2_match (tree_ext l d c m h) = m"
  "uv_hrtime (tree_ext l d c m h) = h"
  "uv_timer_init (tree_ext l d c m h) = 0"
  "uv_timer_start (tree_ext l d c m h) = 0"
  by (simp_all add: tree_ext_def)

lemma ascii_utf8_ok: "ascii s \<Longrightarrow> utf8_ok (map byte s)"
  by (induction s) (auto simp: ascii_def)

lemma tree_typeof_object: "tree_typeof v = JSON_OBJECT \<Longrightarrow> \<exists>kvs. v = JObj kvs"
  by (cases v) (auto split: if_splits)

lemma tree_typeof_real: "tree_typeof v = JSON_REAL \<Longrightarrow> \<exists>r. v = JReal r \<and> f64_finite r"
  by (cases v) (auto split: if_splits)

interpretation tree: jansson "tree_ext l d c m h"
proof (unfold_locales, goal_cases)
  case (3 ob k v ob')
  then show ?case by (auto dest!: tree_typeof_object split: if_splits)
next
  case (4 ob k v ob' k')
  then show ?case by (auto dest!: tree_typeof_object simp: update_conv' split: if_splits)
next
  case (5 ob k v)
  then show ?case by (auto dest!: tree_typeof_object simp: ascii_utf8_ok)
next
  case (6 ob)
  then show ?case by (auto dest!: tree_typeof_object simp: map_of_clearjunk)
next
  case (7 ob)
  then show ?case by (auto dest!: tree_typeof_object simp: distinct_clearjunk)
next
  case (11 v)
  then show ?case by (auto dest!: tree_typeof_real)
qed (auto simp: ascii_utf8_ok split: if_splits)

end
