(* ===== verification/Filter_Engine.thy ===== *)
theory Filter_Engine
  imports Json
begin

text \<open>
  The filter engine (\<open>src/core/filter_engine.c\<close>): filter expressions, their parser, their evaluation
  on an event's JSON data, and the extraction of a BPF program for packet capture.

  The parser works on a pointer into the expression, here the remaining suffix; parsing one operand
  returns the node and the new pointer, \<open>None\<close> for NULL. A \<open>filter_expr\<close> is the C struct with the
  union written out as one component per member (the member that \<open>value_type\<close> selects is the one the
  code writes and reads; the others keep the zero of \<open>calloc\<close>).
\<close>

section \<open>Data\<close>

datatype filter_op =
  FILTER_OP_EQ | FILTER_OP_NE | FILTER_OP_LT | FILTER_OP_LE | FILTER_OP_GT | FILTER_OP_GE
| FILTER_OP_MATCH | FILTER_OP_NMATCH | FILTER_OP_IN | FILTER_OP_CONTAINS

record filter_expr =
  fe_field :: string
  fe_op :: filter_op
  value_type :: json_type
  string_val :: "string option"
  int_val :: i32
  float_val :: f64
  bool_val :: bool
  regex_code :: "string option"

datatype filter_node =
  FILTER_NODE_AND filter_node filter_node
| FILTER_NODE_OR filter_node filter_node
| FILTER_NODE_NOT filter_node
| FILTER_NODE_EXPR filter_expr

record filter_t =
  root :: "filter_node option"

text \<open>\<open>calloc(1, sizeof(filter_expr_t))\<close> with the two members that are set first; the zero of
  \<open>json_type\<close> is \<open>JSON_OBJECT\<close>.\<close>

definition new_expr :: "string \<Rightarrow> filter_op \<Rightarrow> filter_expr" where
  "new_expr f op = \<lparr>fe_field = f, fe_op = op, value_type = JSON_OBJECT, string_val = None,
     int_val = 0, float_val = f64_zero, bool_val = False, regex_code = None\<rparr>"

lemma new_expr_simps [simp]:
  "fe_field (new_expr f op) = f" "fe_op (new_expr f op) = op"
  "value_type (new_expr f op) = JSON_OBJECT" "string_val (new_expr f op) = None"
  "regex_code (new_expr f op) = None"
  by (simp_all add: new_expr_def)

section \<open>Parsing\<close>

definition field_char :: "char \<Rightarrow> bool" where
  "field_char c \<longleftrightarrow> isalnum c \<or> c = CHR ''_'' \<or> c = CHR ''.''"

definition parse_operator :: "string \<Rightarrow> (filter_op \<times> string) option" where
  "parse_operator pos =
     (if starts_with ''=='' pos then Some (FILTER_OP_EQ, drop 2 pos)
      else if starts_with ''!='' pos then Some (FILTER_OP_NE, drop 2 pos)
      else if starts_with ''<='' pos then Some (FILTER_OP_LE, drop 2 pos)
      else if starts_with ''>='' pos then Some (FILTER_OP_GE, drop 2 pos)
      else if deref pos = CHR ''<'' then Some (FILTER_OP_LT, tl pos)
      else if deref pos = CHR ''>'' then Some (FILTER_OP_GT, tl pos)
      else if starts_with ''=~'' pos then Some (FILTER_OP_MATCH, drop 2 pos)
      else if starts_with ''!~'' pos then Some (FILTER_OP_NMATCH, drop 2 pos)
      else if starts_with ''in'' pos then Some (FILTER_OP_IN, drop 2 pos)
      else if starts_with ''contains'' pos then Some (FILTER_OP_CONTAINS, drop 8 pos)
      else None)"

text \<open>The text up to the next quote that no backslash escapes, and the pointer at that quote (or at the
  end of the string). The escapes stay in the text.\<close>

fun scan_quoted :: "string \<Rightarrow> string \<times> string" where
  "scan_quoted [] = ([], [])"
| "scan_quoted [c] = (if c = CHR 0x22 then ([], [c]) else ([c], []))"
| "scan_quoted (c # d # s) =
     (if c = CHR 0x22 then ([], c # d # s)
      else if c = CHR 0x5C then (case scan_quoted s of (t, r) \<Rightarrow> (c # d # t, r))
      else (case scan_quoted (d # s) of (t, r) \<Rightarrow> (c # t, r)))"

definition parse_value :: "'j ext \<Rightarrow> filter_expr \<Rightarrow> string \<Rightarrow> filter_expr \<times> string" where
  "parse_value X e pos =
     (if deref pos = CHR 0x22 then
        (case scan_quoted (tl pos) of (t, r) \<Rightarrow>
           if deref r = CHR 0x22 then (e\<lparr>value_type := JSON_STRING, string_val := Some t\<rparr>, tl r)
           else (e, r))
      else if isdigit (deref pos) \<or> (deref pos = CHR ''-'' \<and> isdigit (deref (tl pos))) then
        (if CHR ''.'' \<in> set pos then
           (case strtod pos of
              Some (v, r) \<Rightarrow> (e\<lparr>value_type := JSON_REAL, float_val := v\<rparr>, r)
            | None \<Rightarrow> (e\<lparr>value_type := JSON_REAL, float_val := f64_zero\<rparr>, pos))
         else
           (case strtol pos of
              Some (v, r) \<Rightarrow> (e\<lparr>value_type := JSON_INTEGER, int_val := word_of_int v\<rparr>, r)
            | None \<Rightarrow> (e\<lparr>value_type := JSON_INTEGER, int_val := 0\<rparr>, pos)))
      else if starts_with ''true'' pos then
        (e\<lparr>value_type := JSON_TRUE, bool_val := True\<rparr>, drop 4 pos)
      else if starts_with ''false'' pos then
        (e\<lparr>value_type := JSON_FALSE, bool_val := False\<rparr>, drop 5 pos)
      else if fe_op e = FILTER_OP_MATCH \<or> fe_op e = FILTER_OP_NMATCH then
        (let pattern = takeWhile (\<lambda>c. \<not> isspace c) pos in
         (e\<lparr>value_type := JSON_STRING,
            regex_code := (if pcre2_compiles X pattern then Some pattern else None)\<rparr>,
          dropWhile (\<lambda>c. \<not> isspace c) pos))
      else (e, pos))"

text \<open>Field, operator and value: the part of \<open>parse_filter_expr\<close> after the tests for a parenthesis and
  for \<open>NOT\<close>.\<close>

definition parse_comparison :: "'j ext \<Rightarrow> string \<Rightarrow> (filter_node \<times> string) option" where
  "parse_comparison X pos =
     (let f = takeWhile field_char pos in
      if f = [] then None
      else (case parse_operator (skip_space (dropWhile field_char pos)) of
          None \<Rightarrow> None
        | Some (op, pos1) \<Rightarrow>
            (case parse_value X (new_expr f op) (skip_space pos1) of
               (e, pos2) \<Rightarrow> Some (FILTER_NODE_EXPR e, pos2))))"

function parse_filter_expr :: "'j ext \<Rightarrow> string \<Rightarrow> (filter_node \<times> string) option" where
  "parse_filter_expr X expr =
     (let pos = skip_space expr in
      if deref pos = CHR ''('' then
        (case parse_filter_expr X (tl pos) of
           None \<Rightarrow> None
         | Some (node, pos1) \<Rightarrow>
             (let pos2 = skip_space pos1 in
              Some (node, if deref pos2 = CHR '')'' then tl pos2 else pos2)))
      else if starts_with ''NOT'' pos \<or> starts_with ''not'' pos then
        (case parse_filter_expr X (drop 3 pos) of
           None \<Rightarrow> None
         | Some (operand, pos1) \<Rightarrow> Some (FILTER_NODE_NOT operand, pos1))
      else parse_comparison X pos)"
  by pat_completeness auto

lemma skip_space_paren_shorter:
  assumes "deref (skip_space s) = CHR ''(''"
  shows "length (skip_space s) - Suc 0 < length s"
proof -
  have "skip_space s \<noteq> []"
  proof
    assume "skip_space s = []"
    then have "deref (skip_space s) = NUL" by (simp only: deref_simps)
    with assms show False by (simp add: NUL_def)
  qed
  then have "0 < length (skip_space s)" by simp
  moreover have "length (skip_space s) \<le> length s" by simp
  ultimately show ?thesis by linarith
qed

lemma starts_with_drop_shorter:
  "starts_with k (skip_space s) \<Longrightarrow> k \<noteq> [] \<Longrightarrow> length (drop (length k) (skip_space s)) < length s"
proof -
  assume k: "starts_with k (skip_space s)" and ne: "k \<noteq> []"
  have "0 < length k" using ne by simp
  moreover have "length k \<le> length (skip_space s)" using k by (rule starts_with_length)
  moreover have "length (skip_space s) \<le> length s" by simp
  ultimately show ?thesis unfolding length_drop by linarith
qed

termination parse_filter_expr
proof (relation "measure (\<lambda>(X, s). length s)", goal_cases)
  case 1
  show ?case by simp
next
  case (2 X expr x)
  then show ?case by (simp add: skip_space_paren_shorter)
next
  case (3 X expr x)
  have "length (drop 3 (skip_space expr)) < length expr"
    using 3 starts_with_drop_shorter [of "''NOT''" expr] starts_with_drop_shorter [of "''not''" expr]
    by auto
  with 3 show ?case by simp
qed

declare parse_filter_expr.simps [simp del]

text \<open>The result pointer is a proper suffix of the argument, so every loop over operands ends.\<close>

lemma scan_quoted_append: "scan_quoted s = (t, r) \<Longrightarrow> s = t @ r"
  by (induction s arbitrary: t r rule: scan_quoted.induct)
    (auto split: if_splits prod.splits)

lemma scan_quoted_suffix [parser_mono]: "scan_quoted s = (t, r) \<Longrightarrow> suffix r s"
  using scan_quoted_append suffixI by blast

lemma parse_operator_suffix [parser_mono]: "parse_operator pos = Some (op, r) \<Longrightarrow> suffix r pos"
  by (auto simp: parse_operator_def suffix_drop suffix_tl split: if_splits)

lemma parse_value_suffix [parser_mono]: "parse_value X e pos = (e', r) \<Longrightarrow> suffix r pos"
  by (auto simp: parse_value_def Let_def suffix_drop suffix_dropWhile
      split: if_splits option.splits prod.splits
      dest!: scan_quoted_suffix strtod_suffix strtol_suffix
      intro: suffix_order.trans [OF _ suffix_tl] suffix_tl_trans)

lemma parse_comparison_suffix:
  assumes "parse_comparison X pos = Some (n, r)"
  shows "strict_suffix r pos"
proof -
  from assms obtain op pos1 e where f: "takeWhile field_char pos \<noteq> []"
    and op: "parse_operator (skip_space (dropWhile field_char pos)) = Some (op, pos1)"
    and v: "parse_value X (new_expr (takeWhile field_char pos) op) (skip_space pos1) = (e, r)"
    by (auto simp: parse_comparison_def Let_def split: if_splits option.splits prod.splits)
  have "suffix r pos1" using parse_value_suffix [OF v] suffix_dropWhile suffix_order.trans by blast
  also have "suffix pos1 (dropWhile field_char pos)"
    using parse_operator_suffix [OF op] suffix_dropWhile suffix_order.trans by blast
  also have "strict_suffix (dropWhile field_char pos) pos"
    using length_dropWhile_less [OF f] suffix_dropWhile [of field_char pos]
    by (metis less_irrefl suffix_order.le_neq_trans)
  finally show ?thesis .
qed

lemma parse_filter_expr_suffix:
  "parse_filter_expr X s = Some (n, r) \<Longrightarrow> strict_suffix r s"
proof (induction X s arbitrary: n r rule: parse_filter_expr.induct)
  case (1 X s)
  let ?p = "skip_space s"
  have p: "suffix ?p s" by (rule suffix_dropWhile)
  show ?case
  proof (cases "deref ?p = CHR ''(''")
    case True
    with "1.prems" obtain r' where r': "parse_filter_expr X (tl ?p) = Some (n, r')"
      and r: "suffix r r'"
      by (auto simp: parse_filter_expr.simps [of X s] Let_def suffix_dropWhile
          suffix_tl_trans [OF suffix_dropWhile] split: option.splits if_splits)
    have "strict_suffix r' (tl ?p)" using "1.IH"(1) [OF refl True r'] .
    with r p show ?thesis
      by (meson suffix_order.le_less_trans suffix_order.less_le_trans suffix_tl_trans)
  next
    case False
    note no_paren = this
    show ?thesis
    proof (cases "starts_with ''NOT'' ?p \<or> starts_with ''not'' ?p")
      case True
      with no_paren "1.prems" obtain n' where r': "parse_filter_expr X (drop 3 ?p) = Some (n', r)"
        by (auto simp: parse_filter_expr.simps [of X s] Let_def split: option.splits if_splits)
      have "strict_suffix r (drop 3 ?p)" using "1.IH"(2) [OF refl no_paren True r'] .
      with p show ?thesis
        by (meson suffix_order.less_le_trans suffix_drop_trans)
    next
      case False
      with no_paren "1.prems" have "parse_comparison X ?p = Some (n, r)"
        by (auto simp: parse_filter_expr.simps [of X s] Let_def)
      then have "strict_suffix r ?p" by (rule parse_comparison_suffix)
      with p show ?thesis by (meson suffix_order.less_le_trans)
    qed
  qed
qed

text \<open>The loop of \<open>parse_filter_full\<close>: operands joined from left to right, without precedence; the
  loop stops at the first text that is neither AND nor OR.\<close>

function parse_filter_rest :: "'j ext \<Rightarrow> filter_node \<Rightarrow> string \<Rightarrow> filter_node option" where
  "parse_filter_rest X left pos0 =
     (if pos0 = [] then Some left
      else
        let pos = skip_space pos0 in
        if starts_with ''AND'' pos \<or> starts_with ''and'' pos then
          (case parse_filter_expr X (drop 3 pos) of
             None \<Rightarrow> None
           | Some (right, pos1) \<Rightarrow> parse_filter_rest X (FILTER_NODE_AND left right) pos1)
        else if starts_with ''OR'' pos \<or> starts_with ''or'' pos then
          (case parse_filter_expr X (drop 2 pos) of
             None \<Rightarrow> None
           | Some (right, pos1) \<Rightarrow> parse_filter_rest X (FILTER_NODE_OR left right) pos1)
        else Some left)"
  by pat_completeness auto

lemma parse_filter_expr_shorter: "parse_filter_expr X s = Some (n, r) \<Longrightarrow> length r < length s"
  by (meson parse_filter_expr_suffix suffix_length_less)

lemma parse_drop_skip_shorter:
  "parse_filter_expr X (drop k (skip_space s)) = Some (n, r) \<Longrightarrow> length r < length s"
proof -
  assume "parse_filter_expr X (drop k (skip_space s)) = Some (n, r)"
  then have "length r < length (drop k (skip_space s))" by (rule parse_filter_expr_shorter)
  also have "\<dots> \<le> length (skip_space s)" by simp
  also have "\<dots> \<le> length s" by (rule length_dropWhile_le)
  finally show ?thesis .
qed

termination parse_filter_rest
  by (relation "measure (\<lambda>(X, l, s). length s)") (auto dest: parse_drop_skip_shorter)

declare parse_filter_rest.simps [simp del]

definition parse_filter_full :: "'j ext \<Rightarrow> string \<Rightarrow> filter_node option" where
  "parse_filter_full X expr = (case parse_filter_expr X expr of
      None \<Rightarrow> None
    | Some (left, pos) \<Rightarrow> parse_filter_rest X left pos)"

definition nblex_filter_new :: "'j ext \<Rightarrow> string \<Rightarrow> filter_t option" where
  "nblex_filter_new X expression = (case parse_filter_full X expression of
      None \<Rightarrow> None
    | Some n \<Rightarrow> Some \<lparr>root = Some n\<rparr>)"

section \<open>Evaluation\<close>

text \<open>The equality test shared by \<open>==\<close> and \<open>!=\<close>. \<open>strcmp\<close> on a string value that was never set does not
  happen for parsed filters (lemma \<open>nblex_filter_new_wf\<close> below).\<close>

definition field_equal :: "'j ext \<Rightarrow> filter_expr \<Rightarrow> 'j \<Rightarrow> bool" where
  "field_equal X e v = (case json_typeof X v of
      JSON_STRING \<Rightarrow> value_type e = JSON_STRING \<and> string_val e = Some (json_string_value X v)
    | JSON_INTEGER \<Rightarrow> value_type e = JSON_INTEGER \<and> sint (json_integer_value X v) = sint (int_val e)
    | JSON_REAL \<Rightarrow> value_type e = JSON_REAL \<and> f64_eq (json_real_value X v) (float_val e)
    | JSON_TRUE \<Rightarrow> value_type e = JSON_TRUE
    | JSON_FALSE \<Rightarrow> value_type e = JSON_FALSE
    | _ \<Rightarrow> False)"

fun compare_int :: "filter_op \<Rightarrow> int \<Rightarrow> int \<Rightarrow> bool" where
  "compare_int FILTER_OP_LT a b = (a < b)"
| "compare_int FILTER_OP_LE a b = (a \<le> b)"
| "compare_int FILTER_OP_GT a b = (a > b)"
| "compare_int FILTER_OP_GE a b = (a \<ge> b)"
| "compare_int _ a b = False"

fun compare_f64 :: "filter_op \<Rightarrow> f64 \<Rightarrow> f64 \<Rightarrow> bool" where
  "compare_f64 FILTER_OP_LT a b = f64_lt a b"
| "compare_f64 FILTER_OP_LE a b = f64_le a b"
| "compare_f64 FILTER_OP_GT a b = f64_lt b a"
| "compare_f64 FILTER_OP_GE a b = f64_le b a"
| "compare_f64 _ a b = False"

definition field_compare :: "'j ext \<Rightarrow> filter_expr \<Rightarrow> 'j \<Rightarrow> bool" where
  "field_compare X e v =
     (let ft = json_typeof X v; vt = value_type e in
      if ft = JSON_INTEGER \<and> vt = JSON_INTEGER then
        compare_int (fe_op e) (sint (json_integer_value X v)) (sint (int_val e))
      else if (ft = JSON_REAL \<or> ft = JSON_INTEGER) \<and> (vt = JSON_REAL \<or> vt = JSON_INTEGER) then
        compare_f64 (fe_op e)
          (if ft = JSON_REAL then json_real_value X v else f64_of_int (sint (json_integer_value X v)))
          (if vt = JSON_REAL then float_val e else f64_of_int (sint (int_val e)))
      else False)"

definition evaluate_filter_expr :: "'j ext \<Rightarrow> filter_expr \<Rightarrow> 'j \<Rightarrow> bool" where
  "evaluate_filter_expr X e ev =
     (if json_typeof X ev \<noteq> JSON_OBJECT then False
      else (case json_object_get X ev (fe_field e) of
        None \<Rightarrow> False
      | Some v \<Rightarrow> (case fe_op e of
            FILTER_OP_EQ \<Rightarrow> field_equal X e v
          | FILTER_OP_NE \<Rightarrow> \<not> field_equal X e v
          | FILTER_OP_LT \<Rightarrow> field_compare X e v
          | FILTER_OP_LE \<Rightarrow> field_compare X e v
          | FILTER_OP_GT \<Rightarrow> field_compare X e v
          | FILTER_OP_GE \<Rightarrow> field_compare X e v
          | FILTER_OP_MATCH \<Rightarrow> (case regex_code e of
                Some p \<Rightarrow> json_typeof X v = JSON_STRING \<and> 0 \<le> pcre2_match X p (json_string_value X v)
              | None \<Rightarrow> False)
          | FILTER_OP_NMATCH \<Rightarrow> (case regex_code e of
                Some p \<Rightarrow> json_typeof X v = JSON_STRING \<and> \<not> 0 \<le> pcre2_match X p (json_string_value X v)
              | None \<Rightarrow> False)
          | _ \<Rightarrow> False)))"

fun evaluate_filter_node :: "'j ext \<Rightarrow> filter_node \<Rightarrow> 'j \<Rightarrow> bool" where
  "evaluate_filter_node X (FILTER_NODE_AND l r) ev =
     (evaluate_filter_node X l ev \<and> evaluate_filter_node X r ev)"
| "evaluate_filter_node X (FILTER_NODE_OR l r) ev =
     (evaluate_filter_node X l ev \<or> evaluate_filter_node X r ev)"
| "evaluate_filter_node X (FILTER_NODE_NOT n) ev = (\<not> evaluate_filter_node X n ev)"
| "evaluate_filter_node X (FILTER_NODE_EXPR e) ev = evaluate_filter_expr X e ev"

text \<open>The empty filter (a NULL node) matches everything.\<close>

definition evaluate_filter_root :: "'j ext \<Rightarrow> filter_t \<Rightarrow> 'j \<Rightarrow> bool" where
  "evaluate_filter_root X f ev = (case root f of
      None \<Rightarrow> True
    | Some n \<Rightarrow> evaluate_filter_node X n ev)"

section \<open>BPF extraction\<close>

text \<open>\<open>snprintf\<close> into a buffer of \<open>n\<close> bytes keeps \<open>n - 1\<close> of them.\<close>

definition snprintf :: "nat \<Rightarrow> string \<Rightarrow> string" where
  "snprintf n s = take (n - 1) s"

definition port_value :: "filter_expr \<Rightarrow> i32 outcome" where
  "port_value e = (if value_type e = JSON_INTEGER then Ok (int_val e) else f64_to_i32 (float_val e))"

definition extract_bpf_from_expr :: "filter_expr \<Rightarrow> string option outcome" where
  "extract_bpf_from_expr e =
     (let num = (fe_op e = FILTER_OP_EQ \<and> (value_type e = JSON_INTEGER \<or> value_type e = JSON_REAL));
          txt = (value_type e = JSON_STRING);
          sv = (case string_val e of Some t \<Rightarrow> t | None \<Rightarrow> []) in
      if fe_field e = ''network.dst_port'' then
        (if num then bind_outcome (port_value e)
             (\<lambda>port. Ok (Some (snprintf 512 (''dst port '' @ dec_of_int (sint port)))))
         else Ok None)
      else if fe_field e = ''network.src_port'' then
        (if num then bind_outcome (port_value e)
             (\<lambda>port. Ok (Some (snprintf 512 (''src port '' @ dec_of_int (sint port)))))
         else Ok None)
      else if fe_field e = ''network.protocol'' \<and> txt then
        (if fe_op e = FILTER_OP_EQ \<and> sv \<in> {''tcp'', ''udp'', ''icmp''} then Ok (Some (snprintf 512 sv))
         else Ok None)
      else if fe_field e = ''network.src_ip'' \<and> txt then
        (if fe_op e = FILTER_OP_EQ then Ok (Some (snprintf 512 (''src host '' @ sv))) else Ok None)
      else if fe_field e = ''network.dst_ip'' \<and> txt then
        (if fe_op e = FILTER_OP_EQ then Ok (Some (snprintf 512 (''dst host '' @ sv))) else Ok None)
      else Ok None)"

text \<open>The buffer and the flag \<open>has_content\<close> are threaded through the traversal.\<close>

fun extract_bpf_recursive :: "filter_node \<Rightarrow> string \<times> bool \<Rightarrow> (string \<times> bool) outcome" where
  "extract_bpf_recursive (FILTER_NODE_AND l r) st =
     bind_outcome (extract_bpf_recursive l st) (extract_bpf_recursive r)"
| "extract_bpf_recursive (FILTER_NODE_OR l r) st = Ok st"
| "extract_bpf_recursive (FILTER_NODE_NOT n) st = Ok st"
| "extract_bpf_recursive (FILTER_NODE_EXPR e) (buf, has_content) =
     bind_outcome (extract_bpf_from_expr e) (\<lambda>t. case t of
        None \<Rightarrow> Ok (buf, has_content)
      | Some temp \<Rightarrow>
          if has_content then Ok (buf @ snprintf (1024 - length buf) ('' and '' @ temp), True)
          else Ok (snprintf 1024 temp, True))"

definition nblex_filter_to_bpf :: "filter_t \<Rightarrow> string option outcome" where
  "nblex_filter_to_bpf f = (case root f of
      None \<Rightarrow> Ok None
    | Some n \<Rightarrow> bind_outcome (extract_bpf_recursive n ([], False))
        (\<lambda>(buf, has_content). Ok (if has_content then Some buf else None)))"

end
