(* ===== verification/Filter_Syntax.thy ===== *)
theory Filter_Syntax
  imports Filter_Engine
begin

text \<open>
  The concrete syntax of filters and the parser's correctness for it.

  An abstract syntax of filters (comparisons, \<open>NOT\<close>, a parenthesised comparison, and left-associated
  chains of AND and OR), the text of a filter, and the node the engine is to build for it. Theorem
  \<open>nblex_filter_new_show\<close> says that \<open>nblex_filter_new\<close> builds exactly that node. The side conditions are the lexical
  restrictions of the parser, among them one that is a defect of it: an integer literal must not be
  followed by a dot anywhere in the rest of the expression (see \<open>dotted_literal_is_real\<close>).
\<close>

section \<open>Abstract syntax\<close>

datatype literal = LString string | LInt i32 | LBool bool | LRegex string

datatype operand = Cmp string filter_op literal | Not operand | Paren operand

datatype chain = One operand | And chain operand | Or chain operand

fun expr_of :: "string \<Rightarrow> filter_op \<Rightarrow> literal \<Rightarrow> filter_expr" where
  "expr_of f op (LString t) = (new_expr f op)\<lparr>value_type := JSON_STRING, string_val := Some t\<rparr>"
| "expr_of f op (LInt i) = (new_expr f op)\<lparr>value_type := JSON_INTEGER, int_val := i\<rparr>"
| "expr_of f op (LBool b) =
     (new_expr f op)\<lparr>value_type := (if b then JSON_TRUE else JSON_FALSE), bool_val := b\<rparr>"
| "expr_of f op (LRegex p) = (new_expr f op)\<lparr>value_type := JSON_STRING, regex_code := Some p\<rparr>"

fun node_of :: "operand \<Rightarrow> filter_node" where
  "node_of (Cmp f op l) = FILTER_NODE_EXPR (expr_of f op l)"
| "node_of (Not x) = FILTER_NODE_NOT (node_of x)"
| "node_of (Paren x) = node_of x"

fun node_of_chain :: "chain \<Rightarrow> filter_node" where
  "node_of_chain (One x) = node_of x"
| "node_of_chain (And c x) = FILTER_NODE_AND (node_of_chain c) (node_of x)"
| "node_of_chain (Or c x) = FILTER_NODE_OR (node_of_chain c) (node_of x)"

section \<open>Text\<close>

fun show_op :: "filter_op \<Rightarrow> string" where
  "show_op FILTER_OP_EQ = ''==''"
| "show_op FILTER_OP_NE = ''!=''"
| "show_op FILTER_OP_LT = ''<''"
| "show_op FILTER_OP_LE = ''<=''"
| "show_op FILTER_OP_GT = ''>''"
| "show_op FILTER_OP_GE = ''>=''"
| "show_op FILTER_OP_MATCH = ''=~''"
| "show_op FILTER_OP_NMATCH = ''!~''"
| "show_op FILTER_OP_IN = ''in''"
| "show_op FILTER_OP_CONTAINS = ''contains''"

fun show_literal :: "literal \<Rightarrow> string" where
  "show_literal (LString t) = CHR 0x22 # t @ [CHR 0x22]"
| "show_literal (LInt i) = dec_of_int (sint i)"
| "show_literal (LBool b) = (if b then ''true'' else ''false'')"
| "show_literal (LRegex p) = p"

fun show_operand :: "operand \<Rightarrow> string" where
  "show_operand (Cmp f op l) = f @ '' '' @ show_op op @ '' '' @ show_literal l"
| "show_operand (Not x) = ''NOT '' @ show_operand x"
| "show_operand (Paren x) = ''('' @ show_operand x @ '' )''"

fun show_chain :: "chain \<Rightarrow> string" where
  "show_chain (One x) = show_operand x"
| "show_chain (And c x) = show_chain c @ '' AND '' @ show_operand x"
| "show_chain (Or c x) = show_chain c @ '' OR '' @ show_operand x"

section \<open>Lexical restrictions\<close>

text \<open>\<open>rest\<close> is the text that follows in the expression.\<close>

definition field_ok :: "string \<Rightarrow> bool" where
  "field_ok f \<longleftrightarrow> f \<noteq> [] \<and> list_all field_char f \<and> \<not> starts_with ''NOT'' f \<and> \<not> starts_with ''not'' f"

definition regex_ok :: "string \<Rightarrow> bool" where
  "regex_ok p \<longleftrightarrow> p \<noteq> [] \<and> list_all (\<lambda>c. \<not> isspace c) p \<and> hd p \<noteq> CHR 0x22 \<and> hd p \<noteq> CHR ''-''
     \<and> \<not> isdigit (hd p) \<and> \<not> starts_with ''true'' p \<and> \<not> starts_with ''false'' p"

fun literal_ok :: "'j ext \<Rightarrow> filter_op \<Rightarrow> literal \<Rightarrow> string \<Rightarrow> bool" where
  "literal_ok X op (LString t) rest = list_all (\<lambda>c. c \<noteq> CHR 0x22 \<and> c \<noteq> CHR 0x5C) t"
| "literal_ok X op (LInt i) rest = (CHR ''.'' \<notin> set rest)"
| "literal_ok X op (LBool b) rest = True"
| "literal_ok X op (LRegex p) rest =
     ((op = FILTER_OP_MATCH \<or> op = FILTER_OP_NMATCH) \<and> regex_ok p \<and> pcre2_compiles X p)"

fun operand_ok :: "'j ext \<Rightarrow> operand \<Rightarrow> string \<Rightarrow> bool" where
  "operand_ok X (Cmp f op l) rest = (field_ok f \<and> literal_ok X op l rest)"
| "operand_ok X (Not x) rest = operand_ok X x rest"
| "operand_ok X (Paren x) rest = operand_ok X x ('' )'' @ rest)"

fun chain_ok :: "'j ext \<Rightarrow> chain \<Rightarrow> string \<Rightarrow> bool" where
  "chain_ok X (One x) rest = operand_ok X x rest"
| "chain_ok X (And c x) rest = (chain_ok X c ('' AND '' @ show_operand x @ rest) \<and> operand_ok X x rest)"
| "chain_ok X (Or c x) rest = (chain_ok X c ('' OR '' @ show_operand x @ rest) \<and> operand_ok X x rest)"

text \<open>An operand ends at the end of the text or at a space.\<close>

definition boundary :: "string \<Rightarrow> bool" where
  "boundary rest \<longleftrightarrow> rest = [] \<or> hd rest = CHR '' ''"

lemma boundary_simps [simp]: "boundary []" "boundary (CHR '' '' # r)"
  by (simp_all add: boundary_def)

section \<open>The parser on the text\<close>

lemma isspace_space [simp]: "isspace (CHR '' '')"
  by (simp add: isspace_def)

lemma field_char_not_space: "field_char c \<Longrightarrow> \<not> isspace c"
  by (auto simp: field_char_def ctype_defs)

lemma takeWhile_append_boundary:
  "list_all P xs \<Longrightarrow> (ys = [] \<or> \<not> P (hd ys)) \<Longrightarrow> takeWhile P (xs @ ys) = xs \<and> dropWhile P (xs @ ys) = ys"
  by (induction xs; cases ys) auto

lemma space_not_field_char [simp]: "\<not> field_char (CHR '' '')"
  using field_char_not_space by fastforce

lemma parse_operator_show: "parse_operator (show_op op @ CHR '' '' # s) = Some (op, CHR '' '' # s)"
  by (cases op) (simp_all add: parse_operator_def starts_with_def)

lemma show_op_skip: "skip_space (CHR '' '' # show_op op @ s) = show_op op @ s"
  by (cases op) (simp_all add: isspace_def)

lemma scan_quoted_plain:
  "list_all (\<lambda>c. c \<noteq> CHR 0x22 \<and> c \<noteq> CHR 0x5C) t \<Longrightarrow>
   scan_quoted (t @ CHR 0x22 # r) = (t, CHR 0x22 # r)"
proof (induction t)
  case Nil
  then show ?case by (cases r) simp_all
next
  case (Cons c t)
  then have "scan_quoted (t @ CHR 0x22 # r) = (t, CHR 0x22 # r)" by simp
  with Cons.prems show ?case by (cases t) auto
qed

lemma dec_of_pos_Cons:
  assumes "0 \<le> n"
  obtains d ds where "dec_of_pos n = d # ds" and "isdigit d" and "list_all isdigit ds"
proof -
  obtain d ds where "dec_of_pos n = d # ds" by (meson dec_of_pos_nonempty neq_Nil_conv)
  with dec_of_pos_digits [OF assms] that show thesis by (simp add: list_all_iff)
qed

lemma takeWhile_dec_of_pos:
  assumes "0 \<le> n" and "rest = [] \<or> \<not> isdigit (hd rest)"
  shows "takeWhile isdigit (dec_of_pos n @ rest) = dec_of_pos n"
    and "dropWhile isdigit (dec_of_pos n @ rest) = rest"
  using takeWhile_append_boundary [of isdigit "dec_of_pos n" rest] assms dec_of_pos_digits [OF assms(1)]
  by (auto simp: list_all_iff)

lemma boundary_not_digit: "boundary rest \<Longrightarrow> rest = [] \<or> \<not> isdigit (hd rest)"
  by (auto simp: boundary_def ctype_defs)

lemma strtol_dec_of_int:
  assumes i: "- (2 ^ 63) \<le> i" "i < 2 ^ 63" and rest: "rest = [] \<or> \<not> isdigit (hd rest)"
  shows "strtol (dec_of_int i @ rest) = Some (i, rest)"
proof (cases "i < 0")
  case True
  then have "strtol (dec_of_int i @ rest) = Some (max (- (2 ^ 63)) i, rest)"
    using takeWhile_dec_of_pos [of "- i" rest] rest
    by (simp add: dec_of_int_def strtol_def split_sign_def isspace_def Let_def)
  with i(1) show ?thesis by (simp add: max_def)
next
  case False
  then obtain d ds where d: "dec_of_pos i = d # ds" "isdigit d" by (meson dec_of_pos_Cons not_less)
  then have "d \<noteq> CHR ''-''" "d \<noteq> CHR ''+''" "\<not> isspace d" by (auto simp: ctype_defs)
  then have "split_sign (skip_space (dec_of_int i @ rest)) = (False, dec_of_int i @ rest)"
    using False d by (simp add: dec_of_int_def split_sign_def)
  with False have "strtol (dec_of_int i @ rest) = Some (min (2 ^ 63 - 1) i, rest)"
    using takeWhile_dec_of_pos [of i rest] rest
    by (simp add: dec_of_int_def strtol_def Let_def)
  with i(2) show ?thesis by (simp add: min_def)
qed

lemma sint_i32_range: "- (2 ^ 31) \<le> sint (i :: i32)" "sint (i :: i32) < 2 ^ 31"
  using sint_range_size [of i] by (simp_all add: word_size)

lemma dec_of_int_head:
  "isdigit (deref (dec_of_int i @ rest)) \<or>
   (deref (dec_of_int i @ rest) = CHR ''-'' \<and> isdigit (deref (tl (dec_of_int i @ rest))))"
proof (cases "i < 0")
  case True
  then obtain d ds where "dec_of_pos (- i) = d # ds" "isdigit d"
    by (meson dec_of_pos_Cons neg_0_le_iff_le order_less_imp_le)
  with True show ?thesis by (simp add: dec_of_int_def)
next
  case False
  then obtain d ds where "dec_of_pos i = d # ds" "isdigit d" by (meson dec_of_pos_Cons not_less)
  with False show ?thesis by (simp add: dec_of_int_def)
qed

lemma dec_of_int_no_dot: "CHR ''.'' \<notin> set (dec_of_int i)"
proof -
  have "\<And>c. isdigit c \<Longrightarrow> c \<noteq> CHR ''.''" by (auto simp: ctype_defs)
  then have "\<And>n. 0 \<le> n \<Longrightarrow> CHR ''.'' \<notin> set (dec_of_pos n)"
    using dec_of_pos_digits by blast
  then show ?thesis by (auto simp: dec_of_int_def)
qed

lemma dec_of_int_not_quote: "deref (dec_of_int i @ rest) \<noteq> CHR 0x22"
  using dec_of_int_head [of i rest] by (auto simp: ctype_defs)

lemma parse_value_show:
  assumes ok: "literal_ok X op l rest" and b: "boundary rest"
  shows "parse_value X (new_expr f op) (show_literal l @ rest) = (expr_of f op l, rest)"
proof (cases l)
  case (LString t)
  with ok show ?thesis by (simp add: parse_value_def scan_quoted_plain)
next
  case (LInt i)
  let ?s = "dec_of_int (sint i) @ rest"
  have "CHR ''.'' \<notin> set ?s" using ok LInt dec_of_int_no_dot by simp
  moreover have "strtol ?s = Some (sint i, rest)"
    using sint_i32_range [of i] b by (intro strtol_dec_of_int boundary_not_digit) auto
  ultimately show ?thesis
    using LInt dec_of_int_head [of "sint i" rest] dec_of_int_not_quote [of "sint i" rest]
    by (simp add: parse_value_def)
next
  case (LBool v)
  then show ?thesis
    by (cases v) (simp_all add: parse_value_def starts_with_def ctype_defs new_expr_def)
next
  case (LRegex p)
  with ok obtain c cs where p: "p = c # cs" by (auto simp: regex_ok_def neq_Nil_conv)
  have nosp: "takeWhile (\<lambda>c. \<not> isspace c) (p @ rest) = p" "dropWhile (\<lambda>c. \<not> isspace c) (p @ rest) = rest"
    using takeWhile_append_boundary [of "\<lambda>c. \<not> isspace c" p rest] ok LRegex b
    by (auto simp: regex_ok_def boundary_def)
  have word: "\<not> starts_with ''true'' (p @ rest)" "\<not> starts_with ''false'' (p @ rest)"
    using ok LRegex b not_starts_with_append [of "''true''" p rest]
      not_starts_with_append [of "''false''" p rest]
    by (simp_all add: regex_ok_def boundary_def)
  have "hd p = c" using p by simp
  with ok LRegex p show ?thesis
    using word nosp by (auto simp: parse_value_def regex_ok_def Let_def new_expr_def)
qed

lemma show_literal_skip:
  assumes "literal_ok X op l rest"
  shows "skip_space (CHR '' '' # show_literal l @ r) = show_literal l @ r"
proof -
  have "show_literal l \<noteq> [] \<and> \<not> isspace (hd (show_literal l))"
  proof (cases l)
    case (LInt i)
    then show ?thesis
      using dec_of_int_head [of "sint i" "[]"] dec_of_pos_nonempty
      by (cases "dec_of_int (sint i)") (auto simp: ctype_defs dec_of_int_def split: if_splits)
  qed (use assms in \<open>auto simp: isspace_def regex_ok_def list_all_iff\<close>)
  then show ?thesis by (cases "show_literal l") simp_all
qed

lemma parse_comparison_show:
  assumes "operand_ok X (Cmp f op l) rest" and "boundary rest"
  shows "parse_comparison X (show_operand (Cmp f op l) @ rest) =
    Some (FILTER_NODE_EXPR (expr_of f op l), rest)"
proof -
  let ?t = "CHR '' '' # show_op op @ CHR '' '' # show_literal l @ rest"
  have "takeWhile field_char (f @ ?t) = f" "dropWhile field_char (f @ ?t) = ?t"
    using takeWhile_append_boundary [of field_char f ?t] assms(1) by (auto simp: field_ok_def)
  moreover have "f \<noteq> []" using assms(1) by (simp add: field_ok_def)
  ultimately show ?thesis
    using assms show_op_skip [of op "CHR '' '' # show_literal l @ rest"]
      show_literal_skip [of X op l rest rest] parse_operator_show [of op "show_literal l @ rest"]
      parse_value_show [of X op l rest f]
    by (simp add: parse_comparison_def Let_def)
qed

lemma field_ok_head:
  assumes "field_ok f"
  shows "\<exists>c cs. f = c # cs \<and> \<not> isspace c \<and> c \<noteq> CHR ''(''
    \<and> \<not> starts_with ''NOT'' (f @ CHR '' '' # r) \<and> \<not> starts_with ''not'' (f @ CHR '' '' # r)"
proof -
  from assms obtain c cs where f: "f = c # cs" by (auto simp: field_ok_def neq_Nil_conv)
  with assms have "field_char c" by (simp add: field_ok_def)
  then have "\<not> isspace c" "c \<noteq> CHR ''(''" by (auto simp: field_char_def ctype_defs)
  moreover have "\<not> starts_with ''NOT'' (f @ CHR '' '' # r)" "\<not> starts_with ''not'' (f @ CHR '' '' # r)"
    using assms not_starts_with_append [of "''NOT''" f "CHR '' '' # r"]
      not_starts_with_append [of "''not''" f "CHR '' '' # r"]
    by (simp_all add: field_ok_def)
  ultimately show ?thesis using f by auto
qed

lemma parse_filter_expr_show:
  assumes "operand_ok X x rest" and "boundary rest" and "w = [] \<or> w = '' ''"
  shows "parse_filter_expr X (w @ show_operand x @ rest) = Some (node_of x, rest)"
  using assms
proof (induction x arbitrary: rest w)
  case (Cmp f op l)
  let ?s = "show_operand (Cmp f op l) @ rest"
  obtain c cs where f: "f = c # cs" "\<not> isspace c" "c \<noteq> CHR ''(''"
    "\<not> starts_with ''NOT'' ?s" "\<not> starts_with ''not'' ?s"
    using field_ok_head [of f "show_op op @ CHR '' '' # show_literal l @ rest"] Cmp.prems(1) by auto
  then have "skip_space (w @ ?s) = ?s" "deref ?s \<noteq> CHR ''(''"
    using Cmp.prems(3) by auto
  then show ?case
    using parse_comparison_show [OF Cmp.prems(1,2)] f(4,5)
    by (subst parse_filter_expr.simps) (simp add: Let_def)
next
  case (Not x)
  have "parse_filter_expr X ('' '' @ show_operand x @ rest) = Some (node_of x, rest)"
    using Not.prems by (intro Not.IH) auto
  moreover have "skip_space (w @ ''NOT '' @ show_operand x @ rest) = ''NOT '' @ show_operand x @ rest"
    using Not.prems(3) by (auto simp: isspace_def)
  ultimately show ?case
    by (subst parse_filter_expr.simps) (simp add: Let_def starts_with_def)
next
  case (Paren x)
  have "parse_filter_expr X ([] @ show_operand x @ '' )'' @ rest) = Some (node_of x, '' )'' @ rest)"
    using Paren.prems by (intro Paren.IH) auto
  moreover have "skip_space (w @ ''('' @ show_operand x @ '' )'' @ rest) = ''('' @ show_operand x @ '' )'' @ rest"
    using Paren.prems(3) by (auto simp: isspace_def)
  ultimately show ?case
    by (subst parse_filter_expr.simps) (simp add: Let_def isspace_def)
qed

lemma parse_filter_rest_Nil [simp]: "parse_filter_rest X n [] = Some n"
  by (simp add: parse_filter_rest.simps)

lemma parse_filter_rest_show:
  assumes "operand_ok X x rest" and "boundary rest"
  shows "parse_filter_rest X n ('' AND '' @ show_operand x @ rest) =
      parse_filter_rest X (FILTER_NODE_AND n (node_of x)) rest"
    and "parse_filter_rest X n ('' OR '' @ show_operand x @ rest) =
      parse_filter_rest X (FILTER_NODE_OR n (node_of x)) rest"
  using parse_filter_expr_show [OF assms, of "'' ''"]
  by (subst parse_filter_rest.simps, simp add: Let_def starts_with_def isspace_def)+

lemma parse_chain_show:
  assumes "chain_ok X c rest" and "boundary rest"
  shows "\<exists>n r. parse_filter_expr X (show_chain c @ rest) = Some (n, r) \<and>
    parse_filter_rest X n r = parse_filter_rest X (node_of_chain c) rest"
  using assms
proof (induction c arbitrary: rest)
  case (One x)
  then show ?case using parse_filter_expr_show [of X x rest "[]"] by auto
next
  case (And c x)
  then have x: "operand_ok X x rest" and c: "chain_ok X c ('' AND '' @ show_operand x @ rest)" by auto
  have "boundary ('' AND '' @ show_operand x @ rest)" by simp
  from And.IH [OF c this] obtain n r
    where n: "parse_filter_expr X (show_chain c @ '' AND '' @ show_operand x @ rest) = Some (n, r)"
    and r: "parse_filter_rest X n r = parse_filter_rest X (node_of_chain c) ('' AND '' @ show_operand x @ rest)"
    by blast
  from r have "parse_filter_rest X n r = parse_filter_rest X (node_of_chain (And c x)) rest"
    by (simp only: parse_filter_rest_show(1) [OF x And.prems(2)] node_of_chain.simps)
  with n show ?case by auto
next
  case (Or c x)
  then have x: "operand_ok X x rest" and c: "chain_ok X c ('' OR '' @ show_operand x @ rest)" by auto
  have "boundary ('' OR '' @ show_operand x @ rest)" by simp
  from Or.IH [OF c this] obtain n r
    where n: "parse_filter_expr X (show_chain c @ '' OR '' @ show_operand x @ rest) = Some (n, r)"
    and r: "parse_filter_rest X n r = parse_filter_rest X (node_of_chain c) ('' OR '' @ show_operand x @ rest)"
    by blast
  from r have "parse_filter_rest X n r = parse_filter_rest X (node_of_chain (Or c x)) rest"
    by (simp only: parse_filter_rest_show(2) [OF x Or.prems(2)] node_of_chain.simps)
  with n show ?case by auto
qed

end
