(* ===== verification/Filter_Props.thy ===== *)
theory Filter_Props
  imports Filter_Syntax
begin

text \<open>
  Correctness of the filter engine: what the parser builds, what a filter means on an event
  and the filters that can match nothing, the defects of the surface syntax, and the soundness of
  the BPF extraction.
\<close>

section \<open>What the parser builds\<close>

text \<open>C1: the parser is correct for the filter language: the text of a chain of comparisons, negations
  and parenthesised operands, joined by AND and OR, parses to the left-associated tree of the chain,
  with the field, operator and typed literal of every comparison.\<close>

theorem nblex_filter_new_show:
  assumes "chain_ok X c []"
  shows "nblex_filter_new X (show_chain c) = Some \<lparr>root = Some (node_of_chain c)\<rparr>"
proof -
  obtain n r where "parse_filter_expr X (show_chain c @ []) = Some (n, r)"
    and "parse_filter_rest X n r = parse_filter_rest X (node_of_chain c) []"
    using parse_chain_show [OF assms] by auto
  then show ?thesis by (simp add: nblex_filter_new_def parse_filter_full_def)
qed

theorem nblex_filter_new_show_witness:
  "let c = Or (And (One (Cmp ''log.level'' FILTER_OP_EQ (LString ''ERROR'')))
             (Not (Paren (Cmp ''status'' FILTER_OP_LT (LInt 400)))))
           (Cmp ''path'' FILTER_OP_MATCH (LRegex ''^/api''));
       X = tree_ext (\<lambda>_. None) (\<lambda>_. None) (\<lambda>_. True) (\<lambda>_ _. 0) (\<lambda>_. 0)
   in chain_ok X c []
      \<and> show_chain c = ''log.level == '' @ [CHR 0x22] @ ''ERROR'' @ [CHR 0x22]
          @ '' AND NOT (status < 400 ) OR path =~ ^/api''
      \<and> nblex_filter_new X (show_chain c) = Some \<lparr>root = Some (node_of_chain c)\<rparr>"
proof -
  let ?c = "Or (And (One (Cmp ''log.level'' FILTER_OP_EQ (LString ''ERROR'')))
             (Not (Paren (Cmp ''status'' FILTER_OP_LT (LInt 400)))))
           (Cmp ''path'' FILTER_OP_MATCH (LRegex ''^/api''))"
  let ?X = "tree_ext (\<lambda>_. None) (\<lambda>_. None) (\<lambda>_. True) (\<lambda>_ _. 0) (\<lambda>_. 0)"
  have shown: "show_chain ?c = ''log.level == '' @ [CHR 0x22] @ ''ERROR'' @ [CHR 0x22]
      @ '' AND NOT (status < 400 ) OR path =~ ^/api''"
    by code_simp
  have "chain_ok ?X ?c []" by code_simp
  then show ?thesis
    using nblex_filter_new_show [of ?X ?c] shown unfolding Let_def by blast
qed

text \<open>Well-formed filters: the field is a non-empty name, a compiled pattern occurs with a regex
  operator only, and \<open>==\<close> and \<open>!=\<close> on a string have a string to compare with.\<close>

fun wf_node :: "filter_node \<Rightarrow> bool" where
  "wf_node (FILTER_NODE_AND l r) = (wf_node l \<and> wf_node r)"
| "wf_node (FILTER_NODE_OR l r) = (wf_node l \<and> wf_node r)"
| "wf_node (FILTER_NODE_NOT n) = wf_node n"
| "wf_node (FILTER_NODE_EXPR e) =
     (fe_field e \<noteq> [] \<and> list_all field_char (fe_field e)
      \<and> (regex_code e \<noteq> None \<longrightarrow> fe_op e \<in> {FILTER_OP_MATCH, FILTER_OP_NMATCH})
      \<and> (value_type e = JSON_STRING \<and> fe_op e \<notin> {FILTER_OP_MATCH, FILTER_OP_NMATCH} \<longrightarrow>
           string_val e \<noteq> None))"

lemma parse_value_wf:
  assumes "parse_value X (new_expr f op) pos = (e, r)" and "f \<noteq> []" and "list_all field_char f"
  shows "wf_node (FILTER_NODE_EXPR e)"
  using assms
  by (auto simp: parse_value_def new_expr_def Let_def split: if_splits prod.splits option.splits)

lemma parse_comparison_wf: "parse_comparison X pos = Some (n, r) \<Longrightarrow> wf_node n"
proof -
  assume "parse_comparison X pos = Some (n, r)"
  then obtain op pos1 e where ne: "takeWhile field_char pos \<noteq> []"
    and v: "parse_value X (new_expr (takeWhile field_char pos) op) (skip_space pos1) = (e, r)"
    and n: "n = FILTER_NODE_EXPR e"
    by (auto simp: parse_comparison_def Let_def split: if_splits option.splits prod.splits)
  have "list_all field_char (takeWhile field_char pos)"
    by (auto simp: list_all_iff dest: set_takeWhileD)
  with parse_value_wf [OF v ne] n show ?thesis by blast
qed

lemma parse_filter_expr_wf: "parse_filter_expr X s = Some (n, r) \<Longrightarrow> wf_node n"
proof (induction X s arbitrary: n r rule: parse_filter_expr.induct)
  case (1 X s)
  let ?p = "skip_space s"
  show ?case
  proof (cases "deref ?p = CHR ''(''")
    case True
    with "1.prems" obtain r' where "parse_filter_expr X (tl ?p) = Some (n, r')"
      by (auto simp: parse_filter_expr.simps [of X s] Let_def split: option.splits if_splits)
    then show ?thesis using "1.IH"(1) [OF refl True] by blast
  next
    case no_paren: False
    show ?thesis
    proof (cases "starts_with ''NOT'' ?p \<or> starts_with ''not'' ?p")
      case True
      with no_paren "1.prems" obtain n' where "parse_filter_expr X (drop 3 ?p) = Some (n', r)"
        and "n = FILTER_NODE_NOT n'"
        by (auto simp: parse_filter_expr.simps [of X s] Let_def split: option.splits if_splits)
      then show ?thesis using "1.IH"(2) [OF refl no_paren True] by simp
    next
      case False
      with no_paren "1.prems" have "parse_comparison X ?p = Some (n, r)"
        by (auto simp: parse_filter_expr.simps [of X s] Let_def)
      then show ?thesis by (rule parse_comparison_wf)
    qed
  qed
qed

lemma parse_filter_rest_wf: "parse_filter_rest X l s = Some n \<Longrightarrow> wf_node l \<Longrightarrow> wf_node n"
proof (induction X l s rule: parse_filter_rest.induct)
  case (1 X l s)
  let ?p = "skip_space s"
  consider "s = [] \<or> n = l"
    | m r where "s \<noteq> []" "starts_with ''AND'' ?p \<or> starts_with ''and'' ?p"
        "parse_filter_expr X (drop 3 ?p) = Some (m, r)"
        "parse_filter_rest X (FILTER_NODE_AND l m) r = Some n"
    | m r where "s \<noteq> []" "\<not> (starts_with ''AND'' ?p \<or> starts_with ''and'' ?p)"
        "starts_with ''OR'' ?p \<or> starts_with ''or'' ?p"
        "parse_filter_expr X (drop 2 ?p) = Some (m, r)"
        "parse_filter_rest X (FILTER_NODE_OR l m) r = Some n"
    using "1.prems"(1) unfolding parse_filter_rest.simps [of X l s]
    by (fastforce simp: Let_def split: if_splits option.splits)
  then show ?case
  proof cases
    case 1
    with "1.prems" show ?thesis by (auto simp: parse_filter_rest.simps)
  next
    case (2 m r)
    then have "wf_node m" by (blast intro: parse_filter_expr_wf)
    with 2 "1.prems"(2) "1.IH"(1) [OF 2(1) refl 2(2,3) refl 2(4)] show ?thesis by simp
  next
    case (3 m r)
    then have "wf_node m" by (blast intro: parse_filter_expr_wf)
    with 3 "1.prems"(2) "1.IH"(2) [OF 3(1) refl 3(2,3,4) refl 3(5)] show ?thesis by simp
  qed
qed

text \<open>whatever the text, a filter the parser returns has a root and is well-formed, so evaluating it
  never compares with a string that was not set (the \<open>strcmp\<close> of \<open>evaluate_filter_expr\<close>).\<close>

theorem nblex_filter_new_wf:
  assumes "nblex_filter_new X s = Some f"
  shows "\<exists>n. root f = Some n \<and> wf_node n"
proof -
  from assms obtain l r n where "parse_filter_expr X s = Some (l, r)"
    and "parse_filter_rest X l r = Some n" and "f = \<lparr>root = Some n\<rparr>"
    by (auto simp: nblex_filter_new_def parse_filter_full_def split: option.splits)
  then show ?thesis using parse_filter_expr_wf parse_filter_rest_wf by fastforce
qed

theorem nblex_filter_new_wf_witness:
  "let X = tree_ext (\<lambda>_. None) (\<lambda>_. None) (\<lambda>_. True) (\<lambda>_ _. 0) (\<lambda>_. 0)
   in \<exists>f. nblex_filter_new X ''a == x AND b != 2'' = Some f \<and> (\<exists>n. root f = Some n \<and> wf_node n)"
proof -
  let ?X = "tree_ext (\<lambda>_. None) (\<lambda>_. None) (\<lambda>_. True) (\<lambda>_ _. 0) (\<lambda>_. 0)"
  have "nblex_filter_new ?X ''a == x AND b != 2'' \<noteq> None" by code_simp
  then obtain f where "nblex_filter_new ?X ''a == x AND b != 2'' = Some f" by blast
  then show ?thesis using nblex_filter_new_wf by (auto simp: Let_def)
qed

section \<open>What a comparison means\<close>

lemma expr_of_simps [simp]:
  "fe_field (expr_of f op l) = f" "fe_op (expr_of f op l) = op"
  by (cases l; simp add: new_expr_def)+

text \<open>comparing an integer field with an integer literal is comparing the two numbers (so exactly one
  of \<open><\<close>, \<open>==\<close>, \<open>>\<close> holds, and \<open>!=\<close>, \<open>>=\<close>, \<open><=\<close> are their negations); on an event without the field
  none of the six holds, \<open>!=\<close> included.\<close>

theorem integer_comparison:
  assumes "op \<in> {FILTER_OP_EQ, FILTER_OP_NE, FILTER_OP_LT, FILTER_OP_LE, FILTER_OP_GT, FILTER_OP_GE}"
    and "json_typeof X ev = JSON_OBJECT"
    and "\<And>v. json_object_get X ev f = Some v \<Longrightarrow> json_typeof X v = JSON_INTEGER"
  shows "evaluate_filter_expr X (expr_of f op (LInt i)) ev =
    (\<exists>v. json_object_get X ev f = Some v \<and>
       (let a = sint (json_integer_value X v); b = sint i in
        (a < b \<and> op \<in> {FILTER_OP_NE, FILTER_OP_LT, FILTER_OP_LE})
        \<or> (a = b \<and> op \<in> {FILTER_OP_EQ, FILTER_OP_LE, FILTER_OP_GE})
        \<or> (b < a \<and> op \<in> {FILTER_OP_NE, FILTER_OP_GT, FILTER_OP_GE})))"
proof (cases "json_object_get X ev f")
  case None
  with assms show ?thesis by (simp add: evaluate_filter_expr_def)
next
  case (Some v)
  with assms(3) have "json_typeof X v = JSON_INTEGER" by blast
  with Some assms(1,2) show ?thesis
    by (auto simp: evaluate_filter_expr_def field_equal_def field_compare_def new_expr_def Let_def)
qed

theorem integer_comparison_witness:
  "let X = tree_ext (\<lambda>_. None) (\<lambda>_. None) (\<lambda>_. True) (\<lambda>_ _. 0) (\<lambda>_. 0);
       ev = JObj [(''status'', JInt 503)]
   in evaluate_filter_expr X (expr_of ''status'' FILTER_OP_GE (LInt 500)) ev
      \<and> \<not> evaluate_filter_expr X (expr_of ''other'' FILTER_OP_NE (LInt 500)) ev"
  unfolding Let_def
  using integer_comparison [of FILTER_OP_GE "tree_ext (\<lambda>_. None) (\<lambda>_. None) (\<lambda>_. True) (\<lambda>_ _. 0) (\<lambda>_. 0)"
      "JObj [(''status'', JInt 503)]" "''status''" 500]
    integer_comparison [of FILTER_OP_NE "tree_ext (\<lambda>_. None) (\<lambda>_. None) (\<lambda>_. True) (\<lambda>_ _. 0) (\<lambda>_. 0)"
      "JObj [(''status'', JInt 503)]" "''other''" 500]
  by (simp add: Let_def)

section \<open>Filters that cannot match\<close>

text \<open>the documented operators \<open>in\<close> and \<open>contains\<close>, and the regex operators with a quoted pattern,
  parse but match no event: the first two have no case in the evaluation, and a quoted pattern is
  stored as a string and never compiled.\<close>

theorem dead_operators:
  assumes "operand_ok X (Cmp f op l) []"
    and "op = FILTER_OP_IN \<or> op = FILTER_OP_CONTAINS \<or>
      ((op = FILTER_OP_MATCH \<or> op = FILTER_OP_NMATCH) \<and> l = LString t)"
  shows "\<exists>fl. nblex_filter_new X (show_operand (Cmp f op l)) = Some fl \<and> (\<forall>ev. \<not> evaluate_filter_root X fl ev)"
proof (intro exI conjI allI)
  show "nblex_filter_new X (show_operand (Cmp f op l)) = Some \<lparr>root = Some (FILTER_NODE_EXPR (expr_of f op l))\<rparr>"
    using parse_chain_show [of X "One (Cmp f op l)" "[]"] assms(1)
    by (auto simp: nblex_filter_new_def parse_filter_full_def)
  fix ev
  have "regex_code (expr_of f op (LString t)) = None" by (simp add: new_expr_def)
  with assms(2) show "\<not> evaluate_filter_root X \<lparr>root = Some (FILTER_NODE_EXPR (expr_of f op l))\<rparr> ev"
    by (auto simp: evaluate_filter_root_def evaluate_filter_expr_def split: option.splits)
qed

theorem dead_operators_witness:
  "let X = tree_ext (\<lambda>_. None) (\<lambda>_. None) (\<lambda>_. True) (\<lambda>_ _. 0) (\<lambda>_. 0)
   in \<exists>fl. nblex_filter_new X (show_operand (Cmp ''msg'' FILTER_OP_MATCH (LString ''timeout''))) = Some fl
        \<and> (\<forall>ev. \<not> evaluate_filter_root X fl ev)"
proof -
  let ?X = "tree_ext (\<lambda>_. None) (\<lambda>_. None) (\<lambda>_. True) (\<lambda>_ _. 0) (\<lambda>_. 0)"
  have "operand_ok ?X (Cmp ''msg'' FILTER_OP_MATCH (LString ''timeout'')) []" by code_simp
  then show ?thesis
    unfolding Let_def by (rule dead_operators [where t = "''timeout''"]) simp
qed

section \<open>Defects of the surface syntax\<close>

text \<open>a parenthesised disjunction does not group: the closing parenthesis ends the whole parse, and
  any text after it, such as a further \<open>AND\<close> condition, is silently ignored.\<close>

theorem group_drops_tail:
  assumes "operand_ok X a ('' OR '' @ show_operand b @ '' )'' @ tail)"
    and "operand_ok X b ('' )'' @ tail)"
  shows "nblex_filter_new X (''('' @ show_operand a @ '' OR '' @ show_operand b @ '' )'' @ tail) =
    Some \<lparr>root = Some (FILTER_NODE_OR (node_of a) (node_of b))\<rparr>"
proof -
  let ?t1 = "'' OR '' @ show_operand b @ '' )'' @ tail" and ?t2 = "'' )'' @ tail"
  have "parse_filter_expr X ([] @ show_operand a @ ?t1) = Some (node_of a, ?t1)"
    using assms(1) by (intro parse_filter_expr_show) auto
  then have "parse_filter_expr X (''('' @ show_operand a @ ?t1) = Some (node_of a, tl ?t1)"
    by (subst parse_filter_expr.simps) (simp add: Let_def isspace_def)
  moreover have "parse_filter_rest X (node_of a) (tl ?t1) =
      parse_filter_rest X (FILTER_NODE_OR (node_of a) (node_of b)) ?t2"
    using parse_filter_expr_show [OF assms(2), of "'' ''"]
    by (subst parse_filter_rest.simps) (simp add: Let_def starts_with_def isspace_def)
  moreover have "parse_filter_rest X n ?t2 = Some n" for n
    by (subst parse_filter_rest.simps) (simp add: Let_def starts_with_def isspace_def)
  ultimately show ?thesis
    by (simp add: nblex_filter_new_def parse_filter_full_def)
qed

theorem group_drops_tail_witness:
  "let X = tree_ext (\<lambda>_. None) (\<lambda>_. None) (\<lambda>_. True) (\<lambda>_ _. 0) (\<lambda>_. 0)
   in nblex_filter_new X ''(a == 1 OR b == 2 ) AND c == 3'' =
        Some \<lparr>root = Some (FILTER_NODE_OR (node_of (Cmp ''a'' FILTER_OP_EQ (LInt 1)))
                                         (node_of (Cmp ''b'' FILTER_OP_EQ (LInt 2))))\<rparr>"
proof -
  let ?X = "tree_ext (\<lambda>_. None) (\<lambda>_. None) (\<lambda>_. True) (\<lambda>_ _. 0) (\<lambda>_. 0)"
  let ?a = "Cmp ''a'' FILTER_OP_EQ (LInt 1)" and ?b = "Cmp ''b'' FILTER_OP_EQ (LInt 2)"
  have a: "operand_ok ?X ?a ('' OR '' @ show_operand ?b @ '' )'' @ '' AND c == 3'')" by code_simp
  have b: "operand_ok ?X ?b ('' )'' @ '' AND c == 3'')" by code_simp
  have t: "''('' @ show_operand ?a @ '' OR '' @ show_operand ?b @ '' )'' @ '' AND c == 3''
      = ''(a == 1 OR b == 2 ) AND c == 3''" by code_simp
  show ?thesis using group_drops_tail [OF a b] unfolding Let_def t .
qed

lemma strtod_no_None:
  assumes "isdigit (deref p)"
  shows "strtod p \<noteq> None"
proof -
  obtain c s where p: "p = c # s" "isdigit c"
    using assms by (cases p) (auto simp: ctype_defs)
  then have "split_sign (skip_space p) = (False, p)"
    by (auto simp: split_sign_def ctype_defs)
  moreover have "strtod_decimal b p \<noteq> None" for b
    using p by (auto simp: strtod_decimal_def digit_blocks_def Let_def split: list.splits prod.splits)
  ultimately show ?thesis by (auto simp: strtod_def split: option.splits)
qed

text \<open>an integer literal is read as a floating-point number when a dot occurs anywhere later in the
  expression (the parser searches the whole rest for one), and then equality with an integer field
  never holds: \<open>status == 500 AND log.level == ...\<close> cannot match, although the same conditions in the
  other order can.\<close>

theorem dotted_literal_is_real:
  assumes "field_ok f" and "0 \<le> n" and "CHR ''.'' \<in> set rest"
  shows "\<exists>e r. parse_comparison X (f @ '' == '' @ dec_of_pos n @ rest) = Some (FILTER_NODE_EXPR e, r)
    \<and> fe_field e = f \<and> value_type e = JSON_REAL
    \<and> (\<forall>ev v. json_object_get X ev f = Some v \<and> json_typeof X v = JSON_INTEGER \<longrightarrow>
         \<not> evaluate_filter_expr X e ev)"
proof -
  obtain d ds where d: "dec_of_pos n = d # ds" "isdigit d" using dec_of_pos_Cons [OF assms(2)] by metis
  let ?s = "dec_of_pos n @ rest" and ?t = "CHR '' '' # CHR ''='' # CHR ''='' # CHR '' '' # dec_of_pos n @ rest"
  have tw: "takeWhile field_char (f @ ?t) = f" "dropWhile field_char (f @ ?t) = ?t"
    using takeWhile_append_boundary [of field_char f ?t] assms(1) by (auto simp: field_ok_def)
  have dg: "isdigit (deref ?s)" "deref ?s \<noteq> CHR 0x22" "skip_space (CHR '' '' # ?s) = ?s"
    using d by (auto simp: ctype_defs)
  obtain v r where v: "strtod ?s = Some (v, r)" using strtod_no_None [OF dg(1)] by fastforce
  let ?e = "(new_expr f FILTER_OP_EQ)\<lparr>value_type := JSON_REAL, float_val := v\<rparr>"
  have "parse_value X (new_expr f FILTER_OP_EQ) ?s = (?e, r)"
    using dg v assms(3) by (simp add: parse_value_def)
  moreover have "parse_operator (skip_space ?t) = Some (FILTER_OP_EQ, CHR '' '' # ?s)"
    by (simp add: parse_operator_def starts_with_def isspace_def)
  ultimately have "parse_comparison X (f @ ?t) = Some (FILTER_NODE_EXPR ?e, r)"
    using tw dg(3) assms(1) by (simp add: parse_comparison_def Let_def field_ok_def)
  moreover have "\<not> evaluate_filter_expr X ?e ev"
    if "json_object_get X ev f = Some v'" "json_typeof X v' = JSON_INTEGER" for ev v'
    using that by (simp add: evaluate_filter_expr_def field_equal_def new_expr_def)
  ultimately show ?thesis by (auto simp: new_expr_def)
qed

theorem dotted_literal_is_real_witness:
  "let X = tree_ext (\<lambda>_. None) (\<lambda>_. None) (\<lambda>_. True) (\<lambda>_ _. 0) (\<lambda>_. 0)
   in \<exists>e r. parse_comparison X (''status'' @ '' == '' @ dec_of_pos 500 @ '' AND log.ok == true'') =
          Some (FILTER_NODE_EXPR e, r)
        \<and> \<not> evaluate_filter_expr X e (JObj [(''status'', JInt 500), (''log.ok'', JTrue)])"
proof -
  let ?X = "tree_ext (\<lambda>_. None) (\<lambda>_. None) (\<lambda>_. True) (\<lambda>_ _. 0) (\<lambda>_. 0)"
  have f: "field_ok ''status''" by code_simp
  obtain e r where er: "parse_comparison ?X (''status'' @ '' == '' @ dec_of_pos 500 @ '' AND log.ok == true'') =
        Some (FILTER_NODE_EXPR e, r)"
    and no: "\<forall>ev v. json_object_get ?X ev ''status'' = Some v \<and> json_typeof ?X v = JSON_INTEGER \<longrightarrow>
        \<not> evaluate_filter_expr ?X e ev"
    using dotted_literal_is_real [OF f, of 500 "'' AND log.ok == true''" ?X] by auto
  have "json_object_get ?X (JObj [(''status'', JInt 500), (''log.ok'', JTrue)]) ''status'' = Some (JInt 500)
      \<and> json_typeof ?X (JInt 500) = JSON_INTEGER" by simp
  then have "\<not> evaluate_filter_expr ?X e (JObj [(''status'', JInt 500), (''log.ok'', JTrue)])"
    using no by blast
  with er show ?thesis unfolding Let_def by blast
qed

section \<open>BPF extraction\<close>

fun join_and :: "string list \<Rightarrow> string" where
  "join_and [] = []"
| "join_and [t] = t"
| "join_and (t # ts) = t @ '' and '' @ join_and ts"

lemma join_and_snoc: "ts \<noteq> [] \<Longrightarrow> join_and (ts @ [t]) = join_and ts @ '' and '' @ t"
  by (induction ts rule: join_and.induct) auto

lemma snprintf_append_short:
  assumes "length (buf @ snprintf (1024 - length buf) t) < 1023"
  shows "buf @ snprintf (1024 - length buf) t = buf @ t"
  using assms by (auto simp: snprintf_def)

text \<open>The buffer only grows, and the flag says whether it has content.\<close>

lemma bpf_length_mono:
  "extract_bpf_recursive n st = Ok st' \<Longrightarrow> (snd st \<or> fst st = []) \<Longrightarrow>
   (snd st' \<or> fst st' = []) \<and> length (fst st) \<le> length (fst st')"
proof (induction n arbitrary: st st')
  case (FILTER_NODE_AND l r)
  then obtain mid where "extract_bpf_recursive l st = Ok mid" "extract_bpf_recursive r mid = Ok st'"
    by (auto simp: outcome_simps)
  with FILTER_NODE_AND.IH FILTER_NODE_AND.prems(2) show ?case by (meson order.trans)
next
  case (FILTER_NODE_EXPR e)
  then show ?case
    by (cases st) (auto simp: outcome_simps split: option.splits if_splits)
qed auto

lemma extract_bpf_sound:
  assumes "extract_bpf_recursive n (join_and ts, ts \<noteq> []) = Ok (b, c)" and "length b < 1023"
  shows "\<exists>es' ts'. b = join_and (ts @ ts') \<and> c = (ts @ ts' \<noteq> [])
    \<and> list_all2 (\<lambda>e t. extract_bpf_from_expr e = Ok (Some t)) es' ts'
    \<and> (\<forall>ev. evaluate_filter_node X n ev \<longrightarrow> list_all (\<lambda>e. evaluate_filter_expr X e ev) es')"
  using assms
proof (induction n arbitrary: ts b c)
  case (FILTER_NODE_AND l r)
  then obtain mb mc where l: "extract_bpf_recursive l (join_and ts, ts \<noteq> []) = Ok (mb, mc)"
    and r: "extract_bpf_recursive r (mb, mc) = Ok (b, c)"
    by (auto simp: outcome_simps)
  have "mc \<or> mb = []" using bpf_length_mono [OF l] by (cases ts) auto
  then have "length mb < 1023" using bpf_length_mono [OF r] FILTER_NODE_AND.prems(2) by simp
  from FILTER_NODE_AND.IH(1) [OF l this] obtain es1 ts1
    where mb: "mb = join_and (ts @ ts1)" and mc: "mc = (ts @ ts1 \<noteq> [])"
      and 1: "list_all2 (\<lambda>e t. extract_bpf_from_expr e = Ok (Some t)) es1 ts1"
        "\<forall>ev. evaluate_filter_node X l ev \<longrightarrow> list_all (\<lambda>e. evaluate_filter_expr X e ev) es1"
    by blast
  from r have "extract_bpf_recursive r (join_and (ts @ ts1), ts @ ts1 \<noteq> []) = Ok (b, c)"
    unfolding mb mc .
  from FILTER_NODE_AND.IH(2) [OF this FILTER_NODE_AND.prems(2)] obtain es2 ts2
    where "b = join_and ((ts @ ts1) @ ts2)" and "c = ((ts @ ts1) @ ts2 \<noteq> [])"
      and "list_all2 (\<lambda>e t. extract_bpf_from_expr e = Ok (Some t)) es2 ts2"
        "\<forall>ev. evaluate_filter_node X r ev \<longrightarrow> list_all (\<lambda>e. evaluate_filter_expr X e ev) es2"
    by blast
  with 1 show ?case
    by (intro exI [of _ "es1 @ es2"] exI [of _ "ts1 @ ts2"]) (auto simp: list_all2_appendI)
next
  case (FILTER_NODE_EXPR e)
  from FILTER_NODE_EXPR.prems(1) obtain t where t: "extract_bpf_from_expr e = Ok t"
    by (auto simp: outcome_simps)
  show ?case
  proof (cases t)
    case None
    with t FILTER_NODE_EXPR.prems(1) show ?thesis
      by (intro exI [of _ "[]"]) auto
  next
    case (Some u)
    have "b = join_and (ts @ [u]) \<and> c"
    proof (cases "ts = []")
      case True
      with t Some FILTER_NODE_EXPR.prems(1) have "b = [] @ snprintf (1024 - length ([] :: string)) u" and c
        by auto
      with snprintf_append_short [of "[]" u] FILTER_NODE_EXPR.prems(2) True show ?thesis by simp
    next
      case False
      with t Some FILTER_NODE_EXPR.prems(1)
      have b: "b = join_and ts @ snprintf (1024 - length (join_and ts)) ('' and '' @ u)" and c
        by auto
      with FILTER_NODE_EXPR.prems(2) have "b = join_and ts @ '' and '' @ u"
        using snprintf_append_short [of "join_and ts" "'' and '' @ u"] by (simp only:)
      with \<open>c\<close> show ?thesis unfolding join_and_snoc [OF False] by blast
    qed
    with t Some show ?thesis
      by (intro exI [of _ "[e]"] exI [of _ "[u]"]) auto
  qed
qed (auto intro!: exI [of _ "[]"])

text \<open>C13: the BPF program extracted from a filter is a conjunction of terms, each the translation of one
  comparison that every event accepted by the filter satisfies. So, as long as the 1024 byte buffer is
  not full, the capture never drops a packet whose event the filter would accept.\<close>

theorem nblex_filter_to_bpf_sound:
  assumes "nblex_filter_to_bpf f = Ok (Some b)" and "length b < 1023"
  shows "\<exists>es ts. b = join_and ts \<and> ts \<noteq> []
    \<and> list_all2 (\<lambda>e t. extract_bpf_from_expr e = Ok (Some t)) es ts
    \<and> (\<forall>ev. evaluate_filter_root X f ev \<longrightarrow> list_all (\<lambda>e. evaluate_filter_expr X e ev) es)"
proof -
  from assms(1) obtain n where n: "root f = Some n" and "extract_bpf_recursive n ([], False) = Ok (b, True)"
    by (auto simp: nblex_filter_to_bpf_def outcome_simps split: option.splits if_splits)
  then have "extract_bpf_recursive n (join_and [], [] \<noteq> ([] :: string list)) = Ok (b, True)" by simp
  from extract_bpf_sound [OF this assms(2), of X] n show ?thesis
    by (auto simp: evaluate_filter_root_def)
qed

theorem nblex_filter_to_bpf_sound_witness:
  "let X = tree_ext (\<lambda>_. None) (\<lambda>_. None) (\<lambda>_. True) (\<lambda>_ _. 0) (\<lambda>_. 0);
       f = \<lparr>root = Some (node_of_chain (And (One (Cmp ''network.dst_port'' FILTER_OP_EQ (LInt 53)))
                                        (Cmp ''network.protocol'' FILTER_OP_EQ (LString ''udp''))))\<rparr>;
       b = ''dst port 53 and udp''
   in nblex_filter_to_bpf f = Ok (Some b) \<and>
      (\<exists>es ts. b = join_and ts \<and> ts \<noteq> []
        \<and> list_all2 (\<lambda>e t. extract_bpf_from_expr e = Ok (Some t)) es ts
        \<and> (\<forall>ev. evaluate_filter_root X f ev \<longrightarrow> list_all (\<lambda>e. evaluate_filter_expr X e ev) es))"
proof -
  let ?f = "\<lparr>root = Some (node_of_chain (And (One (Cmp ''network.dst_port'' FILTER_OP_EQ (LInt 53)))
                                        (Cmp ''network.protocol'' FILTER_OP_EQ (LString ''udp''))))\<rparr>"
  let ?b = "''dst port 53 and udp''"
  have f: "nblex_filter_to_bpf ?f = Ok (Some ?b)" by code_simp
  have l: "length ?b < 1023" by simp
  show ?thesis unfolding Let_def using f nblex_filter_to_bpf_sound [OF f l] by blast
qed

end
