(* ===== verification/Nql_Parser.thy ===== *)
theory Nql_Parser
  imports Filter_Engine
begin

text \<open>
  The nQL parser (\<open>src/parsers/nql_parser.c\<close> and its header).

  The parser state is the C struct: the input, the position (an index, as a C pointer into the input)
  and the error message, set by the first error only. A parsing function takes the state to its
  result, \<open>None\<close> for NULL or a failure code, and the new state; \<open>bindP\<close> is the early return on failure
  that follows every call. Allocation failure is not modelled.

  The lemmas in \<open>parser_mono\<close> say that every function keeps the input and moves the position forward;
  they give the termination of the loops over lists and pipeline stages.
\<close>

section \<open>Data\<close>

datatype nql_agg_func_type =
  NQL_AGG_COUNT | NQL_AGG_SUM | NQL_AGG_AVG | NQL_AGG_MIN | NQL_AGG_MAX | NQL_AGG_PERCENTILE | NQL_AGG_DISTINCT

datatype nql_window_type =
  NQL_WINDOW_NONE | NQL_WINDOW_TUMBLING | NQL_WINDOW_SLIDING | NQL_WINDOW_SESSION

record nql_agg_func =
  af_type :: nql_agg_func_type
  af_field :: "string option"
  af_percentile :: f64

record nql_window =
  w_type :: nql_window_type
  size_ms :: u64
  slide_ms :: u64
  timeout_ms :: u64

record nql_aggregate =
  funcs :: "nql_agg_func list"
  group_by_fields :: "string list"
  agg_where :: "filter_t option"
  agg_window :: nql_window

record nql_correlate =
  left_filter :: "filter_t option"
  right_filter :: "filter_t option"
  within_ms :: u64

record nql_show =
  show_fields :: "string list"
  select_all :: bool
  show_where :: "filter_t option"

datatype nql_query =
  NQL_QUERY_FILTER filter_t
| NQL_QUERY_CORRELATE nql_correlate
| NQL_QUERY_AGGREGATE nql_aggregate
| NQL_QUERY_SHOW nql_show
| NQL_QUERY_PIPELINE "nql_query list"

record nql_parser =
  p_input :: string
  p_pos :: nat
  p_error :: "string option"

section \<open>Lexical level\<close>

text \<open>The text from the position on, and the pointer increment.\<close>

definition here :: "nql_parser \<Rightarrow> string" where
  "here p = drop (p_pos p) (p_input p)"

definition advance :: "nat \<Rightarrow> nql_parser \<Rightarrow> nql_parser" where
  "advance n p = p\<lparr>p_pos := p_pos p + n\<rparr>"

definition parser_set_error :: "nql_parser \<Rightarrow> string \<Rightarrow> nql_parser" where
  "parser_set_error p msg = (case p_error p of
      Some _ \<Rightarrow> p
    | None \<Rightarrow> p\<lparr>p_error := Some (take 255 msg)\<rparr>)"

definition skip_whitespace :: "nql_parser \<Rightarrow> nql_parser" where
  "skip_whitespace p = advance (length (takeWhile isspace (here p))) p"

definition consume_char :: "char \<Rightarrow> nql_parser \<Rightarrow> bool \<times> nql_parser" where
  "consume_char c p =
     (let p1 = skip_whitespace p in
      if deref (here p1) = c then (True, advance 1 p1) else (False, p1))"

text \<open>What may follow a keyword.\<close>

definition keyword_end :: "char \<Rightarrow> bool" where
  "keyword_end c \<longleftrightarrow> c = NUL \<or> isspace c \<or> c = CHR ''('' \<or> c = CHR '')'' \<or> c = CHR '',''"

definition match_keyword :: "string \<Rightarrow> nql_parser \<Rightarrow> bool \<times> nql_parser" where
  "match_keyword kw p =
     (let p1 = skip_whitespace p; s = here p1 in
      if starts_with_nocase kw s \<and> keyword_end (deref (drop (length kw) s))
      then (True, advance (length kw) p1) else (False, p1))"

text \<open>\<open>prev\<close> is the character before the position, the terminator at the start of the input.\<close>

definition keyword_at_position :: "char \<Rightarrow> string \<Rightarrow> string \<Rightarrow> bool" where
  "keyword_at_position prev s kw \<longleftrightarrow>
     starts_with_nocase kw s
     \<and> (prev = NUL \<or> isspace prev \<or> prev = CHR ''('' \<or> prev = CHR '','')
     \<and> keyword_end (deref (drop (length kw) s))"

definition ident_start :: "char \<Rightarrow> bool" where
  "ident_start c \<longleftrightarrow> isalpha c \<or> c = CHR ''_''"

definition ident_char :: "char \<Rightarrow> bool" where
  "ident_char c \<longleftrightarrow> isalnum c \<or> c = CHR ''_'' \<or> c = CHR ''.''"

definition parse_identifier :: "nql_parser \<Rightarrow> string option \<times> nql_parser" where
  "parse_identifier p =
     (let p1 = skip_whitespace p; s = here p1; ident = takeWhile ident_char s in
      if \<not> ident_start (deref s) then (None, p1)
      else (Some ident, advance (length ident) p1))"

text \<open>\<open>parse_duration\<close>: milliseconds, 0 after an error; the product wraps at 64 bits.\<close>

definition parse_duration :: "nql_parser \<Rightarrow> u64 \<times> nql_parser" where
  "parse_duration p =
     (let p1 = skip_whitespace p in
      case strtoull (here p1) of
        None \<Rightarrow> (0, parser_set_error p1 ''expected duration value'')
      | Some (v, r) \<Rightarrow>
          (let p2 = skip_whitespace (advance (length (here p1) - length r) p1); s = here p2 in
           if deref s = CHR ''m'' \<and> deref (tl s) = CHR ''s'' then (v * 1, advance 2 p2)
           else if deref s = CHR ''s'' then (v * 1000, advance 1 p2)
           else if deref s = CHR ''m'' then (v * (60 * 1000), advance 1 p2)
           else if deref s = CHR ''h'' then (v * (60 * 60 * 1000), advance 1 p2)
           else (0, parser_set_error p2 ''expected duration unit (ms, s, m, h)'')))"

section \<open>Filter text\<close>

text \<open>How many characters the scan of a filter expression takes: up to the end, to a \<open>|\<close> outside
  quotes and parentheses (with \<open>stop_on_pipe\<close>), or to one of the keywords outside of them. An
  unbalanced closing parenthesis does not count; a backslash in quotes hides the next character.\<close>

fun scan_filter :: "string list \<Rightarrow> bool \<Rightarrow> char \<Rightarrow> nat \<Rightarrow> bool \<Rightarrow> bool \<Rightarrow> string \<Rightarrow> nat" where
  "scan_filter kws stop prev depth in_single in_double [] = 0"
| "scan_filter kws stop prev depth in_single in_double (ch # s) =
     (if in_single then
        (if ch = CHR 0x5C \<and> s \<noteq> [] then 2 + scan_filter kws stop (hd s) depth True in_double (tl s)
         else Suc (scan_filter kws stop ch depth (ch \<noteq> CHR 0x27) in_double s))
      else if in_double then
        (if ch = CHR 0x5C \<and> s \<noteq> [] then 2 + scan_filter kws stop (hd s) depth in_single True (tl s)
         else Suc (scan_filter kws stop ch depth in_single (ch \<noteq> CHR 0x22) s))
      else if ch = CHR 0x27 then Suc (scan_filter kws stop ch depth True in_double s)
      else if ch = CHR 0x22 then Suc (scan_filter kws stop ch depth in_single True s)
      else if ch = CHR ''('' then Suc (scan_filter kws stop ch (depth + 1) in_single in_double s)
      else if ch = CHR '')'' then Suc (scan_filter kws stop ch (depth - 1) in_single in_double s)
      else if stop \<and> ch = CHR ''|'' \<and> depth = 0 then 0
      else if depth = 0 \<and> list_ex (keyword_at_position prev (ch # s)) kws then 0
      else Suc (scan_filter kws stop ch depth in_single in_double s))"

text \<open>The expression without its trailing white space (\<open>while (end > start && isspace(end[-1]))\<close>).\<close>

definition rtrim :: "string \<Rightarrow> string" where
  "rtrim s = rev (dropWhile isspace (rev s))"

definition prev_char :: "nql_parser \<Rightarrow> char" where
  "prev_char p = (if p_pos p = 0 then NUL else deref (drop (p_pos p - 1) (p_input p)))"

definition parse_filter_text ::
  "'j ext \<Rightarrow> string list \<Rightarrow> bool \<Rightarrow> nql_parser \<Rightarrow> filter_t option \<times> nql_parser" where
  "parse_filter_text X kws stop_on_pipe p =
     (let p1 = skip_whitespace p;
          n = scan_filter kws stop_on_pipe (prev_char p1) 0 False False (here p1);
          text = rtrim (take n (here p1)) in
      if text = [] then (None, parser_set_error p1 ''expected filter expression'')
      else (case nblex_filter_new X text of
          None \<Rightarrow> (None, parser_set_error p1 ''invalid filter expression'')
        | Some f \<Rightarrow> (Some f, advance n p1)))"

section \<open>Early return\<close>

definition bindP ::
  "'a option \<times> nql_parser \<Rightarrow> ('a \<Rightarrow> nql_parser \<Rightarrow> 'b option \<times> nql_parser) \<Rightarrow> 'b option \<times> nql_parser" where
  "bindP m f = (case m of (None, p) \<Rightarrow> (None, p) | (Some x, p) \<Rightarrow> f x p)"

text \<open>\<open>if (!x) { parser_set_error(msg); return NULL; }\<close> after a call that may or may not have set an
  error, after a character test, after a keyword test, and after a duration.\<close>

definition or_error :: "string \<Rightarrow> 'a option \<times> nql_parser \<Rightarrow> 'a option \<times> nql_parser" where
  "or_error msg m = (case m of (None, p) \<Rightarrow> (None, parser_set_error p msg) | (Some x, p) \<Rightarrow> (Some x, p))"

definition expect :: "string \<Rightarrow> bool \<times> nql_parser \<Rightarrow> unit option \<times> nql_parser" where
  "expect msg m = (case m of (b, p) \<Rightarrow> if b then (Some (), p) else (None, parser_set_error p msg))"

definition no_error :: "'a \<times> nql_parser \<Rightarrow> 'a option \<times> nql_parser" where
  "no_error m = (case m of (x, p) \<Rightarrow> if p_error p = None then (Some x, p) else (None, p))"

text \<open>A character between single quotes, as the messages show it.\<close>

definition quoted :: "char \<Rightarrow> string" where
  "quoted c = [CHR 0x27, c, CHR 0x27]"

definition quoted_word :: "string \<Rightarrow> string" where
  "quoted_word s = CHR 0x27 # s @ [CHR 0x27]"

section \<open>Aggregation functions\<close>

definition new_func :: "nql_agg_func_type \<Rightarrow> string option \<Rightarrow> f64 \<Rightarrow> nql_agg_func" where
  "new_func t f x = \<lparr>af_type = t, af_field = f, af_percentile = x\<rparr>"

definition field_func_type :: "string \<Rightarrow> nql_agg_func_type option" where
  "field_func_type name =
     (if name = ''sum'' then Some NQL_AGG_SUM
      else if name = ''avg'' then Some NQL_AGG_AVG
      else if name = ''min'' then Some NQL_AGG_MIN
      else if name = ''max'' then Some NQL_AGG_MAX
      else if name = ''distinct'' then Some NQL_AGG_DISTINCT
      else None)"

text \<open>What follows the opening parenthesis, for a name in lower case; then the whole call.\<close>

definition parse_agg_arguments :: "string \<Rightarrow> nql_parser \<Rightarrow> nql_agg_func option \<times> nql_parser" where
  "parse_agg_arguments func_name p =
     (if func_name = ''count'' then
        bindP (expect (''expected '' @ quoted (CHR '')'') @ '' after count()'') (consume_char (CHR '')'') (skip_whitespace p))) (\<lambda>_ p1.
          (Some (new_func NQL_AGG_COUNT None f64_zero), p1))
      else if func_name = ''percentile'' then
        bindP (or_error ''expected field name in percentile()'' (parse_identifier p)) (\<lambda>field p1.
        bindP (expect (''expected '' @ quoted (CHR '','') @ '' in percentile()'') (consume_char (CHR '','') p1)) (\<lambda>_ p2.
          let p3 = skip_whitespace p2 in
          case strtod (here p3) of
            None \<Rightarrow> (None, parser_set_error p3 ''expected percentile value'')
          | Some (x, r) \<Rightarrow>
              bindP (expect (''expected '' @ quoted (CHR '')'') @ '' after percentile()'')
                (consume_char (CHR '')'') (skip_whitespace (advance (length (here p3) - length r) p3)))) (\<lambda>_ p4.
                  (Some (new_func NQL_AGG_PERCENTILE (Some field) x), p4))))
      else
        (case field_func_type func_name of
           None \<Rightarrow> (None, parser_set_error p (''unknown aggregation function '' @ quoted_word func_name))
         | Some t \<Rightarrow>
             bindP (or_error ''expected field name for aggregation'' (parse_identifier p)) (\<lambda>field p1.
             bindP (expect (''expected '' @ quoted (CHR '')'') @ '' after aggregation'') (consume_char (CHR '')'') (skip_whitespace p1))) (\<lambda>_ p2.
               (Some (new_func t (Some field) f64_zero), p2)))))"

definition parse_agg_function :: "nql_parser \<Rightarrow> nql_agg_func option \<times> nql_parser" where
  "parse_agg_function p =
     (let p1 = skip_whitespace p;
          name = takeWhile isalpha (here p1);
          p2 = advance (length name) p1;
          func_name = map tolower name in
      if name = [] then (None, parser_set_error p2 ''expected aggregation function'')
      else if 32 \<le> length name then (None, parser_set_error p2 ''aggregation function name too long'')
      else
        bindP (expect (''expected '' @ quoted (CHR ''('') @ '' after aggregation function'') (consume_char (CHR ''('') p2))
          (\<lambda>_ p3. parse_agg_arguments func_name p3))"

section \<open>The position moves forward\<close>

definition parser_le :: "nql_parser \<Rightarrow> nql_parser \<Rightarrow> bool" where
  "parser_le p q \<longleftrightarrow> p_input q = p_input p \<and> p_pos p \<le> p_pos q
     \<and> (p_error p \<noteq> None \<longrightarrow> p_error q = p_error p)"

lemma parser_le_refl [simp]: "parser_le p p"
  by (simp add: parser_le_def)

lemma parser_le_trans [trans]: "parser_le p q \<Longrightarrow> parser_le q r \<Longrightarrow> parser_le p r"
  by (auto simp: parser_le_def)

text \<open>Backward rules: each removes the last operation, so \<open>auto intro!: parser_mono\<close> follows a
  function from its result to its argument.\<close>

lemma parser_le_advance [parser_mono]: "parser_le p q \<Longrightarrow> parser_le p (advance n q)"
  by (simp add: parser_le_def advance_def)

lemma parser_le_set_error [parser_mono]: "parser_le p q \<Longrightarrow> parser_le p (parser_set_error q msg)"
  by (auto simp: parser_le_def parser_set_error_def split: option.splits)

lemma parser_le_skip [parser_mono]: "parser_le p q \<Longrightarrow> parser_le p (skip_whitespace q)"
  by (simp add: skip_whitespace_def parser_le_advance)

lemma parser_set_error_Some [simp]: "p_error (parser_set_error p msg) \<noteq> None"
  by (simp add: parser_set_error_def split: option.splits)

lemma p_error_advance [simp]: "p_error (advance n p) = p_error p"
  by (simp add: advance_def)

lemma p_error_skip [simp]: "p_error (skip_whitespace p) = p_error p"
  by (simp add: skip_whitespace_def)

lemma consume_char_le [parser_mono]: "parser_le p q \<Longrightarrow> parser_le p (snd (consume_char c q))"
  by (auto simp: consume_char_def Let_def intro!: parser_mono)

lemma match_keyword_le [parser_mono]: "parser_le p q \<Longrightarrow> parser_le p (snd (match_keyword kw q))"
  by (auto simp: match_keyword_def Let_def intro!: parser_mono)

lemma parse_identifier_le [parser_mono]: "parser_le p q \<Longrightarrow> parser_le p (snd (parse_identifier q))"
  by (auto simp: parse_identifier_def Let_def intro!: parser_mono)

lemma parse_duration_le [parser_mono]: "parser_le p q \<Longrightarrow> parser_le p (snd (parse_duration q))"
  by (auto simp: parse_duration_def Let_def intro!: parser_mono split: option.split)

lemma parse_filter_text_le [parser_mono]:
  "parser_le p q \<Longrightarrow> parser_le p (snd (parse_filter_text X kws b q))"
  by (auto simp: parse_filter_text_def Let_def intro!: parser_mono split: option.split)

lemma expect_le [parser_mono]: "parser_le p (snd m) \<Longrightarrow> parser_le p (snd (expect msg m))"
  by (auto simp: expect_def intro!: parser_mono split: prod.splits)

lemma or_error_le [parser_mono]: "parser_le p (snd m) \<Longrightarrow> parser_le p (snd (or_error msg m))"
  by (auto simp: or_error_def intro!: parser_mono split: prod.splits option.splits)

lemma no_error_le [parser_mono]: "parser_le p (snd m) \<Longrightarrow> parser_le p (snd (no_error m))"
  by (auto simp: no_error_def split: prod.splits)

lemma bindP_le [parser_mono]:
  "parser_le p (snd m) \<Longrightarrow> (\<And>x q. parser_le p q \<Longrightarrow> parser_le p (snd (f x q))) \<Longrightarrow>
   parser_le p (snd (bindP m f))"
  by (auto simp: bindP_def split: prod.splits option.splits)

lemma parse_agg_function_le [parser_mono]: "parser_le p q \<Longrightarrow> parser_le p (snd (parse_agg_function q))"
  by (auto simp: parse_agg_function_def parse_agg_arguments_def Let_def intro!: parser_mono split: option.split)

lemma consume_char_error: "consume_char c p = (b, q) \<Longrightarrow> p_error q = p_error p"
  by (auto simp: consume_char_def Let_def split: if_splits)

lemma match_keyword_error: "match_keyword kw p = (b, q) \<Longrightarrow> p_error q = p_error p"
  by (auto simp: match_keyword_def Let_def split: if_splits)

lemma here_nonempty: "deref (here p) = c \<Longrightarrow> c \<noteq> NUL \<Longrightarrow> p_pos p < length (p_input p)"
  by (cases "p_pos p < length (p_input p)") (auto simp: here_def)

lemma consume_char_less:
  assumes "consume_char c p = (True, q)" and "c \<noteq> NUL"
  shows "length (p_input q) - p_pos q < length (p_input p) - p_pos p"
proof -
  from assms(1) have d: "deref (here (skip_whitespace p)) = c" and q: "q = advance 1 (skip_whitespace p)"
    by (auto simp: consume_char_def Let_def split: if_splits)
  from here_nonempty [OF d assms(2)] have "p_pos (skip_whitespace p) < length (p_input p)"
    by (simp add: skip_whitespace_def advance_def)
  then show ?thesis unfolding q by (simp add: skip_whitespace_def advance_def)
qed

text \<open>Elimination of the combinators.\<close>

lemma bindP_cong [fundef_cong]:
  "m = m' \<Longrightarrow> (\<And>x p. m' = (Some x, p) \<Longrightarrow> f x p = g x p) \<Longrightarrow> bindP m f = bindP m' g"
  by (auto simp: bindP_def split: prod.splits option.splits)

lemma bindP_Some: "bindP m f = (Some y, q) \<longleftrightarrow> (\<exists>x p. m = (Some x, p) \<and> f x p = (Some y, q))"
  by (auto simp: bindP_def split: prod.splits option.splits)

lemma bindP_None:
  "bindP m f = (None, q) \<longleftrightarrow> m = (None, q) \<or> (\<exists>x p. m = (Some x, p) \<and> f x p = (None, q))"
  by (auto simp: bindP_def split: prod.splits option.splits)

lemma expect_iff:
  "expect msg m = (Some u, q) \<longleftrightarrow> m = (True, q)"
  "expect msg m = (None, q) \<longleftrightarrow> (\<exists>p. m = (False, p) \<and> q = parser_set_error p msg)"
  by (auto simp: expect_def split: prod.splits if_splits)

lemma or_error_iff:
  "or_error msg m = (Some x, q) \<longleftrightarrow> m = (Some x, q)"
  "or_error msg m = (None, q) \<longleftrightarrow> (\<exists>p. m = (None, p) \<and> q = parser_set_error p msg)"
  by (auto simp: or_error_def split: prod.splits option.splits)

lemma no_error_iff:
  "no_error m = (Some x, q) \<longleftrightarrow> m = (x, q) \<and> p_error q = None"
  "no_error m = (None, q) \<longleftrightarrow> (\<exists>x. m = (x, q)) \<and> p_error q \<noteq> None"
  by (auto simp: no_error_def split: prod.splits if_splits)

section \<open>Clauses\<close>

text \<open>The loop over further aggregation functions, and over further fields of \<open>by\<close> and \<open>show\<close>.\<close>

function parse_more_funcs ::
  "nql_agg_func list \<Rightarrow> nql_parser \<Rightarrow> nql_agg_func list option \<times> nql_parser" where
  "parse_more_funcs fs p =
     (case consume_char (CHR '','') p of
        (False, p1) \<Rightarrow> (Some fs, p1)
      | (True, p1) \<Rightarrow> bindP (parse_agg_function p1) (\<lambda>f p2. parse_more_funcs (fs @ [f]) p2))"
  by pat_completeness auto

function parse_more_fields ::
  "string \<Rightarrow> string list \<Rightarrow> nql_parser \<Rightarrow> string list option \<times> nql_parser" where
  "parse_more_fields msg fs p =
     (case consume_char (CHR '','') p of
        (False, p1) \<Rightarrow> (Some fs, p1)
      | (True, p1) \<Rightarrow> bindP (or_error msg (parse_identifier p1)) (\<lambda>f p2. parse_more_fields msg (fs @ [f]) p2))"
  by pat_completeness auto

lemma list_loop_less:
  assumes "consume_char (CHR '','') p = (True, p1)" and "m = (r, p2)" and "parser_le p1 (snd m)"
  shows "length (p_input p2) - p_pos p2 < length (p_input p) - p_pos p"
proof -
  have "length (p_input p1) - p_pos p1 < length (p_input p) - p_pos p"
    using assms(1) by (rule consume_char_less) (simp add: NUL_def)
  with assms(2,3) show ?thesis by (auto simp: parser_le_def)
qed

termination parse_more_funcs
proof (relation "measure (\<lambda>(fs, p). length (p_input p) - p_pos p)", goal_cases)
  case (2 fs p b p1 f p2)
  then show ?case
    using list_loop_less [of p p1 "parse_agg_function p1"] parse_agg_function_le [of p1 p1] by auto
qed simp

termination parse_more_fields
proof (relation "measure (\<lambda>(msg, fs, p). length (p_input p) - p_pos p)", goal_cases)
  case (2 msg fs p b p1 f p2)
  then show ?case
    using list_loop_less [of p p1 "parse_identifier p1"] parse_identifier_le [of p1 p1]
    by (auto simp: or_error_iff)
qed simp

declare parse_more_funcs.simps [simp del] parse_more_fields.simps [simp del]

lemma parse_more_funcs_le [parser_mono]:
  "parser_le p q \<Longrightarrow> parser_le p (snd (parse_more_funcs fs q))"
proof (induction fs q rule: parse_more_funcs.induct)
  case (1 fs q)
  obtain b p1 where c: "consume_char (CHR '','') q = (b, p1)" by fastforce
  have p1: "parser_le p p1" using consume_char_le [OF "1.prems", of "CHR '',''"] c by simp
  show ?case
  proof (cases "b \<and> fst (parse_agg_function p1) \<noteq> None")
    case False
    with c p1 show ?thesis
      using parse_agg_function_le [OF p1]
      by (auto simp: parse_more_funcs.simps [of fs q] bindP_def split: prod.splits option.splits bool.splits)
  next
    case True
    then obtain f p2 where f: "parse_agg_function p1 = (Some f, p2)" "b" by (metis not_None_eq prod.collapse)
    have "parser_le p p2" using parse_agg_function_le [OF p1] f by simp
    with f c "1.IH" [OF c [symmetric]] show ?thesis
      by (auto simp: parse_more_funcs.simps [of fs q] bindP_def)
  qed
qed

lemma parse_more_fields_le [parser_mono]:
  "parser_le p q \<Longrightarrow> parser_le p (snd (parse_more_fields msg fs q))"
proof (induction msg fs q rule: parse_more_fields.induct)
  case (1 msg fs q)
  obtain b p1 where c: "consume_char (CHR '','') q = (b, p1)" by fastforce
  have p1: "parser_le p p1" using consume_char_le [OF "1.prems", of "CHR '',''"] c by simp
  let ?m = "or_error msg (parse_identifier p1)"
  have m: "parser_le p (snd ?m)" by (intro parser_mono p1)
  show ?case
  proof (cases "b \<and> fst ?m \<noteq> None")
    case False
    with c p1 m show ?thesis
      by (auto simp: parse_more_fields.simps [of msg fs q] bindP_def split: prod.splits option.splits bool.splits)
  next
    case True
    then obtain f p2 where f: "?m = (Some f, p2)" "b" by (metis not_None_eq prod.collapse)
    with m have "parser_le p p2" by simp
    with f c "1.IH" [OF c [symmetric]] show ?thesis
      by (auto simp: parse_more_fields.simps [of msg fs q] bindP_def)
  qed
qed

text \<open>\<open>if (match_keyword("where")) ...\<close>: the optional filter.\<close>

definition parse_where_clause ::
  "'j ext \<Rightarrow> string list \<Rightarrow> nql_parser \<Rightarrow> filter_t option option \<times> nql_parser" where
  "parse_where_clause X kws p = (case match_keyword ''where'' p of
      (False, p1) \<Rightarrow> (Some None, p1)
    | (True, p1) \<Rightarrow> bindP (parse_filter_text X kws True p1) (\<lambda>f p2. (Some (Some f), p2)))"

definition parse_by_clause :: "nql_parser \<Rightarrow> string list option \<times> nql_parser" where
  "parse_by_clause p = (case match_keyword ''by'' p of
      (False, p1) \<Rightarrow> (Some [], p1)
    | (True, p1) \<Rightarrow>
        bindP (or_error (''expected field after '' @ quoted_word ''by'') (parse_identifier p1)) (\<lambda>f p2.
          parse_more_fields (''expected field after '' @ quoted_word ''by'') [f] p2))"

definition window :: "nql_window_type \<Rightarrow> u64 \<Rightarrow> u64 \<Rightarrow> u64 \<Rightarrow> nql_window" where
  "window t s sl g = \<lparr>w_type = t, size_ms = s, slide_ms = sl, timeout_ms = g\<rparr>"

definition parse_window_clause :: "nql_parser \<Rightarrow> nql_window option \<times> nql_parser" where
  "parse_window_clause p = (case match_keyword ''window'' p of
      (False, p1) \<Rightarrow> (Some (window NQL_WINDOW_NONE 0 0 0), p1)
    | (True, p1) \<Rightarrow> (case match_keyword ''tumbling'' p1 of
        (True, p2) \<Rightarrow>
          bindP (expect (''expected '' @ quoted (CHR ''('') @ '' after tumbling'') (consume_char (CHR ''('') p2)) (\<lambda>_ p3.
          bindP (no_error (parse_duration p3)) (\<lambda>d p4.
          bindP (expect (''expected '' @ quoted (CHR '')'') @ '' after tumbling window'') (consume_char (CHR '')'') p4)) (\<lambda>_ p5.
            (Some (window NQL_WINDOW_TUMBLING d 0 0), p5))))
      | (False, p2) \<Rightarrow> (case match_keyword ''sliding'' p2 of
          (True, p3) \<Rightarrow>
            bindP (expect (''expected '' @ quoted (CHR ''('') @ '' after sliding'') (consume_char (CHR ''('') p3)) (\<lambda>_ p4.
            bindP (no_error (parse_duration p4)) (\<lambda>d p5.
            bindP (expect (''expected '' @ quoted (CHR '','') @ '' in sliding window'') (consume_char (CHR '','') p5)) (\<lambda>_ p6.
            bindP (no_error (parse_duration p6)) (\<lambda>e p7.
            bindP (expect (''expected '' @ quoted (CHR '')'') @ '' after sliding window'') (consume_char (CHR '')'') p7)) (\<lambda>_ p8.
              (Some (window NQL_WINDOW_SLIDING d e 0), p8))))))
        | (False, p3) \<Rightarrow> (case match_keyword ''session'' p3 of
            (True, p4) \<Rightarrow>
              bindP (expect (''expected '' @ quoted (CHR ''('') @ '' after session'') (consume_char (CHR ''('') p4)) (\<lambda>_ p5.
              bindP (no_error (parse_duration p5)) (\<lambda>d p6.
              bindP (expect (''expected '' @ quoted (CHR '')'') @ '' after session window'') (consume_char (CHR '')'') p6)) (\<lambda>_ p7.
                (Some (window NQL_WINDOW_SESSION 0 0 d), p7))))
          | (False, p4) \<Rightarrow>
              bindP (no_error (parse_duration p4)) (\<lambda>d p5.
                (Some (window NQL_WINDOW_TUMBLING d 0 0), p5))))))"

section \<open>Queries\<close>

text \<open>The pointer reset of a parser that did not find its keyword.\<close>

definition restore :: "nql_parser \<Rightarrow> nql_parser \<Rightarrow> nql_parser" where
  "restore p q = q\<lparr>p_pos := p_pos p\<rparr>"

definition DEFAULT_CORRELATE_WITHIN_MS :: u64 where
  "DEFAULT_CORRELATE_WITHIN_MS = 100"

definition parse_correlate :: "'j ext \<Rightarrow> nql_parser \<Rightarrow> nql_query option \<times> nql_parser" where
  "parse_correlate X p = (case match_keyword ''correlate'' p of
      (False, p1) \<Rightarrow> (None, restore p p1)
    | (True, p1) \<Rightarrow>
        bindP (parse_filter_text X [''with'', ''within'', ''|''] True p1) (\<lambda>l p2.
        bindP (expect (''expected '' @ quoted_word ''with'' @ '' in correlate clause'') (match_keyword ''with'' p2)) (\<lambda>_ p3.
        bindP (parse_filter_text X [''within'', ''|''] True p3) (\<lambda>r p4.
        bindP (case match_keyword ''within'' p4 of
                 (False, p5) \<Rightarrow> (Some DEFAULT_CORRELATE_WITHIN_MS, p5)
               | (True, p5) \<Rightarrow> bindP (no_error (parse_duration p5)) (\<lambda>d p6.
                    (Some (if d \<noteq> 0 then d else DEFAULT_CORRELATE_WITHIN_MS), p6)))
          (\<lambda>d p7. (Some (NQL_QUERY_CORRELATE \<lparr>left_filter = Some l, right_filter = Some r, within_ms = d\<rparr>), p7))))))"

definition parse_aggregate :: "'j ext \<Rightarrow> nql_parser \<Rightarrow> nql_query option \<times> nql_parser" where
  "parse_aggregate X p = (case match_keyword ''aggregate'' p of
      (False, p1) \<Rightarrow> (None, restore p p1)
    | (True, p1) \<Rightarrow> (case consume_char (CHR ''('') p1 of
        (wrapped, p2) \<Rightarrow>
          bindP (parse_agg_function p2) (\<lambda>f p3.
          bindP (parse_more_funcs [f] p3) (\<lambda>fs p4.
          bindP (if wrapped then
                   expect (''expected '' @ quoted (CHR '')'') @ '' after aggregation function list'') (consume_char (CHR '')'') p4)
                 else (Some (), p4)) (\<lambda>_ p5.
          bindP (parse_by_clause p5) (\<lambda>gs p6.
          bindP (parse_where_clause X [''window'', ''|''] p6) (\<lambda>wf p7.
          bindP (parse_window_clause p7) (\<lambda>w p8.
            (Some (NQL_QUERY_AGGREGATE
              \<lparr>funcs = fs, group_by_fields = gs, agg_where = wf, agg_window = w\<rparr>), p8)))))))))"

definition parse_show :: "'j ext \<Rightarrow> nql_parser \<Rightarrow> nql_query option \<times> nql_parser" where
  "parse_show X p = (case match_keyword ''show'' p of
      (False, p1) \<Rightarrow> (None, restore p p1)
    | (True, p1) \<Rightarrow>
        bindP (case consume_char (CHR ''*'') p1 of
                 (True, p2) \<Rightarrow> (Some ([], True), p2)
               | (False, p2) \<Rightarrow>
                   bindP (or_error ''expected field list for show'' (parse_identifier p2)) (\<lambda>f p3.
                   bindP (parse_more_fields ''expected field in show list'' [f] p3) (\<lambda>fs p4.
                     (Some (fs, False), p4))))
          (\<lambda>(fs, al) p5. bindP (parse_where_clause X [''|''] p5) (\<lambda>wf p6.
            (Some (NQL_QUERY_SHOW \<lparr>show_fields = fs, select_all = al, show_where = wf\<rparr>), p6))))"

definition parse_select_all :: "'j ext \<Rightarrow> nql_parser \<Rightarrow> nql_query option \<times> nql_parser" where
  "parse_select_all X p = (case consume_char (CHR ''*'') p of
      (False, p1) \<Rightarrow> (None, restore p p1)
    | (True, p1) \<Rightarrow> bindP (parse_where_clause X [''|''] p1) (\<lambda>wf p2.
        (Some (NQL_QUERY_SHOW \<lparr>show_fields = [], select_all = True, show_where = wf\<rparr>), p2)))"

definition parse_filter_query :: "'j ext \<Rightarrow> nql_parser \<Rightarrow> nql_query option \<times> nql_parser" where
  "parse_filter_query X p = bindP (parse_filter_text X [''|''] True p) (\<lambda>f p1. (Some (NQL_QUERY_FILTER f), p1))"

text \<open>\<open>if (query || parser->error_msg) return query; parser->pos = saved;\<close> and the next parser.\<close>

definition or_next ::
  "nql_parser \<Rightarrow> nql_query option \<times> nql_parser \<Rightarrow> (nql_parser \<Rightarrow> nql_query option \<times> nql_parser) \<Rightarrow>
   nql_query option \<times> nql_parser" where
  "or_next p m f = (case m of (q, p1) \<Rightarrow>
     if q \<noteq> None \<or> p_error p1 \<noteq> None then (q, p1) else f (restore p p1))"

definition parse_single_query :: "'j ext \<Rightarrow> nql_parser \<Rightarrow> nql_query option \<times> nql_parser" where
  "parse_single_query X p =
     or_next p (parse_correlate X p) (\<lambda>p1.
     or_next p (parse_aggregate X p1) (\<lambda>p2.
     or_next p (parse_show X p2) (\<lambda>p3.
     or_next p (parse_select_all X p3) (parse_filter_query X))))"

lemma restore_le [parser_mono]: "parser_le p q \<Longrightarrow> parser_le q r \<Longrightarrow> parser_le p (restore q r)"
  by (auto simp: parser_le_def restore_def)

lemma restore_refl: "parser_le p q \<Longrightarrow> parser_le p (restore p q)"
  by (auto simp: parser_le_def restore_def)

text \<open>\<open>match_keyword\<close> and \<open>consume_char\<close> as the head of a case distinction.\<close>

lemma case_bool_result_le [parser_mono]:
  "parser_le p (snd f) \<Longrightarrow> parser_le p (snd g) \<Longrightarrow> parser_le p (snd (case b of True \<Rightarrow> f | False \<Rightarrow> g))"
  by (cases b) auto

lemma case_pair_result_le [parser_mono]:
  "parser_le p (snd m) \<Longrightarrow> (\<And>b q. parser_le p q \<Longrightarrow> parser_le p (snd (f b q))) \<Longrightarrow>
   parser_le p (snd (case m of (b, q) \<Rightarrow> f b q))"
  by (cases m) auto

lemma parse_where_clause_le [parser_mono]:
  "parser_le p q \<Longrightarrow> parser_le p (snd (parse_where_clause X kws q))"
  unfolding parse_where_clause_def by (auto intro!: parser_mono)

lemma parse_by_clause_le [parser_mono]: "parser_le p q \<Longrightarrow> parser_le p (snd (parse_by_clause q))"
  unfolding parse_by_clause_def by (auto intro!: parser_mono)

lemma parse_window_clause_le [parser_mono]:
  "parser_le p q \<Longrightarrow> parser_le p (snd (parse_window_clause q))"
  unfolding parse_window_clause_def by (auto intro!: parser_mono)

lemma parse_correlate_le: "parser_le p (snd (parse_correlate X p))"
  unfolding parse_correlate_def
  by (auto simp: parser_le_def [of p p] intro!: parser_mono)

lemma parse_aggregate_le: "parser_le p (snd (parse_aggregate X p))"
  unfolding parse_aggregate_def by (auto intro!: parser_mono)

lemma parse_show_le: "parser_le p (snd (parse_show X p))"
  unfolding parse_show_def by (auto intro!: parser_mono)

lemma parse_select_all_le: "parser_le p (snd (parse_select_all X p))"
  unfolding parse_select_all_def by (auto intro!: parser_mono)

lemma parse_filter_query_le: "parser_le p (snd (parse_filter_query X p))"
  unfolding parse_filter_query_def by (auto intro!: parser_mono)

lemma or_next_le:
  assumes "parser_le p (snd m)" and "\<And>q. parser_le p q \<Longrightarrow> p_pos q = p_pos p \<Longrightarrow> parser_le p (snd (f q))"
  shows "parser_le p (snd (or_next p m f))"
  using assms restore_refl by (auto simp: or_next_def restore_def split: prod.splits)

lemma parse_single_query_le [parser_mono]:
  assumes "parser_le p q"
  shows "parser_le p (snd (parse_single_query X q))"
proof -
  have tr: "\<And>r m. parser_le q r \<Longrightarrow> parser_le r (snd m) \<Longrightarrow> parser_le q (snd m)"
    by (rule parser_le_trans)
  have "parser_le q (snd (parse_single_query X q))"
    unfolding parse_single_query_def
    by (intro or_next_le parse_correlate_le tr [OF _ parse_aggregate_le] tr [OF _ parse_show_le]
        tr [OF _ parse_select_all_le] tr [OF _ parse_filter_query_le])
  with assms show ?thesis by (rule parser_le_trans)
qed

text \<open>The stages after the first, separated by \<open>|\<close>.\<close>

function parse_more_stages ::
  "'j ext \<Rightarrow> nql_query list \<Rightarrow> nql_parser \<Rightarrow> nql_query list option \<times> nql_parser" where
  "parse_more_stages X stages p =
     (let p1 = skip_whitespace p in
      if deref (here p1) \<noteq> CHR ''|'' then (Some stages, p1)
      else bindP (parse_single_query X (advance 1 p1)) (\<lambda>q p2. parse_more_stages X (stages @ [q]) p2))"
  by pat_completeness auto

termination parse_more_stages
proof (relation "measure (\<lambda>(X, stages, p). length (p_input p) - p_pos p)", goal_cases)
  case (2 X stages p p1 q p2)
  then have d: "deref (here p1) = CHR ''|''" and m: "parse_single_query X (advance 1 p1) = (Some q, p2)"
    by auto
  from here_nonempty [OF d] have "p_pos p1 < length (p_input p1)" by (simp add: NUL_def)
  moreover have "Suc (p_pos p1) \<le> p_pos p2" "p_input p2 = p_input p1"
    using parse_single_query_le [of "advance 1 p1" "advance 1 p1" X] m
    by (simp_all add: parser_le_def advance_def)
  moreover have "p_input p1 = p_input p" "p_pos p \<le> p_pos p1"
    using 2(1) by (simp_all add: skip_whitespace_def advance_def)
  ultimately have "length (p_input p2) - p_pos p2 < length (p_input p) - p_pos p" by simp
  then show ?case by simp
qed simp

declare parse_more_stages.simps [simp del]

definition parse_pipeline :: "'j ext \<Rightarrow> nql_parser \<Rightarrow> nql_query option \<times> nql_parser" where
  "parse_pipeline X p =
     bindP (parse_single_query X p) (\<lambda>first p1.
     bindP (parse_more_stages X [first] p1) (\<lambda>stages p2.
       if length stages = 1 then (Some first, p2) else (Some (NQL_QUERY_PIPELINE stages), p2)))"

definition parse_entry :: "'j ext \<Rightarrow> nql_parser \<Rightarrow> nql_query option \<times> nql_parser" where
  "parse_entry X p =
     (let p1 = skip_whitespace p in
      if deref (here p1) = NUL then (None, parser_set_error p1 ''empty query'')
      else parse_pipeline X p1)"

text \<open>The query and the error message (\<open>error_out\<close>); the argument may be NULL.\<close>

definition nql_parse_ex :: "'j ext \<Rightarrow> string option \<Rightarrow> nql_query option \<times> string option" where
  "nql_parse_ex X query_str = (case query_str of
      None \<Rightarrow> (None, Some ''query string is NULL'')
    | Some s \<Rightarrow> (case parse_entry X \<lparr>p_input = s, p_pos = 0, p_error = None\<rparr> of (q, p) \<Rightarrow>
        if q \<noteq> None \<and> p_error p = None then
          (let p1 = skip_whitespace p in
           if deref (here p1) \<noteq> NUL then (None, p_error (parser_set_error p1 ''unexpected trailing input''))
           else (q, p_error p1))
        else (q, p_error p)))"

definition nql_parse :: "'j ext \<Rightarrow> string option \<Rightarrow> nql_query option" where
  "nql_parse X query_str = fst (nql_parse_ex X query_str)"

end
