(* ===== verification/Events.thy ===== *)
theory Events
  imports Filter_Engine
begin

text \<open>
  Events and inputs (\<open>src/core/nblex_event.c\<close>, \<open>src/input/input_base.c\<close>,
  \<open>src/output/json_output.c\<close>, and the structures of \<open>src/nblex_internal.h\<close>).

  An event holds its input by value, as the structure the C pointer points to when the event is
  emitted; the fields \<open>world\<close> and \<open>data\<close> of an input are left out, and its virtual table is the name of
  the table. Reference counts and deallocation are not modelled: \<open>nblex_event_clone\<close> shares the JSON
  data, which nothing changes after the event is built.
\<close>

section \<open>Data\<close>

datatype nblex_event_type =
  NBLEX_EVENT_LOG | NBLEX_EVENT_NETWORK | NBLEX_EVENT_CORRELATION | NBLEX_EVENT_ERROR

datatype nblex_input_type =
  NBLEX_INPUT_FILE | NBLEX_INPUT_SYSLOG | NBLEX_INPUT_PCAP | NBLEX_INPUT_SOCKET

datatype nblex_log_format =
  NBLEX_FORMAT_JSON | NBLEX_FORMAT_LOGFMT | NBLEX_FORMAT_SYSLOG | NBLEX_FORMAT_NGINX | NBLEX_FORMAT_REGEX

record nblex_input =
  in_type :: nblex_input_type
  in_format :: nblex_log_format
  in_vtable :: "string option"
  in_filter :: "filter_t option"

record 'j event =
  ev_type :: nblex_event_type
  ev_timestamp :: u64
  ev_input :: "nblex_input option"
  ev_data :: "'j option"

section \<open>Events\<close>

text \<open>\<open>nblex_event_new\<close>; \<open>now\<close> is the reading of the clock.\<close>

definition nblex_event_new :: "u64 \<Rightarrow> nblex_event_type \<Rightarrow> nblex_input option \<Rightarrow> 'j event" where
  "nblex_event_new now t i = \<lparr>ev_type = t, ev_timestamp = now, ev_input = i, ev_data = None\<rparr>"

definition nblex_event_clone :: "'j event \<Rightarrow> 'j event" where
  "nblex_event_clone src = \<lparr>ev_type = ev_type src, ev_timestamp = ev_timestamp src,
     ev_input = ev_input src, ev_data = ev_data src\<rparr>"

lemma nblex_event_clone_id [simp]: "nblex_event_clone ev = ev"
  by (simp add: nblex_event_clone_def)

text \<open>\<open>nblex_event_get_type\<close>, on a pointer that may be NULL.\<close>

definition nblex_event_get_type :: "'j event option \<Rightarrow> nblex_event_type" where
  "nblex_event_get_type ev = (case ev of None \<Rightarrow> NBLEX_EVENT_ERROR | Some e \<Rightarrow> ev_type e)"

definition nblex_filter_matches :: "'j ext \<Rightarrow> filter_t \<Rightarrow> 'j event \<Rightarrow> bool" where
  "nblex_filter_matches X f ev = (case ev_data ev of
      None \<Rightarrow> False
    | Some d \<Rightarrow> evaluate_filter_root X f d)"

section \<open>Inputs\<close>

definition nblex_input_new :: "nblex_input_type \<Rightarrow> nblex_input" where
  "nblex_input_new t = \<lparr>in_type = t, in_format = NBLEX_FORMAT_JSON, in_vtable = None, in_filter = None\<rparr>"

definition nblex_input_set_format :: "nblex_input \<Rightarrow> nblex_log_format \<Rightarrow> int \<times> nblex_input" where
  "nblex_input_set_format i fmt = (0, i\<lparr>in_format := fmt\<rparr>)"

text \<open>A NULL or empty expression clears the filter; one that does not parse leaves it as it was.\<close>

definition nblex_input_set_filter :: "'j ext \<Rightarrow> nblex_input \<Rightarrow> string option \<Rightarrow> int \<times> nblex_input" where
  "nblex_input_set_filter X i expr =
     (if expr = None \<or> expr = Some [] then (0, i\<lparr>in_filter := None\<rparr>)
      else (case nblex_filter_new X (the expr) of
          None \<Rightarrow> (- 1, i)
        | Some f \<Rightarrow> (0, i\<lparr>in_filter := Some f\<rparr>)))"

text \<open>\<open>strcasecmp(a, b) == 0\<close>, \<open>strstr(s, k) != NULL\<close> and \<open>strrchr(s, c)\<close>.\<close>

definition strcasecmp_eq :: "string \<Rightarrow> string \<Rightarrow> bool" where
  "strcasecmp_eq a b \<longleftrightarrow> map tolower a = map tolower b"

definition strstr :: "string \<Rightarrow> string \<Rightarrow> bool" where
  "strstr s k \<longleftrightarrow> list_ex (starts_with k) (suffixes s)"

definition strrchr :: "string \<Rightarrow> char \<Rightarrow> string option" where
  "strrchr s c = (if c \<in> set s then Some (c # rev (takeWhile (\<lambda>d. d \<noteq> c) (rev s))) else None)"

definition nblex_detect_log_format :: "string option \<Rightarrow> nblex_log_format" where
  "nblex_detect_log_format path = (case path of
      None \<Rightarrow> NBLEX_FORMAT_JSON
    | Some p \<Rightarrow>
        if (case strrchr p (CHR ''.'') of
              None \<Rightarrow> False
            | Some e \<Rightarrow> strcasecmp_eq e ''.jsonl'' \<or> strcasecmp_eq e ''.json'')
        then NBLEX_FORMAT_JSON
        else
          let path_lower = map tolower p in
          if strstr path_lower ''nginx'' then NBLEX_FORMAT_NGINX
          else if strstr path_lower ''syslog'' then NBLEX_FORMAT_SYSLOG
          else if strstr path_lower ''logfmt'' then NBLEX_FORMAT_LOGFMT
          else NBLEX_FORMAT_JSON)"

section \<open>JSON output\<close>

fun event_type_to_string :: "nblex_event_type \<Rightarrow> string" where
  "event_type_to_string NBLEX_EVENT_LOG = ''log''"
| "event_type_to_string NBLEX_EVENT_NETWORK = ''network''"
| "event_type_to_string NBLEX_EVENT_CORRELATION = ''correlation''"
| "event_type_to_string NBLEX_EVENT_ERROR = ''error''"

fun input_type_str :: "nblex_input_type \<Rightarrow> string" where
  "input_type_str NBLEX_INPUT_FILE = ''file''"
| "input_type_str NBLEX_INPUT_SYSLOG = ''syslog''"
| "input_type_str NBLEX_INPUT_PCAP = ''pcap''"
| "input_type_str NBLEX_INPUT_SOCKET = ''socket''"

text \<open>The JSON object of an event, before it is serialised.\<close>

definition event_json_root :: "'j ext \<Rightarrow> 'j event \<Rightarrow> 'j" where
  "event_json_root X ev =
     (let r0 = obj_set_new X (json_object X) ''type'' (json_string X (event_type_to_string (ev_type ev)));
          r1 = obj_set_new X r0 ''timestamp_ns'' (Some (json_integer X (ev_timestamp ev)));
          r2 = (case ev_input ev of
                  None \<Rightarrow> r1
                | Some i \<Rightarrow> obj_set_new X r1 ''source''
                    (Some (obj_set_new X (json_object X) ''type'' (json_string X (input_type_str (in_type i))))));
          r3 = (case ev_data ev of None \<Rightarrow> r2 | Some d \<Rightarrow> obj_set_new X r2 ''data'' (Some d))
      in r3)"

definition nblex_event_to_json_string :: "'j ext \<Rightarrow> 'j event \<Rightarrow> string option" where
  "nblex_event_to_json_string X ev = json_dumps X (event_json_root X ev)"

text \<open>\<open>nblex_event_to_json\<close>, on a pointer that may be NULL.\<close>

definition nblex_event_to_json :: "'j ext \<Rightarrow> 'j event option \<Rightarrow> string option" where
  "nblex_event_to_json X ev = (case ev of None \<Rightarrow> None | Some e \<Rightarrow> nblex_event_to_json_string X e)"

end
