(* ===== verification/Aggregation.thy ===== *)
theory Aggregation
  imports Nql_Parser Events
begin

text \<open>
  Aggregation state of the nQL executor (first part of \<open>src/core/nql_executor.c\<close>): lookup of fields by
  path, group keys, buckets and windows, the update of a bucket with an event, and the result event.

  A bucket is the C struct; \<open>b_addr\<close> stands for its address (the number of buckets created before it),
  since the code holds pointers to buckets across updates of the list. Group keys are the array of
  strings, \<open>None\<close> for NULL; that sliding windows share one array among several buckets is not visible
  here, because deallocation is not modelled. All window arithmetic is on 64-bit words; division by
  zero is undefined behaviour.
\<close>

section \<open>Fields\<close>

function json_get_path :: "'j ext \<Rightarrow> 'j \<Rightarrow> string \<Rightarrow> 'j option" where
  "json_get_path X ob path =
     (if json_typeof X ob \<noteq> JSON_OBJECT then None
      else (case json_object_get X ob path of
          Some direct \<Rightarrow> Some direct
        | None \<Rightarrow> (case dropWhile (\<lambda>c. c \<noteq> CHR ''.'') path of
            [] \<Rightarrow> json_object_get X ob path
          | _ # rest \<Rightarrow> (case json_object_get X ob (takeWhile (\<lambda>c. c \<noteq> CHR ''.'') path) of
              None \<Rightarrow> None
            | Some nested \<Rightarrow>
                if json_typeof X nested \<noteq> JSON_OBJECT then None else json_get_path X nested rest))))"
  by pat_completeness auto

lemma dropWhile_Cons_shorter: "dropWhile P s = c # r \<Longrightarrow> length r < length s"
  using length_dropWhile_le [of P s] by simp

termination json_get_path
  by (relation "measure (\<lambda>(X, ob, path). length path)") (auto dest: dropWhile_Cons_shorter)

declare json_get_path.simps [simp del]

definition get_numeric_value :: "'j ext \<Rightarrow> 'j option \<Rightarrow> string \<Rightarrow> f64" where
  "get_numeric_value X ob field = (case (case ob of None \<Rightarrow> None | Some d \<Rightarrow> json_get_path X d field) of
      None \<Rightarrow> f64_zero
    | Some v \<Rightarrow>
        if json_typeof X v = JSON_INTEGER then f64_of_int (sint (json_integer_value X v))
        else if json_typeof X v = JSON_REAL then json_real_value X v
        else f64_zero)"

text \<open>\<open>json_is_number(v) ? json_number_value(v) : 0.0\<close>.\<close>

definition json_number :: "'j ext \<Rightarrow> 'j \<Rightarrow> f64" where
  "json_number X v =
     (if json_typeof X v = JSON_INTEGER then f64_of_int (sint (json_integer_value X v))
      else if json_typeof X v = JSON_REAL then json_real_value X v else f64_zero)"

definition json_is_number :: "'j ext \<Rightarrow> 'j \<Rightarrow> bool" where
  "json_is_number X v \<longleftrightarrow> json_typeof X v = JSON_INTEGER \<or> json_typeof X v = JSON_REAL"

section \<open>State\<close>

record 'j nql_agg_bucket =
  b_addr :: nat
  group_keys :: "string list option"
  group_keys_count :: nat
  b_count :: u64
  b_sum :: f64
  b_min :: f64
  b_max :: f64
  sum_squares :: f64
  distinct_count :: u64
  distinct_values :: 'j
  percentile_values :: 'j
  window_start_ns :: u64
  window_end_ns :: u64
  last_event_ns :: u64

text \<open>A timer is its interval.\<close>

record 'j nql_agg_state =
  as_window :: nql_window
  as_funcs :: "nql_agg_func list"
  as_group_by :: "string list"
  buckets :: "'j nql_agg_bucket list"
  bucket_count :: nat
  window_timer :: "u64 option"
  last_flush_ns :: u64
  as_timer_active :: bool
  next_addr :: nat

definition copy_agg_config :: "nql_aggregate \<Rightarrow> 'j nql_agg_state" where
  "copy_agg_config agg = \<lparr>as_window = agg_window agg, as_funcs = funcs agg,
     as_group_by = group_by_fields agg, buckets = [], bucket_count = 0, window_timer = None,
     last_flush_ns = 0, as_timer_active = False, next_addr = 0\<rparr>"

section \<open>Group keys\<close>

definition group_key :: "'j ext \<Rightarrow> 'j \<Rightarrow> string \<Rightarrow> string" where
  "group_key X d field = (case json_get_path X d field of
      None \<Rightarrow> ''null''
    | Some v \<Rightarrow> (case json_typeof X v of
        JSON_STRING \<Rightarrow> json_string_value X v
      | JSON_INTEGER \<Rightarrow> snprintf 64 (dec_of_int (sint (json_integer_value X v)))
      | JSON_REAL \<Rightarrow> snprintf 64 (fmt_f 6 (json_real_value X v))
      | _ \<Rightarrow> ''null''))"

definition extract_group_keys :: "'j ext \<Rightarrow> 'j nql_agg_state \<Rightarrow> 'j event \<Rightarrow> string list option \<times> nat" where
  "extract_group_keys X st ev = (case ev_data ev of
      None \<Rightarrow> (None, 0)
    | Some d \<Rightarrow>
        if as_group_by st = [] then (None, 0)
        else (Some (map (group_key X d) (as_group_by st)), length (as_group_by st)))"

text \<open>\<open>compare_group_keys(...) == 0\<close>.\<close>

definition compare_group_keys :: "string list option \<Rightarrow> string list option \<Rightarrow> nat \<Rightarrow> bool" where
  "compare_group_keys keys1 keys2 n =
     (if n = 0 then True
      else (case (keys1, keys2) of
          (Some k1, Some k2) \<Rightarrow> take n k1 = take n k2
        | (None, None) \<Rightarrow> True
        | _ \<Rightarrow> False))"

section \<open>Buckets\<close>

definition ms_to_ns :: "u64 \<Rightarrow> u64" where
  "ms_to_ns t = t * 1000000"

definition UINT64_MAX :: u64 where
  "UINT64_MAX = - 1"

definition find_bucket_by_window ::
  "'j nql_agg_state \<Rightarrow> string list option \<Rightarrow> nat \<Rightarrow> u64 \<Rightarrow> 'j nql_agg_bucket option" where
  "find_bucket_by_window st keys n start =
     find (\<lambda>b. compare_group_keys (group_keys b) keys n \<and> window_start_ns b = start) (buckets st)"

definition new_bucket :: "'j ext \<Rightarrow> nat \<Rightarrow> string list option \<Rightarrow> nat \<Rightarrow> u64 \<Rightarrow> u64 \<Rightarrow> 'j nql_agg_bucket" where
  "new_bucket X addr keys n start end_ns = \<lparr>b_addr = addr, group_keys = keys, group_keys_count = n,
     b_count = 0, b_sum = f64_zero, b_min = f64_infinity, b_max = f64_neg_infinity,
     sum_squares = f64_zero, distinct_count = 0, distinct_values = json_array X,
     percentile_values = json_array X, window_start_ns = start, window_end_ns = end_ns,
     last_event_ns = start\<rparr>"

text \<open>The address of the new bucket, and the new state; the bucket becomes the head of the list.\<close>

definition create_bucket_with_window ::
  "'j ext \<Rightarrow> 'j nql_agg_state \<Rightarrow> string list option \<Rightarrow> nat \<Rightarrow> u64 \<Rightarrow> u64 \<Rightarrow> nat \<times> 'j nql_agg_state" where
  "create_bucket_with_window X st keys n start end_ns =
     (next_addr st,
      st\<lparr>buckets := new_bucket X (next_addr st) keys n start end_ns # buckets st,
         bucket_count := bucket_count st + 1, next_addr := next_addr st + 1\<rparr>)"

definition MAX_SLIDING_WINDOWS :: u64 where
  "MAX_SLIDING_WINDOWS = 1000"

definition udiv :: "u64 \<Rightarrow> u64 \<Rightarrow> u64 outcome" where
  "udiv a b = (if b = 0 then UB else Ok (a div b))"

text \<open>The loop over the windows of a sliding window; \<open>n\<close> is how many more the array has room for.\<close>

fun sliding_buckets ::
  "'j ext \<Rightarrow> nat \<Rightarrow> string list option \<Rightarrow> nat \<Rightarrow> u64 \<Rightarrow> u64 \<Rightarrow> u64 \<Rightarrow> u64 \<Rightarrow> 'j nql_agg_state \<Rightarrow>
   nat list \<times> 'j nql_agg_state" where
  "sliding_buckets X 0 keys k ts sz slide start st = ([], st)"
| "sliding_buckets X (Suc n) keys k ts sz slide start st =
     (if start \<le> ts \<and> ts < start + sz then
        (case (case find_bucket_by_window st keys k start of
                 Some b \<Rightarrow> (b_addr b, st)
               | None \<Rightarrow> create_bucket_with_window X st keys k start (start + sz)) of
           (a, st1) \<Rightarrow>
             (case sliding_buckets X n keys k ts sz slide (start + slide) st1 of
                (as, st2) \<Rightarrow> (a # as, st2)))
      else ([], st))"

text \<open>The addresses of the event's buckets, in order, and the new state.\<close>

definition get_or_create_buckets_for_event ::
  "'j ext \<Rightarrow> 'j nql_agg_state \<Rightarrow> string list option \<Rightarrow> nat \<Rightarrow> u64 \<Rightarrow> (nat list \<times> 'j nql_agg_state) outcome" where
  "get_or_create_buckets_for_event X st keys k ts =
     (case w_type (as_window st) of
        NQL_WINDOW_NONE \<Rightarrow>
          (case find (\<lambda>b. compare_group_keys (group_keys b) keys k \<and> window_start_ns b = 0
                        \<and> window_end_ns b = UINT64_MAX) (buckets st) of
             Some b \<Rightarrow> Ok ([b_addr b], st)
           | None \<Rightarrow> (case create_bucket_with_window X st keys k 0 UINT64_MAX of (a, st1) \<Rightarrow> Ok ([a], st1)))
      | NQL_WINDOW_SESSION \<Rightarrow>
          (let timeout_ns = ms_to_ns (timeout_ms (as_window st)) in
           case find (\<lambda>b. compare_group_keys (group_keys b) keys k \<and> window_end_ns b = UINT64_MAX
                        \<and> last_event_ns b \<le> ts \<and> ts - last_event_ns b < timeout_ns) (buckets st) of
             Some b \<Rightarrow> Ok ([b_addr b], st)
           | None \<Rightarrow> (case create_bucket_with_window X st keys k ts UINT64_MAX of (a, st1) \<Rightarrow> Ok ([a], st1)))
      | NQL_WINDOW_TUMBLING \<Rightarrow>
          (let sz = ms_to_ns (size_ms (as_window st)) in
           bind_outcome (udiv ts sz) (\<lambda>q.
             let start = q * sz in
             case find_bucket_by_window st keys k start of
               Some b \<Rightarrow> Ok ([b_addr b], st)
             | None \<Rightarrow> (case create_bucket_with_window X st keys k start (start + sz) of (a, st1) \<Rightarrow> Ok ([a], st1))))
      | NQL_WINDOW_SLIDING \<Rightarrow>
          (let sz = ms_to_ns (size_ms (as_window st));
               slide = (if 0 < slide_ms (as_window st) then ms_to_ns (slide_ms (as_window st)) else sz) in
           bind_outcome (udiv ts slide) (\<lambda>q.
             let start = q * slide; first = (if sz \<le> ts then ts - sz else 0) in
             bind_outcome (udiv first slide) (\<lambda>q1.
               let earliest = q1 * slide in
               bind_outcome (udiv (start - earliest) slide) (\<lambda>q2.
                 Ok (sliding_buckets X (unat (min (q2 + 1) MAX_SLIDING_WINDOWS)) keys k ts sz slide earliest st))))))"

section \<open>Update\<close>

definition f64_min_update :: "f64 \<Rightarrow> f64 \<Rightarrow> f64" where
  "f64_min_update v m = (if f64_lt v m then v else m)"

definition f64_max_update :: "f64 \<Rightarrow> f64 \<Rightarrow> f64" where
  "f64_max_update v m = (if f64_lt m v then v else m)"

text \<open>\<open>1e-9\<close> as a double.\<close>

definition DISTINCT_EPSILON :: f64 where
  "DISTINCT_EPSILON = f64_of_ratio False 1 1000000000"

definition seen_value :: "'j ext \<Rightarrow> f64 \<Rightarrow> 'j list \<Rightarrow> bool" where
  "seen_value X v vs = list_ex (\<lambda>e. json_is_number X e
     \<and> f64_lt (f64_abs (f64_sub (json_number X e) v)) DISTINCT_EPSILON) vs"

fun update_func :: "'j ext \<Rightarrow> nql_agg_func_type \<Rightarrow> f64 \<Rightarrow> 'j nql_agg_bucket \<Rightarrow> 'j nql_agg_bucket" where
  "update_func X NQL_AGG_COUNT v b = b"
| "update_func X NQL_AGG_SUM v b =
     b\<lparr>b_sum := f64_add (b_sum b) v, sum_squares := f64_add (sum_squares b) (f64_mul v v),
       b_min := f64_min_update v (b_min b), b_max := f64_max_update v (b_max b)\<rparr>"
| "update_func X NQL_AGG_AVG v b =
     b\<lparr>b_sum := f64_add (b_sum b) v, sum_squares := f64_add (sum_squares b) (f64_mul v v),
       b_min := f64_min_update v (b_min b), b_max := f64_max_update v (b_max b)\<rparr>"
| "update_func X NQL_AGG_MIN v b = b\<lparr>b_min := f64_min_update v (b_min b)\<rparr>"
| "update_func X NQL_AGG_MAX v b = b\<lparr>b_max := f64_max_update v (b_max b)\<rparr>"
| "update_func X NQL_AGG_PERCENTILE v b =
     b\<lparr>percentile_values := arr_append_new X (percentile_values b) (json_real X v)\<rparr>"
| "update_func X NQL_AGG_DISTINCT v b =
     (if seen_value X v (json_array_items X (distinct_values b)) then b
      else b\<lparr>distinct_values := arr_append_new X (distinct_values b) (json_real X v),
             distinct_count := distinct_count b + 1\<rparr>)"

definition update_funcs ::
  "'j ext \<Rightarrow> 'j event \<Rightarrow> nql_agg_func list \<Rightarrow> 'j nql_agg_bucket \<Rightarrow> 'j nql_agg_bucket" where
  "update_funcs X ev fs b0 = fold (\<lambda>f b. case af_field f of
      None \<Rightarrow> b
    | Some field \<Rightarrow> update_func X (af_type f) (get_numeric_value X (ev_data ev) field) b) fs b0"

text \<open>\<open>now\<close> is what \<open>nblex_timestamp_now\<close> returns if the code calls it (an event without a timestamp,
  in a session window).\<close>

definition update_bucket_with_event ::
  "'j ext \<Rightarrow> u64 \<Rightarrow> 'j event \<Rightarrow> 'j nql_agg_state \<Rightarrow> 'j nql_agg_bucket \<Rightarrow> 'j nql_agg_bucket" where
  "update_bucket_with_event X now ev st b =
     (let b1 = b\<lparr>b_count := b_count b + 1\<rparr>;
          t = (if ev_timestamp ev \<noteq> 0 then ev_timestamp ev else now);
          b2 = (if w_type (as_window st) = NQL_WINDOW_SESSION \<and> last_event_ns b1 < t
                then b1\<lparr>last_event_ns := t\<rparr> else b1)
      in update_funcs X ev (as_funcs st) b2)"

section \<open>Result event\<close>

text \<open>The exchange sort of the percentile values: one pass of the inner loop, and the outer loop.\<close>

fun exchange_pass :: "f64 \<Rightarrow> f64 list \<Rightarrow> f64 \<times> f64 list" where
  "exchange_pass x [] = (x, [])"
| "exchange_pass x (y # ys) =
     (if f64_lt y x then (case exchange_pass y ys of (m, zs) \<Rightarrow> (m, x # zs))
      else (case exchange_pass x ys of (m, zs) \<Rightarrow> (m, y # zs)))"

lemma exchange_pass_length: "exchange_pass x ys = (m, zs) \<Longrightarrow> length zs = length ys"
  by (induction x ys arbitrary: m zs rule: exchange_pass.induct) (auto split: if_splits prod.splits)

function exchange_sort :: "f64 list \<Rightarrow> f64 list" where
  "exchange_sort [] = []"
| "exchange_sort (x # xs) = (case exchange_pass x xs of (m, zs) \<Rightarrow> m # exchange_sort zs)"
  by pat_completeness auto

termination exchange_sort
  by (relation "measure length") (auto dest!: exchange_pass_length [OF sym])

text \<open>The index of a percentile; the conversion to \<open>size_t\<close> may not be defined.\<close>

definition percentile_index :: "f64 \<Rightarrow> nat \<Rightarrow> nat outcome" where
  "percentile_index p n =
     bind_outcome (f64_to_u64 (f64_mul (f64_div p (f64_of_int 100)) (f64_of_int (int n))))
       (\<lambda>i. Ok (if of_nat n \<le> i then n - 1 else unat i))"

text \<open>The name and the value of a function's result, \<open>None\<close> if one of them is NULL.\<close>

definition agg_metric :: "'j ext \<Rightarrow> 'j nql_agg_bucket \<Rightarrow> nql_agg_func \<Rightarrow> (string \<times> 'j) option outcome" where
  "agg_metric X b f =
     (let named = (\<lambda>pre v. Ok (case af_field f of
          None \<Rightarrow> None
        | Some field \<Rightarrow> map_option (Pair (if pre = [] then field else snprintf 256 (pre @ field))) v))
      in case af_type f of
        NQL_AGG_COUNT \<Rightarrow> Ok (Some (''count'', json_integer X (b_count b)))
      | NQL_AGG_SUM \<Rightarrow> named [] (json_real X (b_sum b))
      | NQL_AGG_AVG \<Rightarrow> named ''avg_'' (json_real X
          (if 0 < b_count b then f64_div (b_sum b) (f64_of_int (uint (b_count b))) else f64_zero))
      | NQL_AGG_MIN \<Rightarrow> named ''min_'' (json_real X (b_min b))
      | NQL_AGG_MAX \<Rightarrow> named ''max_'' (json_real X (b_max b))
      | NQL_AGG_DISTINCT \<Rightarrow> named ''distinct_'' (Some (json_integer X (distinct_count b)))
      | NQL_AGG_PERCENTILE \<Rightarrow>
          (let vs = map (json_number X) (json_array_items X (percentile_values b)) in
           if af_field f = None \<or> vs = [] then Ok None
           else bind_outcome (percentile_index (af_percentile f) (length vs)) (\<lambda>i.
             named (''p'' @ fmt_f 0 (af_percentile f) @ ''_'') (json_real X (exchange_sort vs ! i)))))"

fun agg_metrics :: "'j ext \<Rightarrow> 'j nql_agg_bucket \<Rightarrow> nql_agg_func list \<Rightarrow> 'j \<Rightarrow> 'j outcome" where
  "agg_metrics X b [] metrics = Ok metrics"
| "agg_metrics X b (f # fs) metrics =
     bind_outcome (agg_metric X b f) (\<lambda>m.
       agg_metrics X b fs (case m of None \<Rightarrow> metrics | Some (name, v) \<Rightarrow> obj_set_new X metrics name (Some v)))"

definition agg_groups :: "'j ext \<Rightarrow> string list \<Rightarrow> string list \<Rightarrow> 'j" where
  "agg_groups X names keys =
     fold (\<lambda>(f, k) ob. obj_set_new X ob f (json_string X k)) (zip names keys) (json_object X)"

definition create_agg_result_event ::
  "'j ext \<Rightarrow> u64 \<Rightarrow> 'j nql_agg_bucket \<Rightarrow> 'j nql_agg_state \<Rightarrow> 'j event outcome" where
  "create_agg_result_event X now b st =
     (let r0 = obj_set_new X (json_object X) ''nql_result_type'' (json_string X ''aggregation'');
          r1 = (if 0 < group_keys_count b \<and> as_group_by st \<noteq> []
                then obj_set_new X r0 ''group'' (Some (agg_groups X (as_group_by st)
                       (take (group_keys_count b) (case group_keys b of None \<Rightarrow> [] | Some ks \<Rightarrow> ks))))
                else r0)
      in bind_outcome (agg_metrics X b (as_funcs st) (json_object X)) (\<lambda>metrics.
        let r2 = obj_set_new X r1 ''metrics'' (Some metrics);
            i0 = obj_set_new X (json_object X) ''start_ns'' (Some (json_integer X (window_start_ns b)));
            i1 = obj_set_new X i0 ''end_ns'' (Some (json_integer X (window_end_ns b)));
            r3 = (if w_type (as_window st) \<noteq> NQL_WINDOW_NONE then obj_set_new X r2 ''window'' (Some i1) else r2)
        in Ok ((nblex_event_new now NBLEX_EVENT_LOG None)\<lparr>ev_data := Some r3\<rparr>)))"

end
