(* ===== verification/World.thy ===== *)
theory World
  imports Events
begin

text \<open>
  The world, event emission and the built-in correlation engine (\<open>src/core/nblex_world.c\<close>,
  \<open>nblex_event_emit\<close> of \<open>src/core/nblex_event.c\<close>, \<open>src/correlation/time_correlation.c\<close>).

  State is passed explicitly: the record \<open>world\<close> holds the members of \<open>struct nblex_world_s\<close>, with the
  correlation engine as a nested record (its \<open>world\<close> pointer is the enclosing world) and, as
  \<open>hr_tick\<close>, how many times the clock was read. The record is extensible: the nQL executor adds its
  global list of contexts, the command line its standard output. The event loop itself is not
  modelled; what it does is call the timer callbacks and the inputs, which are steps of the model.

  The event handler is a C function pointer: one of the three handler functions of the program in the
  state, and the parameter \<open>H\<close> gives what the functions do. Emission is re-entrant: a log event may make the correlation engine emit, and
  the handler may emit. The first recursion has depth one, because the engine ignores correlation
  events: \<open>emit_correlation\<close> is the inner call, and \<open>nblex_event_emit_correlation\<close> shows it is what
  \<open>nblex_event_emit\<close> does on such events.
\<close>

section \<open>State\<close>

datatype nblex_correlation_type = NBLEX_CORR_TIME_BASED | NBLEX_CORR_ID_BASED | NBLEX_CORR_CONNECTION

text \<open>A handler: which function of \<open>cli/main.c\<close> the pointer is, and the user data (a string or NULL).\<close>

datatype handler_fn = EVENT_HANDLER_JSON | EVENT_HANDLER_MULTI | EVENT_HANDLER_QUERY

type_synonym handler_ref = "handler_fn \<times> string option"

record 'j correlation =
  corr_type :: nblex_correlation_type
  window_ns :: u64
  log_events :: "'j event list"
  network_events :: "'j event list"
  log_events_count :: u64
  network_events_count :: u64
  timer_initialized :: bool
  correlations_found :: u64

record 'j world =
  opened :: bool
  started :: bool
  running :: bool
  inputs :: "nblex_input list"
  inputs_capacity :: nat
  event_handler :: "handler_ref option"
  correlation :: "'j correlation option"
  events_processed :: u64
  events_correlated :: u64
  hr_tick :: nat

type_synonym ('j, 'x) handlers = "handler_ref \<Rightarrow> 'j event \<Rightarrow> ('j, 'x) world_scheme \<Rightarrow> ('j, 'x) world_scheme outcome"

definition nblex_timestamp_now :: "'j ext \<Rightarrow> ('j, 'x) world_scheme \<Rightarrow> u64 \<times> ('j, 'x) world_scheme" where
  "nblex_timestamp_now X w = (uv_hrtime X (hr_tick w), w\<lparr>hr_tick := Suc (hr_tick w)\<rparr>)"

section \<open>Correlation engine\<close>

definition MAX_BUFFER_SIZE :: u64 where
  "MAX_BUFFER_SIZE = 10000"

definition nblex_correlation_new :: "'j correlation" where
  "nblex_correlation_new = \<lparr>corr_type = NBLEX_CORR_TIME_BASED, window_ns = 100 * 1000000,
     log_events = [], network_events = [], log_events_count = 0, network_events_count = 0,
     timer_initialized = False, correlations_found = 0\<rparr>"

definition nblex_correlation_add_strategy ::
  "'j correlation \<Rightarrow> nblex_correlation_type \<Rightarrow> u32 \<Rightarrow> int \<times> 'j correlation" where
  "nblex_correlation_add_strategy corr t window_ms =
     (0, corr\<lparr>corr_type := t, window_ns := ucast window_ms * 1000000\<rparr>)"

definition nblex_correlation_start :: "'j ext \<Rightarrow> 'j correlation \<Rightarrow> int \<times> 'j correlation" where
  "nblex_correlation_start X corr =
     (if uv_timer_init X \<noteq> 0 then (- 1, corr)
      else if uv_timer_start X \<noteq> 0 then (- 1, corr\<lparr>timer_initialized := False\<rparr>)
      else (0, corr\<lparr>timer_initialized := True\<rparr>))"

text \<open>A buffer is the linked list from its head; the newest event is first.\<close>

definition add_to_buffer :: "'j event list \<Rightarrow> u64 \<Rightarrow> 'j event \<Rightarrow> int \<times> 'j event list \<times> u64" where
  "add_to_buffer buffer count ev =
     (if MAX_BUFFER_SIZE \<le> count then (- 1, buffer, count)
      else (0, nblex_event_clone ev # buffer, count + 1))"

fun cleanup_old_events :: "'j event list \<Rightarrow> u64 \<Rightarrow> u64 \<Rightarrow> 'j event list \<times> u64" where
  "cleanup_old_events [] count cutoff_time = ([], count)"
| "cleanup_old_events (e # es) count cutoff_time =
     (if ev_timestamp e < cutoff_time then cleanup_old_events es (count - 1) cutoff_time
      else (case cleanup_old_events es count cutoff_time of (es', count') \<Rightarrow> (e # es', count')))"

text \<open>\<open>(int64_t)a - (int64_t)b\<close> and \<open>llabs(diff) <= (int64_t)window\<close>; signed overflow is undefined.\<close>

definition i64_diff :: "u64 \<Rightarrow> u64 \<Rightarrow> int outcome" where
  "i64_diff a b =
     (let d = sint a - sint b in if - (2 ^ 63) \<le> d \<and> d < 2 ^ 63 then Ok d else UB)"

definition within_window :: "u64 \<Rightarrow> u64 \<Rightarrow> u64 \<Rightarrow> bool outcome" where
  "within_window a b win = bind_outcome (i64_diff a b) (\<lambda>d.
     if d = - (2 ^ 63) then UB else Ok (\<bar>d\<bar> \<le> sint win))"

text \<open>The member of a result that shows the difference in milliseconds.\<close>

definition time_diff_ms :: "'j ext \<Rightarrow> int \<Rightarrow> 'j option" where
  "time_diff_ms X d = json_real X (f64_div (f64_of_int d) (f64_of_int 1000000))"

definition create_correlation_event ::
  "'j ext \<Rightarrow> u64 \<Rightarrow> 'j event \<Rightarrow> 'j event \<Rightarrow> 'j event outcome" where
  "create_correlation_event X win log_event network_event =
     (let d0 = obj_set_new X (json_object X) ''correlation_type'' (json_string X ''time_based'');
          d1 = obj_set_new X d0 ''window_ms'' (Some (json_integer X (win div 1000000)));
          d2 = obj_set_new X d1 ''log'' (ev_data log_event);
          d3 = obj_set_new X d2 ''network'' (ev_data network_event)
      in bind_outcome (i64_diff (ev_timestamp log_event) (ev_timestamp network_event)) (\<lambda>d.
        Ok \<lparr>ev_type = NBLEX_EVENT_CORRELATION, ev_timestamp = ev_timestamp log_event, ev_input = None,
            ev_data = Some (obj_set_new X d3 ''time_diff_ms'' (time_diff_ms X d))\<rparr>))"

section \<open>Emission\<close>

text \<open>\<open>nblex_event_emit\<close> with the call of the correlation engine as a parameter.\<close>

definition filtered_out :: "'j ext \<Rightarrow> 'j event \<Rightarrow> bool" where
  "filtered_out X ev = (case ev_input ev of
      None \<Rightarrow> False
    | Some i \<Rightarrow> (case in_filter i of None \<Rightarrow> False | Some f \<Rightarrow> \<not> nblex_filter_matches X f ev))"

definition emit_with ::
  "('j event \<Rightarrow> ('j, 'x) world_scheme \<Rightarrow> ('j, 'x) world_scheme outcome) \<Rightarrow> 'j ext \<Rightarrow> ('j, 'x) handlers \<Rightarrow>
   'j event \<Rightarrow> ('j, 'x) world_scheme \<Rightarrow> ('j, 'x) world_scheme outcome" where
  "emit_with process X H ev w =
     (if filtered_out X ev then Ok w
      else
        let w1 = w\<lparr>events_processed := events_processed w + 1\<rparr> in
        bind_outcome (if correlation w1 = None then Ok w1 else process ev w1) (\<lambda>w2.
          case event_handler w2 of None \<Rightarrow> Ok w2 | Some h \<Rightarrow> H h ev w2))"

definition emit_correlation ::
  "'j ext \<Rightarrow> ('j, 'x) handlers \<Rightarrow> 'j event \<Rightarrow> ('j, 'x) world_scheme \<Rightarrow> ('j, 'x) world_scheme outcome" where
  "emit_correlation = emit_with (\<lambda>ev. Ok)"

text \<open>The loop over the other buffer. The window is read from the engine in every iteration; an engine
  that was freed by the handler is undefined behaviour.\<close>

definition count_correlation :: "('j, 'x) world_scheme \<Rightarrow> ('j, 'x) world_scheme" where
  "count_correlation w = w\<lparr>
     correlation := map_option (\<lambda>c. c\<lparr>correlations_found := correlations_found c + 1\<rparr>) (correlation w),
     events_correlated := events_correlated w + 1\<rparr>"

fun check_entries ::
  "'j ext \<Rightarrow> ('j, 'x) handlers \<Rightarrow> 'j event \<Rightarrow> 'j event list \<Rightarrow> ('j, 'x) world_scheme \<Rightarrow>
   ('j, 'x) world_scheme outcome" where
  "check_entries X H new_event [] w = Ok w"
| "check_entries X H new_event (buffered # rest) w =
     (case correlation w of
        None \<Rightarrow> UB
      | Some corr \<Rightarrow>
          bind_outcome (within_window (ev_timestamp new_event) (ev_timestamp buffered) (window_ns corr)) (\<lambda>near.
          if near then
            bind_outcome
              (if ev_type new_event = NBLEX_EVENT_LOG
               then create_correlation_event X (window_ns corr) new_event buffered
               else create_correlation_event X (window_ns corr) buffered new_event) (\<lambda>ce.
            bind_outcome (emit_correlation X H ce (count_correlation w)) (\<lambda>w1.
              check_entries X H new_event rest w1))
          else check_entries X H new_event rest w))"

definition correlation_check_event ::
  "'j ext \<Rightarrow> ('j, 'x) handlers \<Rightarrow> 'j event \<Rightarrow> ('j, 'x) world_scheme \<Rightarrow> ('j, 'x) world_scheme outcome" where
  "correlation_check_event X H new_event w = (case correlation w of
      None \<Rightarrow> Ok w
    | Some corr \<Rightarrow> (case ev_type new_event of
        NBLEX_EVENT_LOG \<Rightarrow> check_entries X H new_event (network_events corr) w
      | NBLEX_EVENT_NETWORK \<Rightarrow> check_entries X H new_event (log_events corr) w
      | _ \<Rightarrow> Ok w))"

definition buffer_event :: "'j event \<Rightarrow> 'j correlation \<Rightarrow> 'j correlation" where
  "buffer_event ev corr = (case ev_type ev of
      NBLEX_EVENT_LOG \<Rightarrow>
        (case add_to_buffer (log_events corr) (log_events_count corr) ev of
           (_, b, n) \<Rightarrow> corr\<lparr>log_events := b, log_events_count := n\<rparr>)
    | NBLEX_EVENT_NETWORK \<Rightarrow>
        (case add_to_buffer (network_events corr) (network_events_count corr) ev of
           (_, b, n) \<Rightarrow> corr\<lparr>network_events := b, network_events_count := n\<rparr>)
    | _ \<Rightarrow> corr)"

definition nblex_correlation_process_event ::
  "'j ext \<Rightarrow> ('j, 'x) handlers \<Rightarrow> 'j event \<Rightarrow> ('j, 'x) world_scheme \<Rightarrow> ('j, 'x) world_scheme outcome" where
  "nblex_correlation_process_event X H ev w =
     bind_outcome (correlation_check_event X H ev w) (\<lambda>w1. case correlation w1 of
        None \<Rightarrow> if ev_type ev \<in> {NBLEX_EVENT_LOG, NBLEX_EVENT_NETWORK} then UB else Ok w1
      | Some corr \<Rightarrow> Ok (w1\<lparr>correlation := Some (buffer_event ev corr)\<rparr>))"

definition nblex_event_emit ::
  "'j ext \<Rightarrow> ('j, 'x) handlers \<Rightarrow> 'j event \<Rightarrow> ('j, 'x) world_scheme \<Rightarrow> ('j, 'x) world_scheme outcome" where
  "nblex_event_emit X H = emit_with (nblex_correlation_process_event X H) X H"

text \<open>The timer callback; the cutoff wraps.\<close>

definition cleanup_timer_cb :: "'j ext \<Rightarrow> ('j, 'x) world_scheme \<Rightarrow> ('j, 'x) world_scheme" where
  "cleanup_timer_cb X w = (case correlation w of
      None \<Rightarrow> w
    | Some corr \<Rightarrow> (case nblex_timestamp_now X w of (now, w1) \<Rightarrow>
        let cutoff = now - (window_ns corr * 2) in
        case cleanup_old_events (log_events corr) (log_events_count corr) cutoff of (ls, nl) \<Rightarrow>
        case cleanup_old_events (network_events corr) (network_events_count corr) cutoff of (ns, nn) \<Rightarrow>
        w1\<lparr>correlation := Some (corr\<lparr>log_events := ls, log_events_count := nl,
              network_events := ns, network_events_count := nn\<rparr>)\<rparr>))"

section \<open>Lifecycle\<close>

definition INITIAL_INPUTS_CAPACITY :: nat where
  "INITIAL_INPUTS_CAPACITY = 8"

definition nblex_world_new :: "'j world" where
  "nblex_world_new = \<lparr>opened = False, started = False, running = False, inputs = [],
     inputs_capacity = INITIAL_INPUTS_CAPACITY, event_handler = None, correlation = None,
     events_processed = 0, events_correlated = 0, hr_tick = 0\<rparr>"

definition nblex_world_open :: "('j, 'x) world_scheme \<Rightarrow> int \<times> ('j, 'x) world_scheme" where
  "nblex_world_open w =
     (if opened w then (- 1, w)
      else (0, w\<lparr>correlation := Some (snd (nblex_correlation_add_strategy nblex_correlation_new
                   NBLEX_CORR_TIME_BASED 100)), opened := True\<rparr>))"

text \<open>Starting and stopping an input changes its own data and the event loop only; \<open>V\<close> is the return
  code of the \<open>start\<close> function of a virtual table, by the name of the table.\<close>

fun start_inputs :: "(string \<Rightarrow> nblex_input \<Rightarrow> int) \<Rightarrow> nblex_input list \<Rightarrow> int" where
  "start_inputs V [] = 0"
| "start_inputs V (i # rest) = (case in_vtable i of
      None \<Rightarrow> start_inputs V rest
    | Some v \<Rightarrow> if V v i \<noteq> 0 then - 1 else start_inputs V rest)"

definition nblex_world_start ::
  "'j ext \<Rightarrow> (string \<Rightarrow> nblex_input \<Rightarrow> int) \<Rightarrow> ('j, 'x) world_scheme \<Rightarrow> int \<times> ('j, 'x) world_scheme" where
  "nblex_world_start X V w =
     (if \<not> opened w then (- 1, w)
      else if started w then (- 1, w)
      else (case (case correlation w of
                    None \<Rightarrow> (0, w)
                  | Some c \<Rightarrow> (case nblex_correlation_start X c of (rc, c') \<Rightarrow> (rc, w\<lparr>correlation := Some c'\<rparr>)))
        of (rc, w1) \<Rightarrow>
          if rc \<noteq> 0 then (- 1, w1)
          else if start_inputs V (inputs w1) \<noteq> 0 then (- 1, w1)
          else (0, w1\<lparr>started := True\<rparr>)))"

definition nblex_world_stop :: "('j, 'x) world_scheme \<Rightarrow> int \<times> ('j, 'x) world_scheme" where
  "nblex_world_stop w = (0, w\<lparr>started := False, running := False\<rparr>)"

text \<open>\<open>uv_run\<close> is the parameter: what the event loop does to the world until it returns.\<close>

definition nblex_world_run ::
  "(('j, 'x) world_scheme \<Rightarrow> ('j, 'x) world_scheme) \<Rightarrow> ('j, 'x) world_scheme \<Rightarrow> int \<times> ('j, 'x) world_scheme" where
  "nblex_world_run uv_run w =
     (if \<not> started w then (- 1, w) else (0, (uv_run (w\<lparr>running := True\<rparr>))\<lparr>running := False\<rparr>))"

definition nblex_set_event_handler ::
  "handler_ref option \<Rightarrow> ('j, 'x) world_scheme \<Rightarrow> int \<times> ('j, 'x) world_scheme" where
  "nblex_set_event_handler h w = (0, w\<lparr>event_handler := h\<rparr>)"

definition nblex_world_add_input ::
  "nblex_input \<Rightarrow> ('j, 'x) world_scheme \<Rightarrow> int \<times> ('j, 'x) world_scheme" where
  "nblex_world_add_input i w =
     (let w1 = (if inputs_capacity w \<le> length (inputs w) then w\<lparr>inputs_capacity := inputs_capacity w * 2\<rparr> else w)
      in (0, w1\<lparr>inputs := inputs w1 @ [i]\<rparr>))"

end
