(* ===== verification/Executor.thy ===== *)
theory Executor
  imports Aggregation World
begin

text \<open>
  The nQL executor (second part of \<open>src/core/nql_executor.c\<close>): execution contexts, the correlation
  state, the timer callbacks and the execution of queries.

  The world record is extended with the global list \<open>exec_contexts\<close>; all its contexts belong to the
  one world of the model. The union of a context is a datatype: reading the member that was not
  written is undefined behaviour. A pointer to the state of a context is the identifier of the
  context (contexts are never removed, so it is the number of contexts created before it).
\<close>

section \<open>State\<close>

record 'j nql_corr_state =
  cs_within_ms :: u32
  left_events :: "'j event list"
  right_events :: "'j event list"
  left_count :: u64
  right_count :: u64
  cleanup_timer :: bool
  cs_timer_active :: bool

datatype 'j ctx_state = AGG_STATE "'j nql_agg_state" | CORR_STATE "'j nql_corr_state"

datatype nql_query_type =
  TYPE_FILTER | TYPE_CORRELATE | TYPE_AGGREGATE | TYPE_SHOW | TYPE_PIPELINE

record 'j nql_exec_ctx =
  ctx_id :: nat
  ctx_query_type :: nql_query_type
  query_string :: "string option"
  ctx_state :: "'j ctx_state"

record 'j nql_world = "'j world" +
  exec_contexts :: "'j nql_exec_ctx list"

text \<open>The state of a process before any query was executed.\<close>

definition initial_world :: "'j nql_world" where
  "initial_world = world.extend nblex_world_new (nql_world.fields [])"

lemma initial_world_contexts [simp]: "exec_contexts initial_world = []"
  by (simp add: initial_world_def world.defs nql_world.defs)

type_synonym ('j, 'x) nql_handlers = "('j, ('j, 'x) nql_world_ext) handlers"

text \<open>Reading and writing a state through its pointer.\<close>

definition ctx_get :: "nat \<Rightarrow> ('j, 'x) nql_world_scheme \<Rightarrow> 'j ctx_state option" where
  "ctx_get i w = map_option ctx_state (find (\<lambda>c. ctx_id c = i) (exec_contexts w))"

definition ctx_put :: "nat \<Rightarrow> 'j ctx_state \<Rightarrow> ('j, 'x) nql_world_scheme \<Rightarrow> ('j, 'x) nql_world_scheme" where
  "ctx_put i s w = w\<lparr>exec_contexts :=
     map (\<lambda>c. if ctx_id c = i then c\<lparr>ctx_state := s\<rparr> else c) (exec_contexts w)\<rparr>"

definition agg_get :: "nat \<Rightarrow> ('j, 'x) nql_world_scheme \<Rightarrow> 'j nql_agg_state outcome" where
  "agg_get i w = (case ctx_get i w of Some (AGG_STATE st) \<Rightarrow> Ok st | _ \<Rightarrow> UB)"

definition corr_get :: "nat \<Rightarrow> ('j, 'x) nql_world_scheme \<Rightarrow> 'j nql_corr_state outcome" where
  "corr_get i w = (case ctx_get i w of Some (CORR_STATE st) \<Rightarrow> Ok st | _ \<Rightarrow> UB)"

section \<open>Contexts\<close>

text \<open>The loop over the contexts compares the query string only, not the query type.\<close>

definition find_ctx :: "string option \<Rightarrow> ('j, 'x) nql_world_scheme \<Rightarrow> 'j nql_exec_ctx option" where
  "find_ctx query_str w = (case query_str of
      None \<Rightarrow> None
    | Some q \<Rightarrow> find (\<lambda>c. query_string c = Some q) (exec_contexts w))"

definition add_ctx ::
  "nql_query_type \<Rightarrow> string option \<Rightarrow> 'j ctx_state \<Rightarrow> ('j, 'x) nql_world_scheme \<Rightarrow>
   nat \<times> ('j, 'x) nql_world_scheme" where
  "add_ctx t query_str s w =
     (length (exec_contexts w),
      w\<lparr>exec_contexts := \<lparr>ctx_id = length (exec_contexts w), ctx_query_type = t,
          query_string = query_str, ctx_state = s\<rparr> # exec_contexts w\<rparr>)"

definition agg_interval_ms :: "nql_window \<Rightarrow> u64" where
  "agg_interval_ms win =
     (if w_type win = NQL_WINDOW_SESSION then
        (let i = timeout_ms win div 2 in if i < 100 then 100 else i)
      else if 0 < slide_ms win then slide_ms win else size_ms win)"

definition start_agg_timer :: "bool \<Rightarrow> 'j nql_agg_state \<Rightarrow> 'j nql_agg_state" where
  "start_agg_timer world_started st =
     (if w_type (as_window st) \<noteq> NQL_WINDOW_NONE \<and> window_timer st = None \<and> world_started
      then st\<lparr>window_timer := Some (agg_interval_ms (as_window st)), as_timer_active := True\<rparr> else st)"

definition get_agg_state ::
  "nql_aggregate \<Rightarrow> string option \<Rightarrow> ('j, 'x) nql_world_scheme \<Rightarrow> (nat \<times> ('j, 'x) nql_world_scheme) outcome" where
  "get_agg_state agg query_str w = (case find_ctx query_str w of
      Some c \<Rightarrow> (case ctx_state c of AGG_STATE _ \<Rightarrow> Ok (ctx_id c, w) | CORR_STATE _ \<Rightarrow> UB)
    | None \<Rightarrow> Ok (add_ctx TYPE_AGGREGATE query_str
                (AGG_STATE (start_agg_timer (started w) (copy_agg_config agg))) w))"

definition start_corr_timer :: "bool \<Rightarrow> 'j nql_corr_state \<Rightarrow> 'j nql_corr_state" where
  "start_corr_timer world_started st =
     (if world_started \<and> \<not> cleanup_timer st then st\<lparr>cleanup_timer := True, cs_timer_active := True\<rparr> else st)"

definition new_corr_state :: "nql_correlate \<Rightarrow> 'j nql_corr_state" where
  "new_corr_state corr = \<lparr>cs_within_ms = ucast (within_ms corr), left_events = [], right_events = [],
     left_count = 0, right_count = 0, cleanup_timer = False, cs_timer_active = False\<rparr>"

definition get_corr_state ::
  "nql_correlate \<Rightarrow> string option \<Rightarrow> ('j, 'x) nql_world_scheme \<Rightarrow> (nat \<times> ('j, 'x) nql_world_scheme) outcome" where
  "get_corr_state corr query_str w = (case find_ctx query_str w of
      Some c \<Rightarrow> (case ctx_state c of CORR_STATE _ \<Rightarrow> Ok (ctx_id c, w) | AGG_STATE _ \<Rightarrow> UB)
    | None \<Rightarrow> Ok (add_ctx TYPE_CORRELATE query_str
                (CORR_STATE (start_corr_timer (started w) (new_corr_state corr))) w))"

text \<open>\<open>nblex_exec_contexts_shutdown_world\<close>: the contexts whose timer is stopped and closed.\<close>

definition nblex_exec_contexts_shutdown_world :: "'j nql_exec_ctx list \<Rightarrow> nat list" where
  "nblex_exec_contexts_shutdown_world ctxs = map ctx_id (filter (\<lambda>c.
     case ctx_query_type c of
       TYPE_CORRELATE \<Rightarrow> (case ctx_state c of CORR_STATE st \<Rightarrow> cs_timer_active st \<and> cleanup_timer st | _ \<Rightarrow> False)
     | TYPE_AGGREGATE \<Rightarrow> (case ctx_state c of AGG_STATE st \<Rightarrow> as_timer_active st \<and> window_timer st \<noteq> None | _ \<Rightarrow> False)
     | _ \<Rightarrow> False) ctxs)"

section \<open>Aggregation\<close>

definition update_bucket :: "nat \<Rightarrow> ('j nql_agg_bucket \<Rightarrow> 'j nql_agg_bucket) \<Rightarrow> 'j nql_agg_state \<Rightarrow> 'j nql_agg_state" where
  "update_bucket a f st = st\<lparr>buckets := map (\<lambda>b. if b_addr b = a then f b else b) (buckets st)\<rparr>"

text \<open>\<open>remove_bucket_from_list\<close>; addresses are unique.\<close>

fun remove_addr :: "nat \<Rightarrow> 'j nql_agg_bucket list \<Rightarrow> 'j nql_agg_bucket list" where
  "remove_addr a [] = []"
| "remove_addr a (b # bs) = (if b_addr b = a then bs else b # remove_addr a bs)"

definition remove_bucket_from_list :: "nat \<Rightarrow> 'j nql_agg_state \<Rightarrow> 'j nql_agg_state" where
  "remove_bucket_from_list a st =
     (if a \<in> b_addr ` set (buckets st)
      then st\<lparr>buckets := remove_addr a (buckets st), bucket_count := bucket_count st - 1\<rparr> else st)"

text \<open>The reset of a tumbling bucket for its next window.\<close>

definition reset_bucket :: "'j ext \<Rightarrow> u64 \<Rightarrow> u64 \<Rightarrow> 'j nql_agg_bucket \<Rightarrow> 'j nql_agg_bucket outcome" where
  "reset_bucket X now window_size_ns b =
     bind_outcome (udiv (now - window_start_ns b) window_size_ns) (\<lambda>windows_passed.
       let start = window_start_ns b + windows_passed * window_size_ns in
       Ok (b\<lparr>b_count := 0, b_sum := f64_zero, b_min := f64_infinity, b_max := f64_neg_infinity,
             sum_squares := f64_zero, distinct_count := 0, distinct_values := json_array X,
             percentile_values := json_array X, window_start_ns := start,
             window_end_ns := start + window_size_ns\<rparr>))"

text \<open>What the flush decides for one bucket: the bucket afterwards, \<open>should_flush\<close>, \<open>should_remove\<close>.\<close>

definition flush_decision ::
  "'j ext \<Rightarrow> u64 \<Rightarrow> nql_window \<Rightarrow> 'j nql_agg_bucket \<Rightarrow> ('j nql_agg_bucket \<times> bool \<times> bool) outcome" where
  "flush_decision X now win b = (case w_type win of
      NQL_WINDOW_SESSION \<Rightarrow>
        (let timed_out = 0 < b_count b \<and> ms_to_ns (timeout_ms win) \<le> now - last_event_ns b in
         Ok (b, timed_out, timed_out))
    | NQL_WINDOW_TUMBLING \<Rightarrow>
        (if window_end_ns b \<le> now then
           bind_outcome (reset_bucket X now (ms_to_ns (size_ms win)) b) (\<lambda>b1. Ok (b1, 0 < b_count b, False))
         else Ok (b, False, False))
    | NQL_WINDOW_SLIDING \<Rightarrow>
        (if window_end_ns b \<le> now then Ok (b, 0 < b_count b, True) else Ok (b, False, False))
    | NQL_WINDOW_NONE \<Rightarrow> Ok (b, False, False))"

definition emit_result ::
  "'j ext \<Rightarrow> ('j, 'x) nql_handlers \<Rightarrow> 'j nql_agg_bucket \<Rightarrow> 'j nql_agg_state \<Rightarrow> ('j, 'x) nql_world_scheme \<Rightarrow>
   ('j, 'x) nql_world_scheme outcome" where
  "emit_result X H b st w = (case nblex_timestamp_now X w of (t, w1) \<Rightarrow>
     bind_outcome (create_agg_result_event X t b st) (\<lambda>ev. nblex_event_emit X H ev w1))"

text \<open>One bucket of the flush, then the loop. A bucket that a re-entrant call removed is a use after free.\<close>

definition flush_bucket ::
  "'j ext \<Rightarrow> ('j, 'x) nql_handlers \<Rightarrow> nat \<Rightarrow> u64 \<Rightarrow> nat \<Rightarrow> ('j, 'x) nql_world_scheme \<Rightarrow>
   ('j, 'x) nql_world_scheme outcome" where
  "flush_bucket X H i now a w =
     bind_outcome (agg_get i w) (\<lambda>st.
     case find (\<lambda>b. b_addr b = a) (buckets st) of
       None \<Rightarrow> UB
     | Some b \<Rightarrow>
         bind_outcome (flush_decision X now (as_window st) b) (\<lambda>(b1, should_flush, should_remove).
         let st1 = update_bucket a (\<lambda>_. b1) st; w1 = ctx_put i (AGG_STATE st1) w in
         bind_outcome (if should_flush then emit_result X H b1 st1 w1 else Ok w1) (\<lambda>w2.
         if should_remove then
           bind_outcome (agg_get i w2) (\<lambda>st2. Ok (ctx_put i (AGG_STATE (remove_bucket_from_list a st2)) w2))
         else Ok w2)))"

fun flush_buckets ::
  "'j ext \<Rightarrow> ('j, 'x) nql_handlers \<Rightarrow> nat \<Rightarrow> u64 \<Rightarrow> nat list \<Rightarrow> ('j, 'x) nql_world_scheme \<Rightarrow>
   ('j, 'x) nql_world_scheme outcome" where
  "flush_buckets X H i now [] w = Ok w"
| "flush_buckets X H i now (a # as) w =
     bind_outcome (flush_bucket X H i now a w) (flush_buckets X H i now as)"

definition window_flush_cb ::
  "'j ext \<Rightarrow> ('j, 'x) nql_handlers \<Rightarrow> nat \<Rightarrow> ('j, 'x) nql_world_scheme \<Rightarrow> ('j, 'x) nql_world_scheme outcome" where
  "window_flush_cb X H i w = (case nblex_timestamp_now X w of (now, w1) \<Rightarrow>
     bind_outcome (agg_get i w1) (\<lambda>st.
     bind_outcome (flush_buckets X H i now (map b_addr (buckets st)) w1) (\<lambda>w2.
     bind_outcome (agg_get i w2) (\<lambda>st2.
       Ok (ctx_put i (AGG_STATE (st2\<lparr>last_flush_ns := now\<rparr>)) w2)))))"

text \<open>\<open>event->timestamp_ns ? event->timestamp_ns : nblex_timestamp_now()\<close>.\<close>

definition event_time :: "'j ext \<Rightarrow> 'j event \<Rightarrow> ('j, 'x) world_scheme \<Rightarrow> u64 \<times> ('j, 'x) world_scheme" where
  "event_time X ev w = (if ev_timestamp ev \<noteq> 0 then (ev_timestamp ev, w) else nblex_timestamp_now X w)"

fun update_buckets ::
  "'j ext \<Rightarrow> 'j event \<Rightarrow> nat list \<Rightarrow> 'j nql_agg_state \<Rightarrow> ('j, 'x) world_scheme \<Rightarrow>
   'j nql_agg_state \<times> ('j, 'x) world_scheme" where
  "update_buckets X ev [] st w = (st, w)"
| "update_buckets X ev (a # as) st w =
     (case (if w_type (as_window st) = NQL_WINDOW_SESSION then event_time X ev w else (ev_timestamp ev, w)) of
        (t, w1) \<Rightarrow> update_buckets X ev as (update_bucket a (update_bucket_with_event X t ev st) st) w1)"

definition execute_aggregate ::
  "'j ext \<Rightarrow> ('j, 'x) nql_handlers \<Rightarrow> nql_aggregate \<Rightarrow> 'j event \<Rightarrow> string option \<Rightarrow>
   ('j, 'x) nql_world_scheme \<Rightarrow> (bool \<times> ('j, 'x) nql_world_scheme) outcome" where
  "execute_aggregate X H agg ev query_str w =
     (if (case agg_where agg of None \<Rightarrow> False | Some f \<Rightarrow> \<not> nblex_filter_matches X f ev) then Ok (False, w)
      else
        bind_outcome (get_agg_state agg query_str w) (\<lambda>(i, w1).
        bind_outcome (agg_get i w1) (\<lambda>st0.
        let st1 = start_agg_timer (started w1) st0 in
        case extract_group_keys X st1 ev of (keys, k) \<Rightarrow>
        case event_time X ev w1 of (ts, w2) \<Rightarrow>
        bind_outcome (get_or_create_buckets_for_event X st1 keys k ts) (\<lambda>(addrs, st2).
        case update_buckets X ev addrs st2 w2 of (st3, w3) \<Rightarrow>
        let w4 = ctx_put i (AGG_STATE st3) w3 in
        bind_outcome
          (if w_type (as_window st3) = NQL_WINDOW_NONE \<and> addrs \<noteq> [] then
             (case find (\<lambda>b. b_addr b = hd addrs) (buckets st3) of
                None \<Rightarrow> UB
              | Some b \<Rightarrow> emit_result X H b st3 w4)
           else Ok w4)
          (\<lambda>w5. Ok (True, w5))))))"

section \<open>Correlation queries\<close>

definition add_corr_event :: "'j event \<Rightarrow> bool \<Rightarrow> 'j nql_corr_state \<Rightarrow> 'j nql_corr_state" where
  "add_corr_event ev is_left st =
     (if is_left then st\<lparr>left_events := nblex_event_clone ev # left_events st, left_count := left_count st + 1\<rparr>
      else st\<lparr>right_events := nblex_event_clone ev # right_events st, right_count := right_count st + 1\<rparr>)"

definition corr_cleanup_cb ::
  "'j ext \<Rightarrow> nat \<Rightarrow> ('j, 'x) nql_world_scheme \<Rightarrow> ('j, 'x) nql_world_scheme outcome" where
  "corr_cleanup_cb X i w = (case nblex_timestamp_now X w of (now, w1) \<Rightarrow>
     bind_outcome (corr_get i w1) (\<lambda>st.
       let cutoff = now - ucast (cs_within_ms st) * 1000000 * 2 in
       case cleanup_old_events (left_events st) (left_count st) cutoff of (ls, nl) \<Rightarrow>
       case cleanup_old_events (right_events st) (right_count st) cutoff of (rs, nr) \<Rightarrow>
       Ok (ctx_put i (CORR_STATE (st\<lparr>left_events := ls, left_count := nl,
             right_events := rs, right_count := nr\<rparr>)) w1)))"

definition create_corr_result_event ::
  "'j ext \<Rightarrow> 'j event \<Rightarrow> 'j event \<Rightarrow> nql_correlate \<Rightarrow> 'j event outcome" where
  "create_corr_result_event X left_event right_event corr =
     (let d0 = obj_set_new X (json_object X) ''nql_result_type'' (json_string X ''correlation'');
          d1 = obj_set_new X d0 ''window_ms'' (Some (json_integer X (within_ms corr)));
          d2 = obj_set_new X d1 ''left_event'' (ev_data left_event);
          d3 = obj_set_new X d2 ''right_event'' (ev_data right_event)
      in bind_outcome (i64_diff (ev_timestamp left_event) (ev_timestamp right_event)) (\<lambda>d.
        Ok \<lparr>ev_type = NBLEX_EVENT_CORRELATION,
            ev_timestamp = (if ev_timestamp right_event < ev_timestamp left_event
                            then ev_timestamp left_event else ev_timestamp right_event),
            ev_input = None, ev_data = Some (obj_set_new X d3 ''time_diff_ms'' (time_diff_ms X d))\<rparr>))"

text \<open>The loop over the other buffer; \<open>is_left\<close> says that the event is the left one of the pair. Creating
  the result reads the clock once.\<close>

fun corr_matches ::
  "'j ext \<Rightarrow> ('j, 'x) nql_handlers \<Rightarrow> nql_correlate \<Rightarrow> bool \<Rightarrow> 'j event \<Rightarrow> 'j event list \<Rightarrow>
   ('j, 'x) nql_world_scheme \<Rightarrow> ('j, 'x) nql_world_scheme outcome" where
  "corr_matches X H corr is_left ev [] w = Ok w"
| "corr_matches X H corr is_left ev (e # es) w =
     bind_outcome (within_window (ev_timestamp ev) (ev_timestamp e) (ms_to_ns (within_ms corr))) (\<lambda>near.
     if near then
       bind_outcome (if is_left then create_corr_result_event X ev e corr
                     else create_corr_result_event X e ev corr) (\<lambda>r.
       bind_outcome (nblex_event_emit X H r (snd (nblex_timestamp_now X w))) (\<lambda>w1.
         corr_matches X H corr is_left ev es w1))
     else corr_matches X H corr is_left ev es w)"

definition corr_side ::
  "'j ext \<Rightarrow> ('j, 'x) nql_handlers \<Rightarrow> nql_correlate \<Rightarrow> nat \<Rightarrow> bool \<Rightarrow> 'j event \<Rightarrow>
   ('j, 'x) nql_world_scheme \<Rightarrow> ('j, 'x) nql_world_scheme outcome" where
  "corr_side X H corr i is_left ev w =
     bind_outcome (corr_get i w) (\<lambda>st.
       let st1 = add_corr_event ev is_left st in
       corr_matches X H corr is_left ev (if is_left then right_events st1 else left_events st1)
         (ctx_put i (CORR_STATE st1) w))"

definition execute_correlate ::
  "'j ext \<Rightarrow> ('j, 'x) nql_handlers \<Rightarrow> nql_correlate \<Rightarrow> 'j event \<Rightarrow> string option \<Rightarrow>
   ('j, 'x) nql_world_scheme \<Rightarrow> (bool \<times> ('j, 'x) nql_world_scheme) outcome" where
  "execute_correlate X H corr ev query_str w =
     (let matches_left = (case left_filter corr of None \<Rightarrow> False | Some f \<Rightarrow> nblex_filter_matches X f ev);
          matches_right = (case right_filter corr of None \<Rightarrow> False | Some f \<Rightarrow> nblex_filter_matches X f ev)
      in if \<not> matches_left \<and> \<not> matches_right then Ok (False, w)
      else
        bind_outcome (get_corr_state corr query_str w) (\<lambda>(i, w1).
        bind_outcome (corr_get i w1) (\<lambda>st0.
        let w2 = ctx_put i (CORR_STATE (start_corr_timer (started w1) st0)) w1 in
        bind_outcome (if matches_left then corr_side X H corr i True ev w2 else Ok w2) (\<lambda>w3.
        bind_outcome (if matches_right then corr_side X H corr i False ev w3 else Ok w3) (\<lambda>w4.
          Ok (True, w4))))))"

section \<open>Queries\<close>

definition execute_filter :: "'j ext \<Rightarrow> filter_t \<Rightarrow> 'j event \<Rightarrow> bool" where
  "execute_filter X f ev = nblex_filter_matches X f ev"

definition execute_show :: "'j ext \<Rightarrow> nql_show \<Rightarrow> 'j event \<Rightarrow> bool" where
  "execute_show X s ev = (case show_where s of None \<Rightarrow> True | Some f \<Rightarrow> nblex_filter_matches X f ev)"

fun execute_query ::
    "'j ext \<Rightarrow> ('j, 'x) nql_handlers \<Rightarrow> nql_query \<Rightarrow> 'j event \<Rightarrow> string option \<Rightarrow>
     ('j, 'x) nql_world_scheme \<Rightarrow> (bool \<times> ('j, 'x) nql_world_scheme) outcome"
  and execute_pipeline ::
    "'j ext \<Rightarrow> ('j, 'x) nql_handlers \<Rightarrow> nql_query list \<Rightarrow> 'j event \<Rightarrow> string option \<Rightarrow>
     ('j, 'x) nql_world_scheme \<Rightarrow> (bool \<times> ('j, 'x) nql_world_scheme) outcome" where
  "execute_query X H (NQL_QUERY_FILTER f) ev q w = Ok (execute_filter X f ev, w)"
| "execute_query X H (NQL_QUERY_CORRELATE c) ev q w = execute_correlate X H c ev q w"
| "execute_query X H (NQL_QUERY_SHOW s) ev q w = Ok (execute_show X s ev, w)"
| "execute_query X H (NQL_QUERY_AGGREGATE a) ev q w = execute_aggregate X H a ev q w"
| "execute_query X H (NQL_QUERY_PIPELINE stages) ev q w = execute_pipeline X H stages ev q w"
| "execute_pipeline X H [] ev q w = Ok (True, w)"
| "execute_pipeline X H (s # stages) ev q w =
     bind_outcome (execute_query X H s ev q w) (\<lambda>(matched, w1).
       if matched then execute_pipeline X H stages ev q w1 else Ok (False, w1))"

definition nql_execute ::
  "'j ext \<Rightarrow> ('j, 'x) nql_handlers \<Rightarrow> string option \<Rightarrow> 'j event \<Rightarrow> ('j, 'x) nql_world_scheme \<Rightarrow>
   (bool \<times> ('j, 'x) nql_world_scheme) outcome" where
  "nql_execute X H query_str ev w = (case nql_parse X query_str of
      None \<Rightarrow> Ok (False, w)
    | Some q \<Rightarrow> execute_query X H q ev query_str w)"

end
