(* ===== verification/Agg_Props.thy ===== *)
theory Agg_Props
  imports Executor "HOL-Library.Multiset"
begin

text \<open>
  Correctness of the aggregation part of the executor: the percentile sort, the windows an event is
  put in, the result of a flush, and the grouping of events by a query without a window (lemmas on one
  state; the theorems about whole runs of the executor are in theory \<open>Group_Props\<close>).
\<close>

section \<open>Sorting\<close>

lemma exchange_pass_mset: "exchange_pass x ys = (m, zs) \<Longrightarrow> add_mset m (mset zs) = add_mset x (mset ys)"
proof (induction x ys arbitrary: m zs rule: exchange_pass.induct)
  case (2 x y ys)
  show ?case
  proof (cases "f64_lt y x")
    case True
    then obtain ws where "exchange_pass y ys = (m, ws)" "zs = x # ws"
      using "2.prems" by (auto split: prod.splits)
    with "2.IH"(1) [OF True] show ?thesis by simp
  next
    case False
    then obtain ws where "exchange_pass x ys = (m, ws)" "zs = y # ws"
      using "2.prems" by (auto split: prod.splits)
    with "2.IH"(2) [OF False] show ?thesis by (simp add: add_mset_commute)
  qed
qed simp

lemma exchange_pass_set: "exchange_pass x ys = (m, zs) \<Longrightarrow> insert m (set zs) = insert x (set ys)"
  using exchange_pass_mset [THEN arg_cong [of _ _ set_mset]] by force

lemma exchange_pass_min:
  assumes "exchange_pass x ys = (m, zs)" and "list_all f64_finite (x # ys)"
  shows "\<forall>z \<in> set (x # ys). f64_val m \<le> f64_val z"
  using assms
proof (induction x ys arbitrary: m zs rule: exchange_pass.induct)
  case (2 x y ys)
  show ?case
  proof (cases "f64_lt y x")
    case True
    then obtain ws where "exchange_pass y ys = (m, ws)" using "2.prems" by (auto split: prod.splits)
    then have "\<forall>z \<in> set (y # ys). f64_val m \<le> f64_val z" using "2.IH"(1) [OF True] "2.prems" by simp
    moreover have "f64_val y < f64_val x" using True "2.prems" f64_lt_val by auto
    ultimately show ?thesis by auto
  next
    case False
    then obtain ws where "exchange_pass x ys = (m, ws)" using "2.prems" by (auto split: prod.splits)
    then have "\<forall>z \<in> set (x # ys). f64_val m \<le> f64_val z" using "2.IH"(2) [OF False] "2.prems" by simp
    moreover have "f64_val x \<le> f64_val y" using False "2.prems" f64_lt_val [of y x] by auto
    ultimately show ?thesis by auto
  qed
qed simp

lemma exchange_sort_mset: "mset (exchange_sort xs) = mset xs"
proof (induction xs rule: exchange_sort.induct)
  case (2 x xs)
  obtain m zs where "exchange_pass x xs = (m, zs)" by fastforce
  with "2.IH" exchange_pass_mset show ?case by fastforce
qed simp

lemma exchange_sort_set: "set (exchange_sort xs) = set xs"
  using exchange_sort_mset [of xs] mset_eq_setD by blast

lemma exchange_sort_length: "length (exchange_sort xs) = length xs"
  using exchange_sort_mset [of xs] mset_eq_length by blast

text \<open>C16: the exchange sort of the percentile computation sorts: for recorded values (always finite) the
  result is a permutation of them in ascending order of the numbers they stand for.\<close>

theorem exchange_sort_correct:
  assumes "list_all f64_finite xs"
  shows "mset (exchange_sort xs) = mset xs \<and> sorted (map f64_val (exchange_sort xs))"
  using assms
proof (induction xs rule: exchange_sort.induct)
  case (2 x xs)
  obtain m zs where m: "exchange_pass x xs = (m, zs)" by fastforce
  have set: "insert m (set zs) = insert x (set xs)" using exchange_pass_set [OF m] .
  then have "list_all f64_finite zs" using "2.prems" by (auto simp: list_all_iff)
  with "2.IH" [OF m [symmetric]] have "sorted (map f64_val (exchange_sort zs))" by blast
  moreover have "\<forall>z \<in> set (exchange_sort zs). f64_val m \<le> f64_val z"
    using exchange_pass_min [OF m "2.prems"] set exchange_sort_set [of zs] by auto
  moreover have "mset (exchange_sort (x # xs)) = mset (x # xs)" by (rule exchange_sort_mset)
  ultimately show ?case using m by simp
qed simp

theorem exchange_sort_correct_witness:
  "let xs = [f64_of_int 30, f64_of_int 10, f64_of_int 20]
   in mset (exchange_sort xs) = mset xs \<and> sorted (map f64_val (exchange_sort xs))
      \<and> exchange_sort xs = [f64_of_int 10, f64_of_int 20, f64_of_int 30]"
proof -
  have "list_all f64_finite [f64_of_int 30, f64_of_int 10, f64_of_int 20]" by code_simp
  moreover have "exchange_sort [f64_of_int 30, f64_of_int 10, f64_of_int 20] =
      [f64_of_int 10, f64_of_int 20, f64_of_int 30]" by code_simp
  ultimately show ?thesis using exchange_sort_correct unfolding Let_def by blast
qed

section \<open>Percentiles\<close>

lemma percentile_index_less: "percentile_index p n = Ok i \<Longrightarrow> 0 < n \<Longrightarrow> n < 2 ^ 64 \<Longrightarrow> i < n"
proof -
  assume "percentile_index p n = Ok i" and n: "0 < n" "n < 2 ^ 64"
  then obtain j :: u64 where i: "i = (if of_nat n \<le> j then n - 1 else unat j)"
    by (auto simp: percentile_index_def outcome_simps)
  show "i < n"
  proof (cases "of_nat n \<le> j")
    case False
    then have "unat j < unat (of_nat n :: u64)" by (simp add: word_le_nat_alt)
    with False n i show ?thesis by (simp add: unat_of_nat)
  qed (use n i in simp)
qed

text \<open>a percentile is reported under its name, and its value is one of the values recorded in the
  bucket (never an interpolated or out-of-range element), with all recorded values before it in the
  sorted order not greater and all after it not smaller.\<close>

theorem percentile_metric:
  assumes "jansson X" and "agg_metric X b f = Ok (Some (name, v))"
    and "af_type f = NQL_AGG_PERCENTILE" and "af_field f = Some field"
    and "vs = map (json_number X) (json_array_items X (percentile_values b))" and "length vs < 2 ^ 64"
  shows "name = snprintf 256 (''p'' @ fmt_f 0 (af_percentile f) @ ''_'' @ field)
    \<and> (\<exists>i < length vs. percentile_index (af_percentile f) (length vs) = Ok i
        \<and> json_typeof X v = JSON_REAL \<and> json_real_value X v = exchange_sort vs ! i
        \<and> exchange_sort vs ! i \<in> set vs)"
proof -
  have vs: "vs \<noteq> []" using assms(2-5) by (auto simp: agg_metric_def Let_def)
  then obtain i where i: "percentile_index (af_percentile f) (length vs) = Ok i"
    and v: "json_real X (exchange_sort vs ! i) = Some v"
    and name: "name = snprintf 256 (''p'' @ fmt_f 0 (af_percentile f) @ ''_'' @ field)"
    using assms(2-5) by (auto simp: agg_metric_def Let_def outcome_simps)
  have "i < length vs" using percentile_index_less [OF i] vs assms(6) by simp
  then have "exchange_sort vs ! i \<in> set vs"
    using exchange_sort_length [of vs] exchange_sort_set [of vs] nth_mem by metis
  with \<open>i < length vs\<close> i name jansson.real_value [OF assms(1) v] show ?thesis by blast
qed

theorem percentile_metric_witness:
  "let X = tree_ext (\<lambda>_. None) (\<lambda>_. None) (\<lambda>_. True) (\<lambda>_ _. 0) (\<lambda>_. 0);
       b = (new_bucket X 0 None 0 0 UINT64_MAX)\<lparr>percentile_values :=
              JArr [JReal (f64_of_int 7), JReal (f64_of_int 3), JReal (f64_of_int 5), JReal (f64_of_int 1)]\<rparr>;
       f = new_func NQL_AGG_PERCENTILE (Some ''ms'') (f64_of_int 50)
   in agg_metric X b f = Ok (Some (''p50_ms'', JReal (f64_of_int 5)))
      \<and> f64_of_int 5 \<in> set (map (json_number X) (json_array_items X (percentile_values b)))"
proof -
  let ?X = "tree_ext (\<lambda>_. None) (\<lambda>_. None) (\<lambda>_. True) (\<lambda>_ _. 0) (\<lambda>_. 0)"
  let ?b = "(new_bucket ?X 0 None 0 0 UINT64_MAX)\<lparr>percentile_values :=
      JArr [JReal (f64_of_int 7), JReal (f64_of_int 3), JReal (f64_of_int 5), JReal (f64_of_int 1)]\<rparr>"
  let ?f = "new_func NQL_AGG_PERCENTILE (Some ''ms'') (f64_of_int 50)"
  let ?vs = "map (json_number ?X) (json_array_items ?X (percentile_values ?b))"
  have m: "agg_metric ?X ?b ?f = Ok (Some (''p50_ms'', JReal (f64_of_int 5)))" by code_simp
  have "af_type ?f = NQL_AGG_PERCENTILE" "af_field ?f = Some ''ms''" by (simp_all add: new_func_def)
  moreover have "length ?vs < 2 ^ 64" by simp
  ultimately have "\<exists>i < length ?vs. json_real_value ?X (JReal (f64_of_int 5)) = exchange_sort ?vs ! i
      \<and> exchange_sort ?vs ! i \<in> set ?vs"
    using percentile_metric [OF tree.jansson_axioms m _ _ refl] by blast
  then have "f64_of_int 5 \<in> set ?vs" by (simp only: tree_ext_simps) metis
  with m show ?thesis unfolding Let_def by blast
qed

section \<open>Windows\<close>

lemma find_Some_D: "find P xs = Some x \<Longrightarrow> x \<in> set xs \<and> P x"
  by (induction xs) (auto split: if_splits)

definition addrs_ok :: "'j nql_agg_state \<Rightarrow> bool" where
  "addrs_ok st \<longleftrightarrow> distinct (map b_addr (buckets st)) \<and> (\<forall>b \<in> set (buckets st). b_addr b < next_addr st)
     \<and> bucket_count st = length (buckets st)"

lemma create_bucket_addrs_ok:
  "addrs_ok st \<Longrightarrow> create_bucket_with_window X st keys k s e = (a, st') \<Longrightarrow> addrs_ok st'"
  by (fastforce simp: addrs_ok_def create_bucket_with_window_def new_bucket_def less_Suc_eq)

lemma udiv_Ok: "udiv a b = Ok q \<longleftrightarrow> b \<noteq> 0 \<and> q = a div b"
  by (auto simp: udiv_def)

lemma window_start_le: "((ts :: u64) div sz) * sz \<le> ts"
  by (simp add: div_word_self word_div_mult_le)

text \<open>C14: in a tumbling window every event falls into exactly one bucket, of its own group, that starts at
  the largest multiple of the window size not after the event and ends one size later, so the event
  lies inside it; the state keeps the invariant on addresses, count and window ends.\<close>

theorem tumbling_window:
  assumes "w_type (as_window st) = NQL_WINDOW_TUMBLING"
    and "get_or_create_buckets_for_event X st keys k ts = Ok (addrs, st')"
    and "sz = ms_to_ns (size_ms (as_window st))" and "uint ts + uint sz < 2 ^ 64"
    and "addrs_ok st" and "\<forall>b \<in> set (buckets st). window_end_ns b = window_start_ns b + sz"
  shows "addrs_ok st' \<and> (\<forall>b \<in> set (buckets st'). window_end_ns b = window_start_ns b + sz)
    \<and> (\<exists>b \<in> set (buckets st'). addrs = [b_addr b] \<and> compare_group_keys (group_keys b) keys k
        \<and> uint (window_start_ns b) = uint ts div uint sz * uint sz
        \<and> uint (window_end_ns b) = uint (window_start_ns b) + uint sz
        \<and> window_start_ns b \<le> ts \<and> ts < window_end_ns b)"
proof -
  have "sz \<noteq> 0" using assms(1-3) by (auto simp: get_or_create_buckets_for_event_def udiv_def Let_def)
  then have sz: "0 < uint sz" by (simp add: word_neq_0_conv word_less_def)
  let ?start = "(ts div sz) * sz"
  have le: "uint ts div uint sz * uint sz \<le> uint ts" using div_mult_mod_eq [of "uint ts" "uint sz"] pos_mod_sign [OF sz, of "uint ts"] by linarith
  then have "uint ts div uint sz * uint sz < 2 ^ 64" using assms(4) sz by linarith
  moreover have "0 \<le> uint ts div uint sz * uint sz" using sz by (simp add: pos_imp_zdiv_nonneg_iff)
  ultimately have start: "uint ?start = uint ts div uint sz * uint sz"
    by (simp add: uint_word_ariths uint_div_distrib)
  have "uint ?start + uint sz < 2 ^ 64" using le assms(4) start by linarith
  then have end_ns: "uint (?start + sz) = uint ?start + uint sz" by (simp add: uint_word_ariths)
  have "uint ts < uint ts div uint sz * uint sz + uint sz"
    using sz div_mult_mod_eq [of "uint ts" "uint sz"] pos_mod_bound [OF sz, of "uint ts"] by linarith
  then have inside: "?start \<le> ts" "ts < ?start + sz"
    using le start end_ns by (simp_all add: word_le_def word_less_def)
  show ?thesis
  proof (cases "find_bucket_by_window st keys k ?start")
    case None
    with assms(1-3) \<open>sz \<noteq> 0\<close> have c: "create_bucket_with_window X st keys k ?start (?start + sz) = (hd addrs, st')"
      and a: "addrs = [hd addrs]"
      by (auto simp: get_or_create_buckets_for_event_def udiv_def Let_def split: prod.splits)
    let ?b = "new_bucket X (next_addr st) keys k ?start (?start + sz)"
    have st': "buckets st' = ?b # buckets st" and ad: "hd addrs = b_addr ?b"
      using c by (auto simp: create_bucket_with_window_def new_bucket_def)
    have "compare_group_keys (group_keys ?b) keys k"
      by (auto simp: new_bucket_def compare_group_keys_def split: option.splits)
    moreover have "window_start_ns ?b = ?start" "window_end_ns ?b = ?start + sz" by (simp_all add: new_bucket_def)
    ultimately show ?thesis
      using st' ad a inside start end_ns assms(6) create_bucket_addrs_ok [OF assms(5) c]
      by (intro conjI bexI [of _ ?b]) auto
  next
    case (Some b)
    then have b: "b \<in> set (buckets st)" "compare_group_keys (group_keys b) keys k" "window_start_ns b = ?start"
      using find_Some_D by (fastforce simp: find_bucket_by_window_def)+
    have "addrs = [b_addr b]" "st' = st"
      using Some assms(1-3) \<open>sz \<noteq> 0\<close>
      by (auto simp: get_or_create_buckets_for_event_def udiv_def Let_def)
    with b inside start end_ns assms(5,6) show ?thesis by (intro conjI bexI [of _ b]) auto
  qed
qed

theorem tumbling_window_witness:
  "let X = tree_ext (\<lambda>_. None) (\<lambda>_. None) (\<lambda>_. True) (\<lambda>_ _. 0) (\<lambda>_. 0);
       st = (copy_agg_config \<lparr>funcs = [], group_by_fields = [], agg_where = None,
               agg_window = window NQL_WINDOW_TUMBLING 60000 0 0\<rparr> :: jtree nql_agg_state)
   in \<exists>a st' b. get_or_create_buckets_for_event X st None 0 150000000000 = Ok ([a], st')
        \<and> b \<in> set (buckets st') \<and> b_addr b = a
        \<and> uint (window_start_ns b) = 120000000000 \<and> uint (window_end_ns b) = 180000000000"
proof -
  let ?X = "tree_ext (\<lambda>_. None) (\<lambda>_. None) (\<lambda>_. True) (\<lambda>_ _. 0) (\<lambda>_. 0)"
  let ?st = "copy_agg_config \<lparr>funcs = [], group_by_fields = [], agg_where = None,
      agg_window = window NQL_WINDOW_TUMBLING 60000 0 0\<rparr> :: jtree nql_agg_state"
  have w: "as_window ?st = window NQL_WINDOW_TUMBLING 60000 0 0" by (simp add: copy_agg_config_def)
  have "get_or_create_buckets_for_event ?X ?st None 0 150000000000 \<noteq> UB"
    by (simp add: get_or_create_buckets_for_event_def w window_def ms_to_ns_def udiv_def
        find_bucket_by_window_def create_bucket_with_window_def copy_agg_config_def Let_def)
  then obtain addrs st' where g: "get_or_create_buckets_for_event ?X ?st None 0 150000000000 = Ok (addrs, st')"
    by (metis outcome.exhaust prod.exhaust)
  have t: "w_type (as_window ?st) = NQL_WINDOW_TUMBLING" using w by (simp add: window_def)
  have s: "60000000000 = ms_to_ns (size_ms (as_window ?st))" using w by (simp add: window_def ms_to_ns_def)
  have "addrs_ok ?st" "\<forall>b \<in> set (buckets ?st). window_end_ns b = window_start_ns b + 60000000000"
    by (simp_all add: addrs_ok_def copy_agg_config_def)
  from tumbling_window [OF t g s _ this] obtain b where "b \<in> set (buckets st')" "addrs = [b_addr b]"
    "uint (window_start_ns b) = 120000000000" "uint (window_end_ns b) = 180000000000"
    by auto
  with g show ?thesis unfolding Let_def by blast
qed

text \<open>C19: a sliding window never counts an event whose timestamp is at least the window size: the search
  starts at or before \<open>timestamp - size\<close>, the first candidate window has already ended there, and the
  loop stops at once. No bucket is found or created, so such a query never has a result.\<close>

theorem sliding_window_empty:
  assumes "w_type (as_window st) = NQL_WINDOW_SLIDING"
    and "sz = ms_to_ns (size_ms (as_window st))" and "sz \<le> ts"
    and "slide = (if 0 < slide_ms (as_window st) then ms_to_ns (slide_ms (as_window st)) else sz)"
    and "0 < slide"
  shows "get_or_create_buckets_for_event X st keys k ts = Ok ([], st)"
proof -
  let ?e = "(ts - sz) div slide * slide"
  have "slide \<noteq> 0" using assms(5) by auto
  have "?e \<le> ts - sz" by (rule window_start_le)
  then have "uint ?e \<le> uint ts - uint sz"
    using assms(3) by (simp add: word_le_def uint_sub_lem [THEN iffD1])
  moreover have "uint ts < 2 ^ 64" using uint_lt2p [of ts] by simp
  ultimately have "uint ?e + uint sz < 2 ^ 64" by linarith
  then have "uint (?e + sz) = uint ?e + uint sz" by (simp add: uint_word_ariths)
  with \<open>uint ?e \<le> uint ts - uint sz\<close> have "\<not> ts < ?e + sz" by (simp add: word_less_def)
  then have "sliding_buckets X n keys k ts sz slide ?e st = ([], st)" for n
    by (cases n) auto
  then show ?thesis
    unfolding get_or_create_buckets_for_event_def assms(1) Let_def assms(2) [symmetric] assms(4) [symmetric]
    using assms(3) \<open>slide \<noteq> 0\<close> by (simp add: udiv_def)
qed

theorem sliding_window_empty_witness:
  "let X = tree_ext (\<lambda>_. None) (\<lambda>_. None) (\<lambda>_. True) (\<lambda>_ _. 0) (\<lambda>_. 0);
       st = (copy_agg_config \<lparr>funcs = [], group_by_fields = [], agg_where = None,
               agg_window = window NQL_WINDOW_SLIDING 300000 60000 0\<rparr> :: jtree nql_agg_state)
   in get_or_create_buckets_for_event X st None 0 900000000000 = Ok ([], st)"
proof -
  let ?st = "copy_agg_config \<lparr>funcs = [], group_by_fields = [], agg_where = None,
      agg_window = window NQL_WINDOW_SLIDING 300000 60000 0\<rparr> :: jtree nql_agg_state"
  have "as_window ?st = window NQL_WINDOW_SLIDING 300000 60000 0" by (simp add: copy_agg_config_def)
  then show ?thesis
    unfolding Let_def
    by (intro sliding_window_empty [OF _ refl _ refl]) (simp_all add: window_def ms_to_ns_def)
qed

text \<open>C15: in a session window an event joins the bucket of its group that was last active less than the
  timeout before it, and otherwise opens a new, empty bucket that starts with it; it opens one exactly
  when no open session of the group is recent enough.\<close>

theorem session_window:
  assumes "w_type (as_window st) = NQL_WINDOW_SESSION"
    and "get_or_create_buckets_for_event X st keys k ts = Ok (addrs, st')"
    and "timeout = ms_to_ns (timeout_ms (as_window st))"
  shows "\<exists>b \<in> set (buckets st'). addrs = [b_addr b] \<and> compare_group_keys (group_keys b) keys k
    \<and> window_end_ns b = UINT64_MAX \<and> last_event_ns b \<le> ts
    \<and> ((st' = st \<and> uint ts - uint (last_event_ns b) < uint timeout)
       \<or> (buckets st' = b # buckets st \<and> b_count b = 0 \<and> window_start_ns b = ts
          \<and> (\<forall>c \<in> set (buckets st). compare_group_keys (group_keys c) keys k \<and> window_end_ns c = UINT64_MAX
               \<and> last_event_ns c \<le> ts \<longrightarrow> uint timeout \<le> uint ts - uint (last_event_ns c))))"
proof -
  let ?P = "\<lambda>b. compare_group_keys (group_keys b) keys k \<and> window_end_ns b = UINT64_MAX
    \<and> last_event_ns b \<le> ts \<and> ts - last_event_ns b < timeout"
  have gap: "ts - l < timeout \<longleftrightarrow> uint ts - uint l < uint timeout" if "l \<le> ts" for l
    using that by (simp add: word_less_def word_le_def uint_sub_lem [THEN iffD1])
  have r: "(case find ?P (buckets st) of
       Some b \<Rightarrow> Ok ([b_addr b], st)
     | None \<Rightarrow> (case create_bucket_with_window X st keys k ts UINT64_MAX of (a, st1) \<Rightarrow> Ok ([a], st1))) = Ok (addrs, st')"
    using assms by (simp add: get_or_create_buckets_for_event_def Let_def)
  show ?thesis
  proof (cases "find ?P (buckets st)")
    case None
    let ?b = "new_bucket X (next_addr st) keys k ts UINT64_MAX"
    have b: "addrs = [b_addr ?b]" "buckets st' = ?b # buckets st"
      using r None by (auto simp: create_bucket_with_window_def new_bucket_def)
    have "compare_group_keys (group_keys ?b) keys k"
      by (auto simp: new_bucket_def compare_group_keys_def split: option.splits)
    moreover have "uint timeout \<le> uint ts - uint (last_event_ns c)"
      if "c \<in> set (buckets st)" "compare_group_keys (group_keys c) keys k" "window_end_ns c = UINT64_MAX"
        "last_event_ns c \<le> ts" for c
      using that None gap [of "last_event_ns c"] by (auto simp: find_None_iff)
    ultimately show ?thesis
      using b by (intro bexI [of _ ?b]) (auto simp: new_bucket_def)
  next
    case (Some b)
    then have b: "b \<in> set (buckets st)" "?P b" using find_Some_D [of ?P] by blast+
    with gap [of "last_event_ns b"] Some r show ?thesis by (intro bexI [of _ b]) auto
  qed
qed

theorem session_window_witness:
  "let X = tree_ext (\<lambda>_. None) (\<lambda>_. None) (\<lambda>_. True) (\<lambda>_ _. 0) (\<lambda>_. 0);
       st = (copy_agg_config \<lparr>funcs = [], group_by_fields = [], agg_where = None,
               agg_window = window NQL_WINDOW_SESSION 0 0 30000\<rparr> :: jtree nql_agg_state)
   in \<exists>b st'. get_or_create_buckets_for_event X st None 0 5000 = Ok ([b_addr b], st')
        \<and> b \<in> set (buckets st') \<and> last_event_ns b \<le> 5000"
proof -
  let ?X = "tree_ext (\<lambda>_. None) (\<lambda>_. None) (\<lambda>_. True) (\<lambda>_ _. 0) (\<lambda>_. 0)"
  let ?st = "copy_agg_config \<lparr>funcs = [], group_by_fields = [], agg_where = None,
      agg_window = window NQL_WINDOW_SESSION 0 0 30000\<rparr> :: jtree nql_agg_state"
  have w: "w_type (as_window ?st) = NQL_WINDOW_SESSION" by (simp add: copy_agg_config_def window_def)
  have "get_or_create_buckets_for_event ?X ?st None 0 5000 \<noteq> UB"
    using w by (simp add: get_or_create_buckets_for_event_def Let_def split: option.splits prod.splits)
  then obtain addrs st' where g: "get_or_create_buckets_for_event ?X ?st None 0 5000 = Ok (addrs, st')"
    by (metis outcome.exhaust prod.exhaust)
  from session_window [OF w g refl] g show ?thesis unfolding Let_def by blast
qed

section \<open>Defects of the accumulators and windows\<close>

text \<open>all functions of a query share one accumulator per bucket: after an event, \<open>sum(a)\<close> and
  \<open>sum(b)\<close> report the same number, the sum of both fields.\<close>

theorem sums_share_accumulator:
  assumes "as_funcs st = [new_func NQL_AGG_SUM (Some f1) z1, new_func NQL_AGG_SUM (Some f2) z2]"
    and "b' = update_bucket_with_event X now ev st b"
    and "s = f64_add (f64_add (b_sum b) (get_numeric_value X (ev_data ev) f1)) (get_numeric_value X (ev_data ev) f2)"
  shows "b_sum b' = s
    \<and> agg_metric X b' (new_func NQL_AGG_SUM (Some f1) z1) = Ok (map_option (Pair f1) (json_real X s))
    \<and> agg_metric X b' (new_func NQL_AGG_SUM (Some f2) z2) = Ok (map_option (Pair f2) (json_real X s))"
  using assms
  by (simp add: update_bucket_with_event_def update_funcs_def new_func_def agg_metric_def Let_def)

theorem sums_share_accumulator_witness:
  "let X = tree_ext (\<lambda>_. None) (\<lambda>_. None) (\<lambda>_. True) (\<lambda>_ _. 0) (\<lambda>_. 0);
       fs = [new_func NQL_AGG_SUM (Some ''in'') f64_zero, new_func NQL_AGG_SUM (Some ''out'') f64_zero];
       st = (copy_agg_config \<lparr>funcs = fs, group_by_fields = [], agg_where = None,
               agg_window = window NQL_WINDOW_NONE 0 0 0\<rparr> :: jtree nql_agg_state);
       ev = \<lparr>ev_type = NBLEX_EVENT_LOG, ev_timestamp = 1, ev_input = None,
             ev_data = Some (JObj [(''in'', JInt 3), (''out'', JInt 4)])\<rparr>
   in agg_metric X (update_bucket_with_event X 0 ev st (new_bucket X 0 None 0 0 UINT64_MAX)) (hd fs) =
        Ok (Some (''in'', JReal (f64_of_int 7)))"
proof -
  let ?X = "tree_ext (\<lambda>_. None) (\<lambda>_. None) (\<lambda>_. True) (\<lambda>_ _. 0) (\<lambda>_. 0)"
  let ?st = "copy_agg_config \<lparr>funcs = [new_func NQL_AGG_SUM (Some ''in'') f64_zero,
      new_func NQL_AGG_SUM (Some ''out'') f64_zero], group_by_fields = [], agg_where = None,
      agg_window = window NQL_WINDOW_NONE 0 0 0\<rparr> :: jtree nql_agg_state"
  let ?d = "Some (JObj [(''in'', JInt 3), (''out'', JInt 4)])"
  let ?ev = "\<lparr>ev_type = NBLEX_EVENT_LOG, ev_timestamp = 1, ev_input = None, ev_data = ?d\<rparr>"
  have f: "as_funcs ?st = [new_func NQL_AGG_SUM (Some ''in'') f64_zero, new_func NQL_AGG_SUM (Some ''out'') f64_zero]"
    by (simp add: copy_agg_config_def)
  have v: "f64_add (f64_add (b_sum (new_bucket ?X 0 None 0 0 UINT64_MAX)) (get_numeric_value ?X ?d ''in''))
      (get_numeric_value ?X ?d ''out'') = f64_of_int 7" by code_simp
  have r: "json_real ?X (f64_of_int 7) = Some (JReal (f64_of_int 7))" by code_simp
  from sums_share_accumulator [OF f refl refl, of ?X 0 ?ev "new_bucket ?X 0 None 0 0 UINT64_MAX"] v r
  show ?thesis unfolding Let_def by simp
qed

lemma bind_outcome_Ok [simp]: "bind_outcome m Ok = m"
  by (cases m) auto

text \<open>the flush of a tumbling window reports an empty bucket: the bucket is reset before the result is
  created, so the result event of a window that counted events says zero.\<close>

theorem tumbling_flush_reports_zero:
  assumes "agg_get i w = Ok st" and "find (\<lambda>b. b_addr b = a) (buckets st) = Some b"
    and "w_type (as_window st) = NQL_WINDOW_TUMBLING" and "ms_to_ns (size_ms (as_window st)) \<noteq> 0"
    and "window_end_ns b \<le> now" and "0 < b_count b"
  shows "\<exists>b1 st1 w1. flush_bucket X H i now a w = emit_result X H b1 st1 w1
    \<and> as_funcs st1 = as_funcs st \<and> b_count b1 = 0 \<and> b_sum b1 = f64_zero
    \<and> percentile_values b1 = json_array X
    \<and> agg_metric X b1 (new_func NQL_AGG_COUNT None f64_zero) = Ok (Some (''count'', json_integer X 0))"
proof -
  obtain b1 where b1: "reset_bucket X now (ms_to_ns (size_ms (as_window st))) b = Ok b1"
    and z: "b_count b1 = 0" "b_sum b1 = f64_zero" "percentile_values b1 = json_array X"
    using assms(4) by (simp add: reset_bucket_def udiv_def Let_def)
  let ?st1 = "update_bucket a (\<lambda>_. b1) st"
  have "flush_bucket X H i now a w = emit_result X H b1 ?st1 (ctx_put i (AGG_STATE ?st1) w)"
    using assms b1 by (simp add: flush_bucket_def flush_decision_def Let_def)
  moreover have "as_funcs ?st1 = as_funcs st" by (simp add: update_bucket_def)
  moreover have "agg_metric X b1 (new_func NQL_AGG_COUNT None f64_zero) = Ok (Some (''count'', json_integer X 0))"
    using z by (simp add: agg_metric_def new_func_def)
  ultimately show ?thesis using z by blast
qed

theorem tumbling_flush_reports_zero_witness:
  "let X = tree_ext (\<lambda>_. None) (\<lambda>_. None) (\<lambda>_. True) (\<lambda>_ _. 0) (\<lambda>_. 0);
       b = (new_bucket X 0 None 0 0 60000000000)\<lparr>b_count := 17\<rparr>;
       st = (copy_agg_config \<lparr>funcs = [new_func NQL_AGG_COUNT None f64_zero], group_by_fields = [],
               agg_where = None, agg_window = window NQL_WINDOW_TUMBLING 60000 0 0\<rparr>)\<lparr>buckets := [b]\<rparr>;
       w = initial_world\<lparr>exec_contexts := [\<lparr>ctx_id = 0, ctx_query_type = TYPE_AGGREGATE,
               query_string = None, ctx_state = AGG_STATE st\<rparr>]\<rparr>
   in \<exists>b1 st1 w1. flush_bucket X (\<lambda>_ _. Ok) 0 70000000000 0 w = emit_result X (\<lambda>_ _. Ok) b1 st1 w1
        \<and> b_count b1 = 0"
proof -
  let ?X = "tree_ext (\<lambda>_. None) (\<lambda>_. None) (\<lambda>_. True) (\<lambda>_ _. 0) (\<lambda>_. 0)"
  let ?b = "(new_bucket ?X 0 None 0 0 60000000000)\<lparr>b_count := 17\<rparr>"
  let ?st = "(copy_agg_config \<lparr>funcs = [new_func NQL_AGG_COUNT None f64_zero], group_by_fields = [],
      agg_where = None, agg_window = window NQL_WINDOW_TUMBLING 60000 0 0\<rparr>)\<lparr>buckets := [?b]\<rparr>"
  let ?w = "initial_world\<lparr>exec_contexts := [\<lparr>ctx_id = 0, ctx_query_type = TYPE_AGGREGATE,
      query_string = None, ctx_state = AGG_STATE ?st\<rparr>]\<rparr> :: jtree nql_world"
  have g: "agg_get 0 ?w = Ok ?st" by (simp add: agg_get_def ctx_get_def)
  have f: "find (\<lambda>b. b_addr b = 0) (buckets ?st) = Some ?b" by (simp add: new_bucket_def)
  have w: "w_type (as_window ?st) = NQL_WINDOW_TUMBLING" "ms_to_ns (size_ms (as_window ?st)) \<noteq> 0"
    "window_end_ns ?b \<le> 70000000000" "0 < b_count ?b"
    by (simp_all add: copy_agg_config_def window_def ms_to_ns_def new_bucket_def)
  show ?thesis
    unfolding Let_def using tumbling_flush_reports_zero [OF g f w] by blast
qed

text \<open>a query with a zero window makes the program divide by zero on the first event that reaches the
  aggregation: the parser accepts \<open>window 0s\<close> and the bucket computation divides by the size.\<close>

theorem zero_window_undefined:
  assumes "q = ''aggregate count() window 0s''"
    and "\<forall>c \<in> set (exec_contexts w). query_string c \<noteq> Some q"
  shows "nql_execute X H (Some q) ev w = UB"
proof -
  let ?agg = "\<lparr>funcs = [new_func NQL_AGG_COUNT None f64_zero], group_by_fields = [], agg_where = None,
    agg_window = window NQL_WINDOW_TUMBLING 0 0 0\<rparr>"
  have p: "nql_parse X (Some q) = Some (NQL_QUERY_AGGREGATE ?agg)"
    unfolding assms(1) by code_simp
  let ?st = "start_agg_timer (started w) (copy_agg_config ?agg)"
  have "find_ctx (Some q) w = None" using assms(2) by (auto simp: find_ctx_def find_None_iff)
  then have s: "get_agg_state ?agg (Some q) w = Ok (add_ctx TYPE_AGGREGATE (Some q) (AGG_STATE ?st) w)"
    by (simp add: get_agg_state_def)
  obtain i w1 where a: "add_ctx TYPE_AGGREGATE (Some q) (AGG_STATE ?st) w = (i, w1)" by fastforce
  have g: "agg_get i w1 = Ok ?st" using a by (auto simp: add_ctx_def agg_get_def ctx_get_def)
  have w: "w_type (as_window (start_agg_timer b ?st)) = NQL_WINDOW_TUMBLING"
    "ms_to_ns (size_ms (as_window (start_agg_timer b ?st))) = 0" for b
    by (simp_all add: start_agg_timer_def copy_agg_config_def window_def ms_to_ns_def)
  have "get_or_create_buckets_for_event X (start_agg_timer b ?st) keys k ts = UB" for b keys k ts
    unfolding get_or_create_buckets_for_event_def w Let_def by (simp add: udiv_def)
  then have "execute_aggregate X H ?agg ev (Some q) w = UB"
    using s a g by (simp add: execute_aggregate_def Let_def split: prod.splits)
  with p show ?thesis by (simp add: nql_execute_def)
qed

theorem zero_window_undefined_witness:
  "let X = tree_ext (\<lambda>_. None) (\<lambda>_. None) (\<lambda>_. True) (\<lambda>_ _. 0) (\<lambda>_. 0);
       ev = \<lparr>ev_type = NBLEX_EVENT_LOG, ev_timestamp = 5, ev_input = None, ev_data = Some (JObj [])\<rparr>
   in nql_execute X (\<lambda>_ _. Ok) (Some ''aggregate count() window 0s'') ev (initial_world :: jtree nql_world) = UB"
  unfolding Let_def by (rule zero_window_undefined [OF refl]) simp

section \<open>Queries without a window: grouping\<close>

text \<open>The specification: the bucket of a key is the fold of the update over the events with that key.\<close>

definition event_keys :: "'j ext \<Rightarrow> nql_aggregate \<Rightarrow> 'j event \<Rightarrow> string list option" where
  "event_keys X agg ev = (case ev_data ev of
      None \<Rightarrow> None
    | Some d \<Rightarrow> if group_by_fields agg = [] then None else Some (map (group_key X d) (group_by_fields agg)))"

definition group_bucket :: "'j ext \<Rightarrow> nql_aggregate \<Rightarrow> string list option \<Rightarrow> 'j event list \<Rightarrow> 'j nql_agg_bucket" where
  "group_bucket X agg key es =
     fold (\<lambda>ev b. update_funcs X ev (funcs agg) (b\<lparr>b_count := b_count b + 1\<rparr>)) es
       (new_bucket X 0 key (length (group_by_fields agg)) 0 UINT64_MAX)"

definition group_spec ::
  "'j ext \<Rightarrow> nql_aggregate \<Rightarrow> 'j event list \<Rightarrow> string list option \<Rightarrow> 'j nql_agg_bucket option" where
  "group_spec X agg evs key =
     (let es = filter (\<lambda>ev. event_keys X agg ev = key) evs in
      if es = [] then None else Some (group_bucket X agg key es))"

text \<open>The abstraction: buckets by key, with the addresses erased.\<close>

definition group_abs :: "'j nql_agg_state \<Rightarrow> string list option \<Rightarrow> 'j nql_agg_bucket option" where
  "group_abs st key = map_option (\<lambda>b. b\<lparr>b_addr := 0\<rparr>) (find (\<lambda>b. group_keys b = key) (buckets st))"

definition key_shape :: "nql_aggregate \<Rightarrow> string list option \<Rightarrow> bool" where
  "key_shape agg key \<longleftrightarrow> (if group_by_fields agg = [] then key = None
     else \<exists>ks. key = Some ks \<and> length ks = length (group_by_fields agg))"

definition group_inv :: "nql_aggregate \<Rightarrow> 'j nql_agg_state \<Rightarrow> bool" where
  "group_inv agg st \<longleftrightarrow> as_window st = agg_window agg \<and> as_funcs st = funcs agg
     \<and> as_group_by st = group_by_fields agg \<and> addrs_ok st
     \<and> (\<forall>b \<in> set (buckets st). window_start_ns b = 0 \<and> window_end_ns b = UINT64_MAX \<and> key_shape agg (group_keys b))
     \<and> distinct (map group_keys (buckets st))"

lemma compare_shape:
  "key_shape agg k1 \<Longrightarrow> key_shape agg k2 \<Longrightarrow>
   compare_group_keys k1 k2 (length (group_by_fields agg)) \<longleftrightarrow> k1 = k2"
  by (auto simp: key_shape_def compare_group_keys_def split: if_splits)

lemma extract_event_keys:
  assumes "ev_data ev = Some d" and "as_group_by st = group_by_fields agg"
  shows "extract_group_keys X st ev = (event_keys X agg ev, length (group_by_fields agg))"
    and "key_shape agg (event_keys X agg ev)"
  using assms by (auto simp: extract_group_keys_def event_keys_def key_shape_def)

text \<open>An update changes neither the address nor the key nor the window, and does not look at the address.\<close>

lemma update_func_frame:
  "b_addr (update_func X t v b) = b_addr b" "group_keys (update_func X t v b) = group_keys b"
  "window_start_ns (update_func X t v b) = window_start_ns b"
  "window_end_ns (update_func X t v b) = window_end_ns b" "b_count (update_func X t v b) = b_count b"
  "update_func X t v (b\<lparr>b_addr := a\<rparr>) = (update_func X t v b)\<lparr>b_addr := a\<rparr>"
  by (cases t; simp)+

lemma update_funcs_frame:
  "b_addr (update_funcs X ev fs b) = b_addr b" "group_keys (update_funcs X ev fs b) = group_keys b"
  "window_start_ns (update_funcs X ev fs b) = window_start_ns b"
  "window_end_ns (update_funcs X ev fs b) = window_end_ns b" "b_count (update_funcs X ev fs b) = b_count b"
  "update_funcs X ev fs (b\<lparr>b_addr := a\<rparr>) = (update_funcs X ev fs b)\<lparr>b_addr := a\<rparr>"
  unfolding update_funcs_def
  by (induction fs arbitrary: b; simp add: update_func_frame split: option.splits)+

definition group_update :: "'j ext \<Rightarrow> nql_aggregate \<Rightarrow> 'j event \<Rightarrow> 'j nql_agg_bucket \<Rightarrow> 'j nql_agg_bucket" where
  "group_update X agg ev b = update_funcs X ev (funcs agg) (b\<lparr>b_count := b_count b + 1\<rparr>)"

lemma group_update_addr: "group_update X agg ev (b\<lparr>b_addr := a\<rparr>) = (group_update X agg ev b)\<lparr>b_addr := a\<rparr>"
proof -
  let ?n = "b_count b + 1"
  have n: "b_count (b\<lparr>b_addr := a\<rparr>) + 1 = ?n" by simp
  have swap: "b\<lparr>b_addr := a, b_count := ?n\<rparr> = b\<lparr>b_count := ?n, b_addr := a\<rparr>" by (cases b) simp
  have "group_update X agg ev (b\<lparr>b_addr := a\<rparr>) = update_funcs X ev (funcs agg) (b\<lparr>b_count := ?n, b_addr := a\<rparr>)"
    unfolding group_update_def n swap ..
  also have "\<dots> = (update_funcs X ev (funcs agg) (b\<lparr>b_count := ?n\<rparr>))\<lparr>b_addr := a\<rparr>"
    by (rule update_funcs_frame(6))
  finally show ?thesis unfolding group_update_def .
qed

lemma group_update_frame:
  "b_addr (group_update X agg ev b) = b_addr b" "group_keys (group_update X agg ev b) = group_keys b"
  "window_start_ns (group_update X agg ev b) = window_start_ns b"
  "window_end_ns (group_update X agg ev b) = window_end_ns b"
  "b_count (group_update X agg ev b) = b_count b + 1"
  "group_update X agg ev (b\<lparr>b_addr := a\<rparr>) = (group_update X agg ev b)\<lparr>b_addr := a\<rparr>"
  by (simp_all add: group_update_addr) (simp_all add: group_update_def update_funcs_frame)

lemma find_map: "(\<And>x. P (f x) = P x) \<Longrightarrow> find P (map f xs) = map_option f (find P xs)"
  by (induction xs) auto

text \<open>Updating the bucket at one address.\<close>

lemma update_bucket_group_inv:
  assumes "group_inv agg st"
  shows "group_inv agg (update_bucket a (group_update X agg ev) st)"
proof -
  let ?f = "\<lambda>b. if b_addr b = a then group_update X agg ev b else b"
  have m: "map b_addr (map ?f bs) = map b_addr bs" "map group_keys (map ?f bs) = map group_keys bs" for bs
    by (simp_all add: group_update_frame)
  have "distinct (map b_addr (map ?f (buckets st)))" "distinct (map group_keys (map ?f (buckets st)))"
    unfolding m using assms by (simp_all add: group_inv_def addrs_ok_def)
  with assms show ?thesis
    by (auto simp: group_inv_def addrs_ok_def update_bucket_def group_update_frame)
qed

lemma update_bucket_group_abs:
  assumes "group_inv agg st" and "b \<in> set (buckets st)"
  shows "group_abs (update_bucket (b_addr b) (group_update X agg ev) st) key =
    (if key = group_keys b then Some (group_update X agg ev (b\<lparr>b_addr := 0\<rparr>)) else group_abs st key)"
proof -
  let ?f = "\<lambda>c. if b_addr c = b_addr b then group_update X agg ev c else c"
  have f: "find (\<lambda>c. group_keys c = key) (map ?f (buckets st)) = map_option ?f (find (\<lambda>c. group_keys c = key) (buckets st))"
    by (rule find_map) (simp add: group_update_frame)
  have uniq: "c = b" if "c \<in> set (buckets st)" "group_keys c = group_keys b \<or> b_addr c = b_addr b" for c
    using that assms by (auto simp: group_inv_def addrs_ok_def distinct_map inj_on_def)
  show ?thesis
  proof (cases "find (\<lambda>c. group_keys c = key) (buckets st)")
    case None
    then have "key \<noteq> group_keys b" using assms(2) by (auto simp: find_None_iff)
    with None f show ?thesis by (simp add: group_abs_def update_bucket_def)
  next
    case (Some c)
    then have c: "c \<in> set (buckets st)" "group_keys c = key" using find_Some_D by fastforce+
    show ?thesis
    proof (cases "key = group_keys b")
      case True
      with c uniq have "c = b" by blast
      with True Some f show ?thesis by (simp add: group_abs_def update_bucket_def group_update_frame)
    next
      case False
      with c uniq have "b_addr c \<noteq> b_addr b" by blast
      with False Some f show ?thesis by (simp add: group_abs_def update_bucket_def)
    qed
  qed
qed

lemma update_buckets_one:
  assumes "as_funcs st = funcs agg" and "w_type (as_window st) = NQL_WINDOW_NONE"
  shows "fst (update_buckets X ev [a] st w) = update_bucket a (group_update X agg ev) st"
  using assms
  by (simp add: update_bucket_with_event_def[abs_def] group_update_def[abs_def] Let_def)

lemma find_unique:
  assumes "distinct (map f xs)" and "x \<in> set xs" and "f x = k"
  shows "find (\<lambda>y. f y = k) xs = Some x"
  using assms by (induction xs) auto

text \<open>The buckets of an event: the lookup gives one bucket, and its update is the update of the group.\<close>

lemma group_buckets_step:
  assumes inv: "group_inv agg st" and none: "w_type (agg_window agg) = NQL_WINDOW_NONE" and d: "ev_data ev = Some d"
  obtains a st2 b st3 where
    "get_or_create_buckets_for_event X st (event_keys X agg ev) (length (group_by_fields agg)) ts = Ok ([a], st2)"
    "\<And>w :: ('j, 'x) world_scheme. update_buckets X ev [a] st2 w = (st3, w)"
    "group_inv agg st3" "find (\<lambda>b. b_addr b = a) (buckets st3) = Some b" "group_keys b = event_keys X agg ev"
    "group_abs st3 = (group_abs st)(event_keys X agg ev \<mapsto> group_update X agg ev
       (case group_abs st (event_keys X agg ev) of Some b \<Rightarrow> b
        | None \<Rightarrow> new_bucket X 0 (event_keys X agg ev) (length (group_by_fields agg)) 0 UINT64_MAX))"
proof -
  let ?key = "event_keys X agg ev" and ?n = "length (group_by_fields agg)"
  have cfg: "as_group_by st = group_by_fields agg" "as_funcs st = funcs agg" "w_type (as_window st) = NQL_WINDOW_NONE"
    using inv none by (simp_all add: group_inv_def)
  have shape: "key_shape agg ?key" using extract_event_keys(2) [OF d cfg(1)] .
  have P: "find (\<lambda>b. compare_group_keys (group_keys b) ?key ?n \<and> window_start_ns b = 0 \<and> window_end_ns b = UINT64_MAX)
      (buckets st) = find (\<lambda>b. group_keys b = ?key) (buckets st)"
    using inv shape by (intro find_cong) (auto simp: group_inv_def compare_shape)
  define new where "new = new_bucket X 0 ?key ?n 0 UINT64_MAX"
  obtain a st2 b where g: "get_or_create_buckets_for_event X st ?key ?n ts = Ok ([a], st2)"
    and inv2: "group_inv agg st2" and b: "b \<in> set (buckets st2)" "b_addr b = a" "group_keys b = ?key"
    and old: "b\<lparr>b_addr := 0\<rparr> = (case group_abs st ?key of Some b \<Rightarrow> b | None \<Rightarrow> new)"
    and frame: "\<And>key. key \<noteq> ?key \<Longrightarrow> group_abs st2 key = group_abs st key"
  proof (cases "find (\<lambda>b. group_keys b = ?key) (buckets st)")
    case (Some b)
    then have "b \<in> set (buckets st)" "group_keys b = ?key" using find_Some_D by fastforce+
    moreover have "get_or_create_buckets_for_event X st ?key ?n ts = Ok ([b_addr b], st)"
      using cfg P Some by (simp add: get_or_create_buckets_for_event_def)
    ultimately show thesis using that [of "b_addr b" st b] inv Some by (simp add: group_abs_def)
  next
    case None
    obtain a st1 where c: "create_bucket_with_window X st ?key ?n 0 UINT64_MAX = (a, st1)" by fastforce
    let ?b = "new_bucket X a ?key ?n 0 UINT64_MAX"
    have st1: "buckets st1 = ?b # buckets st" "as_window st1 = as_window st" "as_funcs st1 = as_funcs st"
      "as_group_by st1 = as_group_by st"
      using c by (auto simp: create_bucket_with_window_def)
    have "group_inv agg st1"
      using inv None shape create_bucket_addrs_ok [OF _ c] st1
      by (auto simp: group_inv_def new_bucket_def find_None_iff)
    moreover have "get_or_create_buckets_for_event X st ?key ?n ts = Ok ([a], st1)"
      using cfg P None c by (simp add: get_or_create_buckets_for_event_def)
    moreover have "?b \<in> set (buckets st1)" "b_addr ?b = a" "group_keys ?b = ?key" "?b\<lparr>b_addr := 0\<rparr> = new"
      using st1 by (simp_all add: new_bucket_def new_def)
    moreover have "group_abs st1 key = group_abs st key" if "key \<noteq> ?key" for key
      using that st1 by (simp add: group_abs_def new_bucket_def)
    moreover have "group_abs st ?key = None" using None by (simp add: group_abs_def)
    ultimately show thesis using that [of a st1 ?b] by simp
  qed
  let ?st3 = "update_bucket a (group_update X agg ev) st2"
  have cfg2: "as_funcs st2 = funcs agg" "w_type (as_window st2) = NQL_WINDOW_NONE"
    using inv2 none by (simp_all add: group_inv_def)
  have u: "update_buckets X ev [a] st2 w = (?st3, w)" for w :: "('j, 'x) world_scheme"
    using update_buckets_one [OF cfg2, of X ev a w] cfg2 by simp
  have "find (\<lambda>b. b_addr b = a) (buckets ?st3) = Some (group_update X agg ev b)"
  proof (rule find_unique)
    show "distinct (map b_addr (buckets ?st3))"
      using update_bucket_group_inv [OF inv2, of a X ev] by (simp add: group_inv_def addrs_ok_def)
    show "group_update X agg ev b \<in> set (buckets ?st3)"
      using b by (force simp: update_bucket_def)
  qed (use b(2) in \<open>simp add: group_update_frame\<close>)
  moreover have "group_abs ?st3 = (group_abs st)(?key \<mapsto> group_update X agg ev (case group_abs st ?key of Some b \<Rightarrow> b | None \<Rightarrow> new))"
    using update_bucket_group_abs [OF inv2 b(1), of X ev] frame old b(2,3) by (auto simp: fun_eq_iff)
  ultimately show thesis
    using that [OF g u update_bucket_group_inv [OF inv2]] b(3) unfolding new_def by (simp add: group_update_frame)
qed

lemma copy_agg_config_inv: "group_inv agg (copy_agg_config agg)"
  by (simp add: group_inv_def copy_agg_config_def addrs_ok_def)

lemma group_bucket_count: "b_count (fold (group_update X agg) es b) = b_count b + of_nat (length es)"
  by (induction es arbitrary: b) (simp_all add: group_update_frame)

lemma group_bucket_frame: "group_keys (fold (group_update X agg) es b) = group_keys b"
  by (induction es arbitrary: b) (simp_all add: group_update_frame)

end
