(* ===== verification/Correlation.thy ===== *)
theory Correlation
  imports World
begin

text \<open>
  Correctness of the built-in correlation engine: what the window test means, the invariant of the
  buffers (typed, counted, bounded), what an emission adds and emits, and what the periodic cleanup
  removes.

  Two interfaces state what the engine needs from the event handler: \<open>quiet_handlers\<close> (a handler that
  is given a derived event, one without an input, returns and does not touch the engine) and
  \<open>keeping_handlers\<close> (a handler preserves the invariant). Both are interpreted on the handlers of the
  command line in theory \<open>Cli\<close>.
\<close>

section \<open>The window test\<close>

lemma small_iff: "(a :: u64) < 9223372036854775808 \<longleftrightarrow> uint a < 9223372036854775808"
  by (simp add: word_less_def)

lemma sint_small: "(a :: u64) < 2 ^ 63 \<Longrightarrow> sint a = uint a"
proof -
  assume "a < 2 ^ 63"
  then have "uint a < 2 ^ 63" by (simp add: small_iff)
  moreover have "- (2 ^ 63) \<le> uint a" by (rule order_trans [OF _ uint_ge_0]) simp
  ultimately have "signed_take_bit 63 (uint a) = uint a" by (intro signed_take_bit_int_eq_self) simp_all
  then show ?thesis by (simp add: sint_uint)
qed

lemma i64_diff_small:
  assumes "(a :: u64) < 2 ^ 63" and "b < 2 ^ 63"
  shows "i64_diff a b = Ok (uint a - uint b)"
proof -
  have "uint a < 2 ^ 63" "uint b < 2 ^ 63" using assms by (simp_all add: small_iff)
  moreover have "0 \<le> uint a" "0 \<le> uint b" by simp_all
  ultimately have "- (2 ^ 63) \<le> uint a - uint b" "uint a - uint b < 2 ^ 63" by linarith+
  then show ?thesis unfolding i64_diff_def Let_def sint_small [OF assms(1)] sint_small [OF assms(2)] by simp
qed

lemma within_window_small [window_arith]:
  assumes "(a :: u64) < 2 ^ 63" and "b < 2 ^ 63" and "win < 2 ^ 63"
  shows "within_window a b win = Ok (\<bar>uint a - uint b\<bar> \<le> uint win)"
proof -
  have "uint b < 2 ^ 63" using assms by (simp add: small_iff)
  moreover have "0 \<le> uint a" by simp
  ultimately have "uint a - uint b \<noteq> - (2 ^ 63)" by linarith
  with assms show ?thesis by (simp add: within_window_def i64_diff_small sint_small)
qed

section \<open>The invariant\<close>

definition typed :: "nblex_event_type \<Rightarrow> 'j event list \<Rightarrow> bool" where
  "typed t es \<longleftrightarrow> (\<forall>e \<in> set es. ev_type e = t)"

definition counted :: "u64 \<Rightarrow> 'a list \<Rightarrow> bool" where
  "counted n es \<longleftrightarrow> unat n = length es \<and> length es \<le> 10000"

definition corr_ok :: "'j correlation \<Rightarrow> bool" where
  "corr_ok c \<longleftrightarrow> typed NBLEX_EVENT_LOG (log_events c) \<and> typed NBLEX_EVENT_NETWORK (network_events c)
     \<and> counted (log_events_count c) (log_events c)
     \<and> counted (network_events_count c) (network_events c)
     \<and> uint (window_ns c) < 2 ^ 32 * 1000000"

text \<open>Every world has an engine once it is open, is started only when open, and never has more inputs
  than the capacity of its array.\<close>

definition lifecycle_ok :: "('j, 'x) world_scheme \<Rightarrow> bool" where
  "lifecycle_ok w \<longleftrightarrow> (started w \<longrightarrow> opened w) \<and> (opened w \<longrightarrow> correlation w \<noteq> None)
     \<and> length (inputs w) \<le> inputs_capacity w \<and> 0 < inputs_capacity w"

definition world_ok :: "('j, 'x) world_scheme \<Rightarrow> bool" where
  "world_ok w \<longleftrightarrow> (\<forall>c. correlation w = Some c \<longrightarrow> corr_ok c) \<and> lifecycle_ok w"

lemma counted_Nil [simp]: "counted 0 []"
  by (simp add: counted_def)

lemma max_buffer_le: "MAX_BUFFER_SIZE \<le> n \<longleftrightarrow> 10000 \<le> unat n"
  by (simp add: MAX_BUFFER_SIZE_def word_le_nat_alt)

lemma add_to_buffer_counted:
  "add_to_buffer b n ev = (r, b', n') \<Longrightarrow> counted n b \<Longrightarrow> counted n' b'"
  by (auto simp: add_to_buffer_def counted_def max_buffer_le unat_word_ariths split: if_splits)

lemma add_to_buffer_typed:
  "add_to_buffer b n ev = (r, b', n') \<Longrightarrow> typed t b \<Longrightarrow> ev_type ev = t \<Longrightarrow> typed t b'"
  by (auto simp: add_to_buffer_def typed_def split: if_splits)

lemma buffer_event_ok:
  assumes "corr_ok c"
  shows "corr_ok (buffer_event ev c)"
proof (cases "ev_type ev")
  case NBLEX_EVENT_LOG
  obtain r b n where a: "add_to_buffer (log_events c) (log_events_count c) ev = (r, b, n)"
    by (metis prod_cases3)
  with assms show ?thesis
    using NBLEX_EVENT_LOG add_to_buffer_counted [OF a] add_to_buffer_typed [OF a]
    by (simp add: buffer_event_def corr_ok_def)
next
  case NBLEX_EVENT_NETWORK
  obtain r b n where a: "add_to_buffer (network_events c) (network_events_count c) ev = (r, b, n)"
    by (metis prod_cases3)
  with assms show ?thesis
    using NBLEX_EVENT_NETWORK add_to_buffer_counted [OF a] add_to_buffer_typed [OF a]
    by (simp add: buffer_event_def corr_ok_def)
qed (use assms in \<open>simp_all add: buffer_event_def\<close>)

lemma corr_ok_window_small: "corr_ok c \<Longrightarrow> window_ns c < 2 ^ 63"
  by (simp add: corr_ok_def small_iff)

lemma corr_ok_new: "corr_ok nblex_correlation_new"
  by (simp add: corr_ok_def nblex_correlation_new_def typed_def)

lemma corr_ok_add_strategy:
  assumes "corr_ok c"
  shows "corr_ok (snd (nblex_correlation_add_strategy c t ms))"
proof -
  have "uint (ucast ms :: u64) < 2 ^ 32"
    using uint_lt2p [of ms] by (simp add: uint_up_ucast is_up)
  then have "uint ((ucast ms :: u64) * 1000000) < 2 ^ 32 * 1000000"
    by (simp add: uint_word_ariths)
  with assms show ?thesis
    by (simp add: corr_ok_def nblex_correlation_add_strategy_def)
qed

section \<open>Cleanup\<close>

lemma cleanup_old_events_filter:
  "cleanup_old_events es n cutoff =
     (filter (\<lambda>e. cutoff \<le> ev_timestamp e) es,
      n - of_nat (length (filter (\<lambda>e. ev_timestamp e < cutoff) es)))"
  by (induction es arbitrary: n) (auto simp: not_less)

lemma length_filter_split: "length (filter P xs) + length (filter (\<lambda>x. \<not> P x) xs) = length xs"
  by (induction xs) auto

lemma cleanup_counted:
  assumes "counted n es" and "cleanup_old_events es n cutoff = (es', n')"
  shows "counted n' es'"
proof -
  let ?k = "length (filter (\<lambda>e. ev_timestamp e < cutoff) es)"
  have es': "es' = filter (\<lambda>e. cutoff \<le> ev_timestamp e) es" and n': "n' = n - of_nat ?k"
    using assms(2) by (simp_all add: cleanup_old_events_filter)
  have len: "?k + length es' = length es"
    unfolding es' using length_filter_split [of "\<lambda>e. ev_timestamp e < cutoff" es] by (simp add: not_less)
  then have k: "?k \<le> unat n" "?k < 2 ^ 64" using assms(1) by (simp_all add: counted_def)
  then have "unat (of_nat ?k :: u64) = ?k" by (simp add: unat_of_nat)
  with k have "unat n' = unat n - ?k" unfolding n' by (simp add: unat_sub word_le_nat_alt)
  with len assms(1) show ?thesis by (simp add: counted_def)
qed

lemma cleanup_timer_ok:
  assumes "world_ok w"
  shows "world_ok (cleanup_timer_cb X w)"
proof (cases "correlation w")
  case None
  then show ?thesis using assms by (simp add: cleanup_timer_cb_def)
next
  case (Some c)
  with assms have c: "corr_ok c" by (simp add: world_ok_def)
  let ?cut = "uv_hrtime X (hr_tick w) - window_ns c * 2"
  obtain ls nl ns nn where
    l: "cleanup_old_events (log_events c) (log_events_count c) ?cut = (ls, nl)" and
    n: "cleanup_old_events (network_events c) (network_events_count c) ?cut = (ns, nn)"
    by fastforce
  have "counted nl ls" "counted nn ns"
    using c cleanup_counted [OF _ l] cleanup_counted [OF _ n] by (simp_all add: corr_ok_def)
  moreover have "typed NBLEX_EVENT_LOG ls" "typed NBLEX_EVENT_NETWORK ns"
    using c l n by (auto simp: corr_ok_def typed_def cleanup_old_events_filter)
  ultimately show ?thesis
    using assms Some c l n by (simp add: cleanup_timer_cb_def nblex_timestamp_now_def world_ok_def lifecycle_ok_def corr_ok_def Let_def)
qed

lemma double_window: "corr_ok c \<Longrightarrow> uint (window_ns c * 2) = 2 * uint (window_ns c)"
  by (simp add: corr_ok_def uint_word_ariths)

lemma cutoff_le:
  assumes "corr_ok c" and "2 * uint (window_ns c) \<le> uint now"
  shows "now - window_ns c * 2 \<le> t \<longleftrightarrow> uint now - 2 * uint (window_ns c) \<le> uint t"
proof -
  have "uint (window_ns c * 2) \<le> uint now" using assms by (simp add: double_window)
  then have "uint (now - window_ns c * 2) = uint now - uint (window_ns c * 2)"
    by (simp only: uint_sub_lem [symmetric])
  then show ?thesis using assms(1) by (simp add: word_le_def double_window)
qed

lemma cutoff_wraps:
  assumes "corr_ok c" and "uint now < 2 * uint (window_ns c)" and "t \<le> now"
  shows "t < now - window_ns c * 2"
proof -
  let ?d = "uint now - 2 * uint (window_ns c)"
  have win: "uint (window_ns c) < 9223372036854775808" using assms(1) by (simp add: corr_ok_def)
  have "0 \<le> uint now" by simp
  then have "0 \<le> ?d + 18446744073709551616" "?d + 18446744073709551616 < 18446744073709551616"
    using assms(2) win by linarith+
  then have "(?d + 18446744073709551616) mod 18446744073709551616 = ?d + 18446744073709551616"
    by (rule mod_pos_pos_trivial)
  then have "?d mod 18446744073709551616 = ?d + 18446744073709551616" by (simp only: mod_add_self2)
  then have "uint (now - window_ns c * 2) = ?d + 18446744073709551616"
    using double_window [OF assms(1)] by (simp add: uint_word_ariths)
  then show ?thesis using assms(3) win by (simp add: word_le_def word_less_def)
qed

section \<open>Emission with a quiet handler\<close>

definition near :: "u64 \<Rightarrow> 'j event \<Rightarrow> 'j event \<Rightarrow> bool" where
  "near win a b \<longleftrightarrow> \<bar>uint (ev_timestamp a) - uint (ev_timestamp b)\<bar> \<le> uint win"

definition small_times :: "'j event list \<Rightarrow> bool" where
  "small_times es \<longleftrightarrow> (\<forall>e \<in> set es. ev_timestamp e < 2 ^ 63)"

lemma small_times_simps [simp]:
  "small_times []" "small_times (e # es) \<longleftrightarrow> ev_timestamp e < 2 ^ 63 \<and> small_times es"
  by (auto simp: small_times_def)

lemma create_correlation_event_Ok:
  assumes "ev_timestamp l < 2 ^ 63" and "ev_timestamp n < 2 ^ 63"
  shows "\<exists>ce. create_correlation_event X win l n = Ok ce \<and> ev_input ce = None
    \<and> ev_type ce = NBLEX_EVENT_CORRELATION \<and> ev_timestamp ce = ev_timestamp l"
  using assms by (simp add: create_correlation_event_def i64_diff_small Let_def)

lemma emit_derived_unfiltered [simp]: "ev_input ev = None \<Longrightarrow> \<not> filtered_out X ev"
  by (simp add: filtered_out_def)

lemma correlation_update_same: "correlation w = Some c \<Longrightarrow> w\<lparr>correlation := Some c\<rparr> = w"
  by (cases w) simp

lemma process_event_other:
  assumes "ev_type ev \<notin> {NBLEX_EVENT_LOG, NBLEX_EVENT_NETWORK}"
  shows "nblex_correlation_process_event X H ev w = Ok w"
  using assms
  by (cases "ev_type ev")
    (auto simp: nblex_correlation_process_event_def correlation_check_event_def buffer_event_def
      correlation_update_same split: option.splits)

text \<open>The inner emission is the emission: the engine ignores correlation events.\<close>

lemma nblex_event_emit_correlation:
  assumes "ev_type ev \<notin> {NBLEX_EVENT_LOG, NBLEX_EVENT_NETWORK}"
  shows "nblex_event_emit X H ev w = emit_correlation X H ev w"
  using process_event_other [OF assms, of X H]
  by (simp add: nblex_event_emit_def emit_correlation_def emit_with_def Let_def)

text \<open>A quiet handler returns from a derived event and changes nothing of the world itself (it may change
  what the record is extended with, such as the output).\<close>

locale quiet_handlers =
  fixes H :: "('j, 'x) handlers"
  assumes quiet: "ev_input ev = None \<Longrightarrow> \<exists>w'. H h ev w = Ok w' \<and> world.truncate w' = world.truncate w"
begin

lemma truncate_fields:
  assumes "world.truncate w' = world.truncate w"
  shows "correlation w' = correlation w" "event_handler w' = event_handler w"
    "events_processed w' = events_processed w" "events_correlated w' = events_correlated w"
    "started w' = started w" "opened w' = opened w" "inputs w' = inputs w"
    "inputs_capacity w' = inputs_capacity w" "hr_tick w' = hr_tick w"
  using assms by (simp_all add: world.defs)

lemma emit_correlation_quiet:
  assumes "ev_input ev = None"
  shows "\<exists>w'. emit_correlation X H ev w = Ok w'
    \<and> world.truncate w' = world.truncate (w\<lparr>events_processed := events_processed w + 1\<rparr>)"
  using assms quiet [OF assms, of "the (event_handler w)" "w\<lparr>events_processed := events_processed w + 1\<rparr>"]
  by (auto simp: emit_correlation_def emit_with_def Let_def split: option.splits)

lemma check_entries_quiet:
  assumes "correlation w = Some c" and "small_times (new_event # es)" and "window_ns c < 2 ^ 63"
  shows "\<exists>w'. check_entries X H new_event es w = Ok w'
    \<and> correlation w' = Some (c\<lparr>correlations_found := correlations_found c
        + of_nat (length (filter (near (window_ns c) new_event) es))\<rparr>)
    \<and> events_correlated w' = events_correlated w + of_nat (length (filter (near (window_ns c) new_event) es))
    \<and> events_processed w' = events_processed w + of_nat (length (filter (near (window_ns c) new_event) es))
    \<and> event_handler w' = event_handler w"
  using assms
proof (induction es arbitrary: w c)
  case (Cons e es)
  then have ts: "ev_timestamp new_event < 2 ^ 63" "ev_timestamp e < 2 ^ 63" "small_times (new_event # es)"
    by auto
  have win: "within_window (ev_timestamp new_event) (ev_timestamp e) (window_ns c) = Ok (near (window_ns c) new_event e)"
    unfolding near_def by (rule within_window_small [OF ts(1,2) Cons.prems(3)])
  show ?case
  proof (cases "near (window_ns c) new_event e")
    case False
    with Cons.IH [OF Cons.prems(1) ts(3) Cons.prems(3)] Cons.prems(1) win show ?thesis by simp
  next
    case True
    obtain ce where ce: "(if ev_type new_event = NBLEX_EVENT_LOG
          then create_correlation_event X (window_ns c) new_event e
          else create_correlation_event X (window_ns c) e new_event) = Ok ce" "ev_input ce = None"
      using create_correlation_event_Ok [OF ts(1,2)] create_correlation_event_Ok [OF ts(2,1)] by metis
    let ?c1 = "c\<lparr>correlations_found := correlations_found c + 1\<rparr>"
    let ?cw = "count_correlation w"
    obtain w1 where e: "emit_correlation X H ce ?cw = Ok w1"
      and t: "world.truncate w1 = world.truncate (?cw\<lparr>events_processed := events_processed ?cw + 1\<rparr>)"
      using emit_correlation_quiet [OF ce(2)] by blast
    have w1: "correlation w1 = Some ?c1" "event_handler w1 = event_handler w"
      "events_correlated w1 = events_correlated w + 1" "events_processed w1 = events_processed w + 1"
      using truncate_fields [OF t] Cons.prems(1) by (simp_all add: count_correlation_def)
    have "window_ns ?c1 < 2 ^ 63" using Cons.prems(3) by simp
    from Cons.IH [OF w1(1) ts(3) this] True Cons.prems(1) win ce(1) e w1
    show ?thesis by (auto simp: ac_simps)
  qed
qed simp

text \<open>What processing a log event and a network event does to the engine.\<close>

lemma process_log_quiet:
  assumes "correlation w = Some c" and "corr_ok c" and "ev_type ev = NBLEX_EVENT_LOG"
    and "small_times (ev # network_events c)"
  shows "\<exists>w'. nblex_correlation_process_event X H ev w = Ok w'
    \<and> correlation w' = Some (c\<lparr>
        correlations_found := correlations_found c
          + of_nat (length (filter (near (window_ns c) ev) (network_events c))),
        log_events := (if length (log_events c) < 10000 then ev # log_events c else log_events c),
        log_events_count := (if length (log_events c) < 10000 then log_events_count c + 1 else log_events_count c)\<rparr>)
    \<and> events_processed w' = events_processed w
        + of_nat (length (filter (near (window_ns c) ev) (network_events c)))
    \<and> events_correlated w' = events_correlated w
        + of_nat (length (filter (near (window_ns c) ev) (network_events c)))
    \<and> event_handler w' = event_handler w"
proof -
  have "unat (log_events_count c) = length (log_events c)"
    using assms(2) by (simp add: corr_ok_def counted_def)
  then show ?thesis
    using check_entries_quiet [OF assms(1,4) corr_ok_window_small [OF assms(2)], of X] assms(1,3)
    by (auto simp: nblex_correlation_process_event_def correlation_check_event_def buffer_event_def
        add_to_buffer_def max_buffer_le)
qed

lemma process_network_quiet:
  assumes "correlation w = Some c" and "corr_ok c" and "ev_type ev = NBLEX_EVENT_NETWORK"
    and "small_times (ev # log_events c)"
  shows "\<exists>w'. nblex_correlation_process_event X H ev w = Ok w'
    \<and> correlation w' = Some (c\<lparr>
        correlations_found := correlations_found c
          + of_nat (length (filter (near (window_ns c) ev) (log_events c))),
        network_events := (if length (network_events c) < 10000 then ev # network_events c else network_events c),
        network_events_count :=
          (if length (network_events c) < 10000 then network_events_count c + 1 else network_events_count c)\<rparr>)
    \<and> events_processed w' = events_processed w
        + of_nat (length (filter (near (window_ns c) ev) (log_events c)))
    \<and> events_correlated w' = events_correlated w
        + of_nat (length (filter (near (window_ns c) ev) (log_events c)))
    \<and> event_handler w' = event_handler w"
proof -
  have "unat (network_events_count c) = length (network_events c)"
    using assms(2) by (simp add: corr_ok_def counted_def)
  then show ?thesis
    using check_entries_quiet [OF assms(1,4) corr_ok_window_small [OF assms(2)], of X] assms(1,3)
    by (auto simp: nblex_correlation_process_event_def correlation_check_event_def buffer_event_def
        add_to_buffer_def max_buffer_le)
qed

end

section \<open>The invariant under any handler that keeps it\<close>

locale keeping_handlers =
  fixes H :: "('j, 'x) handlers"
  assumes keeping: "world_ok w \<Longrightarrow> H h ev w = Ok w' \<Longrightarrow> world_ok w'"
begin

lemma emit_with_keeps:
  assumes "emit_with P X H ev w = Ok w'" and "world_ok w"
    and "\<And>w w'. P ev w = Ok w' \<Longrightarrow> world_ok w \<Longrightarrow> world_ok w'"
  shows "world_ok w'"
proof (cases "filtered_out X ev")
  case True
  with assms show ?thesis by (simp add: emit_with_def)
next
  case False
  let ?w1 = "w\<lparr>events_processed := events_processed w + 1\<rparr>"
  obtain w2 where w2: "(if correlation ?w1 = None then Ok ?w1 else P ev ?w1) = Ok w2"
    and w': "(case event_handler w2 of None \<Rightarrow> Ok w2 | Some h \<Rightarrow> H h ev w2) = Ok w'"
    using assms(1) False by (auto simp: emit_with_def Let_def outcome_simps split: if_splits)
  have "world_ok ?w1" using assms(2) by (simp add: world_ok_def lifecycle_ok_def)
  then have "world_ok w2" using w2 assms(3) by (auto split: if_splits)
  then show ?thesis using w' keeping by (auto split: option.splits)
qed

lemma emit_correlation_keeps:
  "emit_correlation X H ev w = Ok w' \<Longrightarrow> world_ok w \<Longrightarrow> world_ok w'"
  unfolding emit_correlation_def by (rule emit_with_keeps) auto

lemma check_entries_keeps:
  "check_entries X H ev es w = Ok w' \<Longrightarrow> world_ok w \<Longrightarrow> world_ok w'"
proof (induction es arbitrary: w)
  case (Cons e es)
  have count: "world_ok (count_correlation w)"
    using Cons.prems(2) by (auto simp: world_ok_def lifecycle_ok_def count_correlation_def corr_ok_def)
  from Cons.prems(1) consider "check_entries X H ev es w = Ok w'"
    | ce w1 where "emit_correlation X H ce (count_correlation w) = Ok w1" "check_entries X H ev es w1 = Ok w'"
    by (auto simp: outcome_simps split: option.splits if_splits)
  then show ?case
  proof cases
    case 1
    then show ?thesis using Cons.IH Cons.prems(2) by blast
  next
    case (2 ce w1)
    then show ?thesis using Cons.IH emit_correlation_keeps count by blast
  qed
qed simp

lemma process_event_keeps:
  assumes "nblex_correlation_process_event X H ev w = Ok w'" and "world_ok w"
  shows "world_ok w'"
proof -
  obtain w1 where w1: "correlation_check_event X H ev w = Ok w1"
    and w': "w' = w1 \<or> (\<exists>c. correlation w1 = Some c \<and> w' = w1\<lparr>correlation := Some (buffer_event ev c)\<rparr>)"
    using assms(1)
    by (auto simp: nblex_correlation_process_event_def outcome_simps split: option.splits if_splits)
  have "world_ok w1"
    using w1 assms(2) check_entries_keeps
    by (auto simp: correlation_check_event_def split: option.splits nblex_event_type.splits)
  with w' show ?thesis by (auto simp: world_ok_def lifecycle_ok_def buffer_event_ok)
qed

lemma nblex_event_emit_keeps:
  "nblex_event_emit X H ev w = Ok w' \<Longrightarrow> world_ok w \<Longrightarrow> world_ok w'"
  unfolding nblex_event_emit_def using emit_with_keeps process_event_keeps by blast

end

section \<open>Steps of a world\<close>

text \<open>The steps of a world: the calls of the public interface, emission by an input, and the timer of
  the engine, which fires only when it was started.\<close>

inductive world_step ::
  "'j ext \<Rightarrow> ('j, 'x) handlers \<Rightarrow> (string \<Rightarrow> nblex_input \<Rightarrow> int) \<Rightarrow>
   ('j, 'x) world_scheme \<Rightarrow> ('j, 'x) world_scheme \<Rightarrow> bool"
  for X H V where
  open_world: "world_step X H V w (snd (nblex_world_open w))"
| strategy: "correlation w = Some c \<Longrightarrow>
    world_step X H V w (w\<lparr>correlation := Some (snd (nblex_correlation_add_strategy c t ms))\<rparr>)"
| set_handler: "world_step X H V w (snd (nblex_set_event_handler h w))"
| add_input: "world_step X H V w (snd (nblex_world_add_input i w))"
| start: "world_step X H V w (snd (nblex_world_start X V w))"
| stop: "world_step X H V w (snd (nblex_world_stop w))"
| emit: "nblex_event_emit X H ev w = Ok w' \<Longrightarrow> world_step X H V w w'"
| cleanup: "correlation w = Some c \<Longrightarrow> timer_initialized c \<Longrightarrow> world_step X H V w (cleanup_timer_cb X w)"

inductive_cases world_step_cases: "world_step X H V w w'"

lemma world_ok_open: "world_ok w \<Longrightarrow> world_ok (snd (nblex_world_open w))"
  by (simp add: nblex_world_open_def world_ok_def lifecycle_ok_def corr_ok_add_strategy [OF corr_ok_new])

lemma world_ok_start: "world_ok w \<Longrightarrow> world_ok (snd (nblex_world_start X V w))"
  by (auto simp: nblex_world_start_def nblex_correlation_start_def world_ok_def lifecycle_ok_def corr_ok_def
      split: option.splits)

lemma world_ok_new: "world.truncate w = nblex_world_new \<Longrightarrow> world_ok w"
  by (simp add: nblex_world_new_def world.defs world_ok_def lifecycle_ok_def INITIAL_INPUTS_CAPACITY_def)

lemma world_ok_add_input: "world_ok w \<Longrightarrow> world_ok (snd (nblex_world_add_input i w))"
  by (auto simp: nblex_world_add_input_def world_ok_def lifecycle_ok_def Let_def)

context keeping_handlers
begin

lemma world_step_ok:
  assumes "world_step X H V w w'" and "world_ok w"
  shows "world_ok w'"
  using assms
proof cases
  case (emit ev)
  then show ?thesis using nblex_event_emit_keeps assms(2) by blast
qed (use assms(2) in \<open>simp_all add: world_ok_open world_ok_start world_ok_add_input cleanup_timer_ok\<close>,
    use assms(2) in \<open>auto simp: nblex_set_event_handler_def nblex_world_stop_def world_ok_def lifecycle_ok_def
      corr_ok_add_strategy\<close>)

end

section \<open>Properties\<close>

lemma cleanup_timer_cb_Some:
  assumes "correlation w = Some c" and "now = uv_hrtime X (hr_tick w)"
    and "cleanup_old_events (log_events c) (log_events_count c) (now - window_ns c * 2) = (ls, nl)"
    and "cleanup_old_events (network_events c) (network_events_count c) (now - window_ns c * 2) = (ns, nn)"
  shows "correlation (cleanup_timer_cb X w) = Some (c\<lparr>log_events := ls, log_events_count := nl,
    network_events := ns, network_events_count := nn\<rparr>)"
  using assms by (simp add: cleanup_timer_cb_def nblex_timestamp_now_def Let_def)

lemma filter_near_filter:
  assumes "uint now - uint win \<le> uint (ev_timestamp ev)"
  shows "filter (near win ev) (filter (\<lambda>e. uint now - 2 * uint win \<le> uint (ev_timestamp e)) es) = filter (near win ev) es"
  using assms by (induction es) (auto simp: near_def)

text \<open>C17: the periodic cleanup keeps exactly the buffered events of the last two windows, with their
  order and the counts; so it never removes an event that could still correlate: for every event not
  older than one window before the cleanup, the partners in both buffers are the same before and after.\<close>

theorem cleanup_timer_safe:
  assumes "correlation w = Some c" and "corr_ok c" and "now = uv_hrtime X (hr_tick w)"
    and "2 * uint (window_ns c) \<le> uint now"
  shows "\<exists>c'. correlation (cleanup_timer_cb X w) = Some c' \<and> window_ns c' = window_ns c
    \<and> log_events c' = filter (\<lambda>e. uint now - 2 * uint (window_ns c) \<le> uint (ev_timestamp e)) (log_events c)
    \<and> network_events c' = filter (\<lambda>e. uint now - 2 * uint (window_ns c) \<le> uint (ev_timestamp e)) (network_events c)
    \<and> unat (log_events_count c') = length (log_events c')
    \<and> unat (network_events_count c') = length (network_events c')
    \<and> (\<forall>ev. uint now - uint (window_ns c) \<le> uint (ev_timestamp ev) \<longrightarrow>
         filter (near (window_ns c) ev) (log_events c') = filter (near (window_ns c) ev) (log_events c)
         \<and> filter (near (window_ns c) ev) (network_events c') = filter (near (window_ns c) ev) (network_events c))"
proof -
  let ?cut = "now - window_ns c * 2" and ?P = "\<lambda>e. uint now - 2 * uint (window_ns c) \<le> uint (ev_timestamp e)"
  have P: "filter (\<lambda>e. ?cut \<le> ev_timestamp e) es = filter ?P es" for es :: "'a event list"
    by (rule filter_cong [OF refl]) (rule cutoff_le [OF assms(2,4)])
  obtain ls nl where l: "cleanup_old_events (log_events c) (log_events_count c) ?cut = (ls, nl)" by fastforce
  obtain ns nn where n: "cleanup_old_events (network_events c) (network_events_count c) ?cut = (ns, nn)" by fastforce
  have "ls = filter ?P (log_events c)" "ns = filter ?P (network_events c)"
    using l n by (auto simp: cleanup_old_events_filter P)
  moreover have "unat nl = length ls" "unat nn = length ns"
    using assms(2) cleanup_counted [OF _ l] cleanup_counted [OF _ n] by (simp_all add: corr_ok_def counted_def)
  ultimately show ?thesis
    using cleanup_timer_cb_Some [OF assms(1,3) l n] by (simp add: filter_near_filter del: filter_filter)
qed

theorem cleanup_timer_safe_witness:
  "let X = tree_ext (\<lambda>_. None) (\<lambda>_. None) (\<lambda>_. True) (\<lambda>_ _. 0) (\<lambda>_. 5000000000);
       e = \<lambda>t. \<lparr>ev_type = NBLEX_EVENT_LOG, ev_timestamp = t, ev_input = None, ev_data = Some JNull\<rparr>;
       c = nblex_correlation_new\<lparr>log_events := [e 4900000000, e 4700000000], log_events_count := 2\<rparr>;
       w = nblex_world_new\<lparr>correlation := Some c\<rparr>
   in \<exists>c'. correlation (cleanup_timer_cb X w) = Some c' \<and> log_events c' = [e 4900000000]"
proof -
  let ?X = "tree_ext (\<lambda>_. None) (\<lambda>_. None) (\<lambda>_. True) (\<lambda>_ _. 0) (\<lambda>_. 5000000000)"
  let ?e = "\<lambda>t. \<lparr>ev_type = NBLEX_EVENT_LOG, ev_timestamp = t, ev_input = None, ev_data = Some JNull\<rparr>"
  let ?c = "nblex_correlation_new\<lparr>log_events := [?e 4900000000, ?e 4700000000], log_events_count := 2\<rparr>"
  have c: "correlation (nblex_world_new\<lparr>correlation := Some ?c\<rparr>) = Some ?c" by simp
  have ok: "corr_ok ?c" by (simp add: corr_ok_def nblex_correlation_new_def typed_def counted_def)
  have now: "5000000000 = uv_hrtime ?X (hr_tick (nblex_world_new\<lparr>correlation := Some ?c\<rparr>))" by simp
  have w: "window_ns ?c = 100000000" by (simp add: nblex_correlation_new_def)
  show ?thesis
    using cleanup_timer_safe [OF c ok now] unfolding w by (auto simp: Let_def)
qed

text \<open>C18: before the monotonic clock has reached two windows, the cutoff of the cleanup wraps around and
  the cleanup discards every buffered event, also those inside the window.\<close>

theorem cleanup_timer_wraps:
  assumes "correlation w = Some c" and "corr_ok c" and "now = uv_hrtime X (hr_tick w)"
    and "uint now < 2 * uint (window_ns c)"
    and "\<forall>e \<in> set (log_events c) \<union> set (network_events c). ev_timestamp e \<le> now"
  shows "\<exists>c'. correlation (cleanup_timer_cb X w) = Some c' \<and> log_events c' = [] \<and> network_events c' = []"
proof -
  have drop: "cleanup_old_events es n (now - window_ns c * 2) = ([], n - of_nat (length es))"
    if "\<forall>e \<in> set es. ev_timestamp e \<le> now" for es :: "'a event list" and n
  proof -
    have "\<forall>e \<in> set es. ev_timestamp e < now - window_ns c * 2"
      using that cutoff_wraps [OF assms(2,4)] by blast
    then have "filter (\<lambda>e. now - window_ns c * 2 \<le> ev_timestamp e) es = []"
      and "filter (\<lambda>e. ev_timestamp e < now - window_ns c * 2) es = es"
      by (auto simp: filter_empty_conv not_le)
    then show ?thesis by (simp add: cleanup_old_events_filter)
  qed
  have "\<forall>e \<in> set (log_events c). ev_timestamp e \<le> now" "\<forall>e \<in> set (network_events c). ev_timestamp e \<le> now"
    using assms(5) by auto
  from cleanup_timer_cb_Some [OF assms(1,3) drop [OF this(1)] drop [OF this(2)]] show ?thesis by simp
qed

theorem cleanup_timer_wraps_witness:
  "let X = tree_ext (\<lambda>_. None) (\<lambda>_. None) (\<lambda>_. True) (\<lambda>_ _. 0) (\<lambda>_. 1000);
       e = \<lparr>ev_type = NBLEX_EVENT_LOG, ev_timestamp = 900, ev_input = None, ev_data = Some JNull\<rparr>;
       c = nblex_correlation_new\<lparr>log_events := [e], log_events_count := 1\<rparr>;
       w = nblex_world_new\<lparr>correlation := Some c\<rparr>
   in near (window_ns c) e e \<and> (\<exists>c'. correlation (cleanup_timer_cb X w) = Some c' \<and> log_events c' = [])"
proof -
  let ?X = "tree_ext (\<lambda>_. None) (\<lambda>_. None) (\<lambda>_. True) (\<lambda>_ _. 0) (\<lambda>_. 1000)"
  let ?e = "\<lparr>ev_type = NBLEX_EVENT_LOG, ev_timestamp = 900, ev_input = None, ev_data = Some JNull\<rparr>"
  let ?c = "nblex_correlation_new\<lparr>log_events := [?e], log_events_count := 1\<rparr>"
  have c: "correlation (nblex_world_new\<lparr>correlation := Some ?c\<rparr>) = Some ?c" by simp
  have ok: "corr_ok ?c" by (simp add: corr_ok_def nblex_correlation_new_def typed_def counted_def)
  have now: "1000 = uv_hrtime ?X (hr_tick (nblex_world_new\<lparr>correlation := Some ?c\<rparr>))" by simp
  have w: "window_ns ?c = 100000000" by (simp add: nblex_correlation_new_def)
  have "\<forall>e \<in> set (log_events ?c) \<union> set (network_events ?c). ev_timestamp e \<le> 1000"
    by (simp add: nblex_correlation_new_def)
  then show ?thesis
    using cleanup_timer_wraps [OF c ok now] unfolding w by (auto simp: Let_def near_def)
qed

end
