(* ===== verification/Exec_Props.thy ===== *)
theory Exec_Props
  imports Executor Correlation Filter_Syntax
begin

text \<open>
  Correctness of query execution: pipelines of stateless stages, the matching of correlation queries,
  the reuse of contexts, and the confusion of states in a pipeline that correlates and aggregates.

  The interface \<open>nql_quiet_handlers\<close> extends \<open>quiet_handlers\<close>: a handler that is given a derived event
  leaves the execution contexts alone. It is interpreted on the handlers of the command line in
  theory \<open>Cli\<close>.
\<close>

section \<open>Contexts\<close>

lemma find_map_inv: "(\<And>x. P (f x) = P x) \<Longrightarrow> find P (map f xs) = map_option f (find P xs)"
  by (induction xs) auto

lemma ctx_get_put:
  "ctx_get j (ctx_put i s w) = (if i = j then map_option (\<lambda>_. s) (ctx_get j w) else ctx_get j w)"
proof -
  let ?f = "\<lambda>c. if ctx_id c = i then c\<lparr>ctx_state := s\<rparr> else c"
  have f: "find (\<lambda>c. ctx_id c = j) (map ?f (exec_contexts w)) = map_option ?f (find (\<lambda>c. ctx_id c = j) (exec_contexts w))"
    by (rule find_map_inv) simp
  show ?thesis
  proof (cases "find (\<lambda>c. ctx_id c = j) (exec_contexts w)")
    case (Some c)
    then have "ctx_id c = j" by (induction "exec_contexts w") (auto split: if_splits simp: find_Some_iff)
    with Some f show ?thesis by (simp add: ctx_get_def ctx_put_def)
  qed (use f in \<open>simp add: ctx_get_def ctx_put_def\<close>)
qed

lemma ctx_get_cong: "exec_contexts w' = exec_contexts w \<Longrightarrow> ctx_get i w' = ctx_get i w"
  by (simp add: ctx_get_def)

lemma corr_get_put: "ctx_get i w \<noteq> None \<Longrightarrow> corr_get i (ctx_put i (CORR_STATE st) w) = Ok st"
  by (auto simp: corr_get_def ctx_get_put)

lemma ctx_put_fields [simp]:
  "correlation (ctx_put i s w) = correlation w" "events_processed (ctx_put i s w) = events_processed w"
  "started (ctx_put i s w) = started w" "event_handler (ctx_put i s w) = event_handler w"
  "map query_string (exec_contexts (ctx_put i s w)) = map query_string (exec_contexts w)"
  "map ctx_id (exec_contexts (ctx_put i s w)) = map ctx_id (exec_contexts w)"
  by (auto simp: ctx_put_def)

section \<open>Stateless queries\<close>

fun stateless :: "nql_query \<Rightarrow> bool" where
  "stateless (NQL_QUERY_FILTER f) = True"
| "stateless (NQL_QUERY_SHOW s) = True"
| "stateless _ = False"

fun stage_filter :: "nql_query \<Rightarrow> filter_t option" where
  "stage_filter (NQL_QUERY_FILTER f) = Some f"
| "stage_filter (NQL_QUERY_SHOW s) = show_where s"
| "stage_filter _ = None"

definition passes :: "'j ext \<Rightarrow> 'j event \<Rightarrow> filter_t option \<Rightarrow> bool" where
  "passes X ev f = (case f of None \<Rightarrow> True | Some g \<Rightarrow> nblex_filter_matches X g ev)"

lemma execute_stateless: "stateless s \<Longrightarrow> execute_query X H s ev q w = Ok (passes X ev (stage_filter s), w)"
  by (cases s) (auto simp: execute_filter_def execute_show_def passes_def split: option.splits)

text \<open>a pipeline of filter and show stages matches an event exactly when the event itself passes the
  filter of every stage, and changes nothing: a stage does not transform what the next one sees, and the
  fields of a show stage do not matter.\<close>

theorem stateless_pipeline:
  assumes "\<forall>s \<in> set stages. stateless s"
  shows "execute_query X H (NQL_QUERY_PIPELINE stages) ev q w =
    Ok (\<forall>s \<in> set stages. passes X ev (stage_filter s), w)"
  using assms by (induction stages) (auto simp: execute_stateless)

theorem stateless_pipeline_witness:
  "let X = tree_ext (\<lambda>_. None) (\<lambda>_. None) (\<lambda>_. True) (\<lambda>_ _. 0) (\<lambda>_. 0);
       f = \<lparr>root = Some (node_of (Cmp ''a'' FILTER_OP_EQ (LInt 1)))\<rparr>;
       ev = \<lparr>ev_type = NBLEX_EVENT_LOG, ev_timestamp = 1, ev_input = None, ev_data = Some (JObj [(''a'', JInt 1)])\<rparr>;
       stages = [NQL_QUERY_FILTER f, NQL_QUERY_SHOW \<lparr>show_fields = [''b''], select_all = False, show_where = Some f\<rparr>]
   in execute_query X (\<lambda>_ _. Ok) (NQL_QUERY_PIPELINE stages) ev None (initial_world :: jtree nql_world) =
        Ok (True, initial_world)"
proof -
  let ?X = "tree_ext (\<lambda>_. None) (\<lambda>_. None) (\<lambda>_. True) (\<lambda>_ _. 0) (\<lambda>_. 0)"
  let ?f = "\<lparr>root = Some (node_of (Cmp ''a'' FILTER_OP_EQ (LInt 1)))\<rparr>"
  let ?ev = "\<lparr>ev_type = NBLEX_EVENT_LOG, ev_timestamp = 1, ev_input = None, ev_data = Some (JObj [(''a'', JInt 1)])\<rparr>"
  let ?stages = "[NQL_QUERY_FILTER ?f, NQL_QUERY_SHOW \<lparr>show_fields = [''b''], select_all = False, show_where = Some ?f\<rparr>]"
  have st: "\<forall>s \<in> set ?stages. stateless s" by simp
  have p: "\<forall>s \<in> set ?stages. passes ?X ?ev (stage_filter s)" by code_simp
  show ?thesis
    unfolding Let_def stateless_pipeline [OF st] using p by (intro arg_cong [of _ _ Ok]) blast
qed

section \<open>Confused states\<close>

lemma ctx_get_add:
  assumes "add_ctx t q s w = (i, w1)" and "\<forall>c \<in> set (exec_contexts w). ctx_id c < length (exec_contexts w)"
  shows "ctx_get i w1 = Some s" "i = length (exec_contexts w)"
    "find_ctx (Some q') w1 = (if q = Some q' then Some \<lparr>ctx_id = i, ctx_query_type = t, query_string = q, ctx_state = s\<rparr>
       else find_ctx (Some q') w)"
  using assms(1) by (auto simp: add_ctx_def ctx_get_def find_ctx_def)

lemma find_ctx_put:
  "find_ctx q (ctx_put i s w) =
    map_option (\<lambda>c. if ctx_id c = i then c\<lparr>ctx_state := s\<rparr> else c) (find_ctx q w)"
  by (cases q) (simp_all add: find_ctx_def ctx_put_def find_map_inv)

text \<open>in a pipeline, a correlation that runs first leaves its state under the query string, and the
  aggregation that follows takes that state for its own, reading the wrong member of the union: the
  documented form \<open>correlate ... | aggregate ...\<close> is undefined behaviour on the first event the left
  filter accepts.\<close>

theorem correlate_then_aggregate_undefined:
  assumes "left_filter c = Some l" and "nblex_filter_matches X l ev"
    and "right_filter c = Some r" and "\<not> nblex_filter_matches X r ev"
    and "agg_where agg = None" and "find_ctx (Some q) w = None"
    and "\<forall>x \<in> set (exec_contexts w). ctx_id x < length (exec_contexts w)"
  shows "execute_query X H (NQL_QUERY_PIPELINE [NQL_QUERY_CORRELATE c, NQL_QUERY_AGGREGATE agg]) ev (Some q) w = UB"
proof -
  let ?st = "start_corr_timer (started w) (new_corr_state c)"
  obtain i w1 where a: "add_ctx TYPE_CORRELATE (Some q) (CORR_STATE ?st) w = (i, w1)" by fastforce
  have get: "ctx_get i w1 = Some (CORR_STATE ?st)" and f: "find_ctx (Some q) w1 \<noteq> None"
    and fs: "\<And>x. find_ctx (Some q) w1 = Some x \<Longrightarrow> ctx_id x = i"
    using ctx_get_add [OF a assms(7)] by auto
  let ?timed = "start_corr_timer (started w1) ?st"
  let ?w2 = "ctx_put i (CORR_STATE ?timed) w1"
  let ?w3 = "ctx_put i (CORR_STATE (add_corr_event ev True ?timed)) ?w2"
  have "right_events (add_corr_event ev True ?timed) = []"
    by (simp add: add_corr_event_def start_corr_timer_def new_corr_state_def)
  moreover have "corr_get i ?w2 = Ok ?timed" by (rule corr_get_put) (simp add: get)
  ultimately have "corr_side X H c i True ev ?w2 = Ok ?w3"
    by (simp add: corr_side_def Let_def)
  moreover have "get_corr_state c (Some q) w = Ok (i, w1)" using assms(6) a by (simp add: get_corr_state_def)
  moreover have "corr_get i w1 = Ok ?st" using get by (simp add: corr_get_def)
  ultimately have e: "execute_correlate X H c ev (Some q) w = Ok (True, ?w3)"
    using assms(1-4) by (simp add: execute_correlate_def Let_def)
  obtain x where x: "find_ctx (Some q) ?w3 = Some x" "ctx_state x = CORR_STATE (add_corr_event ev True ?timed)"
    using f fs by (fastforce simp: find_ctx_put)
  have "execute_aggregate X H agg ev (Some q) ?w3 = UB"
    using x assms(5) by (simp add: execute_aggregate_def get_agg_state_def)
  with e show ?thesis by simp
qed

theorem correlate_then_aggregate_undefined_witness:
  "let X = tree_ext (\<lambda>_. None) (\<lambda>_. None) (\<lambda>_. True) (\<lambda>_ _. 0) (\<lambda>_. 0);
       l = \<lparr>root = Some (node_of (Cmp ''a'' FILTER_OP_EQ (LInt 1)))\<rparr>;
       r = \<lparr>root = Some (node_of (Cmp ''b'' FILTER_OP_EQ (LInt 1)))\<rparr>;
       c = \<lparr>left_filter = Some l, right_filter = Some r, within_ms = 100\<rparr>;
       agg = \<lparr>funcs = [new_func NQL_AGG_COUNT None f64_zero], group_by_fields = [], agg_where = None,
              agg_window = window NQL_WINDOW_NONE 0 0 0\<rparr>;
       ev = \<lparr>ev_type = NBLEX_EVENT_LOG, ev_timestamp = 1, ev_input = None, ev_data = Some (JObj [(''a'', JInt 1)])\<rparr>;
       q = ''correlate a == 1 with b == 1 | aggregate count()''
   in nql_parse X (Some q) = Some (NQL_QUERY_PIPELINE [NQL_QUERY_CORRELATE c, NQL_QUERY_AGGREGATE agg])
      \<and> nql_execute X (\<lambda>_ _. Ok) (Some q) ev (initial_world :: jtree nql_world) = UB"
proof -
  let ?X = "tree_ext (\<lambda>_. None) (\<lambda>_. None) (\<lambda>_. True) (\<lambda>_ _. 0) (\<lambda>_. 0)"
  let ?l = "\<lparr>root = Some (node_of (Cmp ''a'' FILTER_OP_EQ (LInt 1)))\<rparr>"
  let ?r = "\<lparr>root = Some (node_of (Cmp ''b'' FILTER_OP_EQ (LInt 1)))\<rparr>"
  let ?c = "\<lparr>left_filter = Some ?l, right_filter = Some ?r, within_ms = 100\<rparr>"
  let ?agg = "\<lparr>funcs = [new_func NQL_AGG_COUNT None f64_zero], group_by_fields = [], agg_where = None,
      agg_window = window NQL_WINDOW_NONE 0 0 0\<rparr>"
  let ?ev = "\<lparr>ev_type = NBLEX_EVENT_LOG, ev_timestamp = 1, ev_input = None, ev_data = Some (JObj [(''a'', JInt 1)])\<rparr>"
  let ?q = "''correlate a == 1 with b == 1 | aggregate count()''"
  have parse: "nql_parse ?X (Some ?q) = Some (NQL_QUERY_PIPELINE [NQL_QUERY_CORRELATE ?c, NQL_QUERY_AGGREGATE ?agg])"
    by code_simp
  have l: "left_filter ?c = Some ?l" and r: "right_filter ?c = Some ?r" and a: "agg_where ?agg = None"
    by (simp_all only: nql_correlate.select_convs nql_aggregate.select_convs)
  have m: "nblex_filter_matches ?X ?l ?ev" "\<not> nblex_filter_matches ?X ?r ?ev" by code_simp+
  have "find_ctx (Some ?q) (initial_world :: jtree nql_world) = None" by (simp add: find_ctx_def)
  then have "execute_query ?X (\<lambda>_ _. Ok) (NQL_QUERY_PIPELINE [NQL_QUERY_CORRELATE ?c, NQL_QUERY_AGGREGATE ?agg])
      ?ev (Some ?q) (initial_world :: jtree nql_world) = UB"
    by (intro correlate_then_aggregate_undefined [OF l m(1) r m(2) a]) simp_all
  then have "nql_execute ?X (\<lambda>_ _. Ok) (Some ?q) ?ev (initial_world :: jtree nql_world) = UB"
    unfolding nql_execute_def parse by (simp only: option.case)
  with parse show ?thesis unfolding Let_def by blast
qed

section \<open>Correlation queries\<close>

lemma create_corr_result_event_Ok:
  assumes "ev_timestamp l < 2 ^ 63" and "ev_timestamp r < 2 ^ 63"
  shows "\<exists>e. create_corr_result_event X l r c = Ok e \<and> ev_input e = None \<and> ev_type e = NBLEX_EVENT_CORRELATION"
  using assms by (simp add: create_corr_result_event_def i64_diff_small Let_def)

text \<open>The number of results for an event against a buffer.\<close>

definition partners :: "nql_correlate \<Rightarrow> 'j event \<Rightarrow> 'j event list \<Rightarrow> u64" where
  "partners corr ev es = of_nat (length (filter (near (ms_to_ns (within_ms corr)) ev) es))"

locale nql_quiet_handlers = quiet_handlers H for H :: "('j, 'x) nql_handlers" +
  assumes contexts: "ev_input ev = None \<Longrightarrow> H h ev w = Ok w' \<Longrightarrow> exec_contexts w' = exec_contexts w"
begin

lemma emit_derived_quiet:
  assumes "ev_input ev = None" and "ev_type ev = NBLEX_EVENT_CORRELATION"
  shows "\<exists>w'. nblex_event_emit X H ev w = Ok w' \<and> exec_contexts w' = exec_contexts w
    \<and> world.truncate w' = world.truncate (w\<lparr>events_processed := events_processed w + 1\<rparr>)"
proof -
  have e: "nblex_event_emit X H ev w = emit_correlation X H ev w"
    using assms(2) by (intro nblex_event_emit_correlation) simp
  obtain w' where w': "emit_correlation X H ev w = Ok w'"
    "world.truncate w' = world.truncate (w\<lparr>events_processed := events_processed w + 1\<rparr>)"
    using emit_correlation_quiet [OF assms(1)] by blast
  then have "exec_contexts w' = exec_contexts w"
    using contexts [OF assms(1)] assms(1)
    by (fastforce simp: emit_correlation_def emit_with_def Let_def split: option.splits)
  with e w' show ?thesis by simp
qed

lemma corr_matches_quiet:
  assumes "small_times (ev # es)" and "ms_to_ns (within_ms corr) < 2 ^ 63"
  shows "\<exists>w'. corr_matches X H corr is_left ev es w = Ok w' \<and> exec_contexts w' = exec_contexts w
    \<and> events_processed w' = events_processed w + partners corr ev es \<and> started w' = started w
    \<and> correlation w' = correlation w"
  using assms(1)
proof (induction es arbitrary: w)
  case Nil
  then show ?case by (simp add: partners_def)
next
  case (Cons e es)
  then have ts: "ev_timestamp ev < 2 ^ 63" "ev_timestamp e < 2 ^ 63" "small_times (ev # es)" by auto
  let ?win = "ms_to_ns (within_ms corr)"
  have win: "within_window (ev_timestamp ev) (ev_timestamp e) ?win = Ok (near ?win ev e)"
    unfolding near_def by (rule within_window_small [OF ts(1,2) assms(2)])
  show ?case
  proof (cases "near ?win ev e")
    case False
    then show ?thesis using Cons.IH [OF ts(3), of w] win by (simp add: partners_def)
  next
    case True
    obtain r where r: "(if is_left then create_corr_result_event X ev e corr
        else create_corr_result_event X e ev corr) = Ok r"
      "ev_input r = None" "ev_type r = NBLEX_EVENT_CORRELATION"
      using create_corr_result_event_Ok [OF ts(1,2)] create_corr_result_event_Ok [OF ts(2,1)] by metis
    let ?w0 = "snd (nblex_timestamp_now X w)"
    obtain u where u: "nblex_event_emit X H r ?w0 = Ok u" "exec_contexts u = exec_contexts ?w0"
      and t: "world.truncate u = world.truncate (?w0\<lparr>events_processed := events_processed ?w0 + 1\<rparr>)"
      using emit_derived_quiet [OF r(2,3)] by blast
    have "exec_contexts u = exec_contexts w" "started u = started w" "correlation u = correlation w"
      "events_processed u = events_processed w + 1"
      using u(2) truncate_fields [OF t] by (simp_all add: nblex_timestamp_now_def)
    with Cons.IH [OF ts(3), of u] win True r(1) u(1) show ?thesis
      by (auto simp: partners_def ac_simps)
  qed
qed

lemma corr_side_quiet:
  assumes "ctx_get i w = Some (CORR_STATE st)" and "ms_to_ns (within_ms corr) < 2 ^ 63"
    and "es = (if is_left then right_events st else left_events st)" and "small_times (ev # es)"
  shows "\<exists>w'. corr_side X H corr i is_left ev w = Ok w'
    \<and> exec_contexts w' = exec_contexts (ctx_put i (CORR_STATE (add_corr_event ev is_left st)) w)
    \<and> events_processed w' = events_processed w + partners corr ev es \<and> started w' = started w
    \<and> correlation w' = correlation w"
proof -
  let ?new = "add_corr_event ev is_left st"
  have "(if is_left then right_events ?new else left_events ?new) = es"
    using assms(3) by (simp add: add_corr_event_def)
  moreover have "corr_get i w = Ok st" using assms(1) by (simp add: corr_get_def)
  ultimately show ?thesis
    using corr_matches_quiet [OF assms(4,2), of X is_left "ctx_put i (CORR_STATE ?new) w"]
    by (simp add: corr_side_def Let_def)
qed

text \<open>The whole query on an event, with an existing state: which sides it is added to, and how many
  results are emitted.\<close>

lemma execute_correlate_quiet:
  assumes "find_ctx q w = Some ctx" and "ctx_get (ctx_id ctx) w = Some (CORR_STATE st)"
    and "ctx_state ctx = CORR_STATE st" and "left_filter corr = Some l" and "right_filter corr = Some r"
    and "ml = nblex_filter_matches X l ev" and "mr = nblex_filter_matches X r ev" and "ml \<or> mr"
    and "ms_to_ns (within_ms corr) < 2 ^ 63" and "small_times (ev # left_events st @ right_events st)"
  shows "\<exists>w' st'. execute_correlate X H corr ev q w = Ok (True, w')
    \<and> ctx_get (ctx_id ctx) w' = Some (CORR_STATE st') \<and> cs_within_ms st' = cs_within_ms st
    \<and> left_events st' = (if ml then ev # left_events st else left_events st)
    \<and> right_events st' = (if mr then ev # right_events st else right_events st)
    \<and> events_processed w' = events_processed w
        + (if ml then partners corr ev (right_events st) else 0)
        + (if mr then partners corr ev (if ml then ev # left_events st else left_events st) else 0)"
proof -
  let ?i = "ctx_id ctx"
  define tst where "tst = start_corr_timer (started w) st"
  define wa where "wa = ctx_put ?i (CORR_STATE tst) w"
  have tst: "left_events tst = left_events st" "right_events tst = right_events st" "cs_within_ms tst = cs_within_ms st"
    by (simp_all add: tst_def start_corr_timer_def)
  have wa: "ctx_get ?i wa = Some (CORR_STATE tst)" "events_processed wa = events_processed w"
    using assms(2) by (simp_all add: wa_def ctx_get_put)
  have sm: "small_times (ev # right_events tst)" "small_times (ev # left_events tst)" "small_times (ev # ev # left_events tst)"
    using assms(10) tst by (auto simp: small_times_def)
  have start: "execute_correlate X H corr ev q w =
      bind_outcome (if ml then corr_side X H corr ?i True ev wa else Ok wa) (\<lambda>w3.
      bind_outcome (if mr then corr_side X H corr ?i False ev w3 else Ok w3) (\<lambda>w4. Ok (True, w4)))"
    using assms(1-8) by (auto simp: execute_correlate_def get_corr_state_def corr_get_def tst_def wa_def Let_def)
  obtain wb stb where wb: "(if ml then corr_side X H corr ?i True ev wa else Ok wa) = Ok wb"
    "ctx_get ?i wb = Some (CORR_STATE stb)" "cs_within_ms stb = cs_within_ms st"
    "left_events stb = (if ml then ev # left_events st else left_events st)" "right_events stb = right_events st"
    "events_processed wb = events_processed w + (if ml then partners corr ev (right_events st) else 0)"
  proof (cases ml)
    case True
    let ?new = "add_corr_event ev True tst"
    obtain w3 where "corr_side X H corr ?i True ev wa = Ok w3"
      "exec_contexts w3 = exec_contexts (ctx_put ?i (CORR_STATE ?new) wa)"
      "events_processed w3 = events_processed wa + partners corr ev (right_events tst)"
      using corr_side_quiet [OF wa(1) assms(9), of "right_events tst" True ev X] sm(1) by auto
    moreover from this(2) have "ctx_get ?i w3 = Some (CORR_STATE ?new)"
      using ctx_get_cong wa(1) by (metis ctx_get_put option.simps(9))
    ultimately show ?thesis
      using True wa tst by (intro that [of w3 ?new]) (simp_all add: add_corr_event_def)
  next
    case False
    with wa tst show ?thesis by (intro that [of wa tst]) simp_all
  qed
  show ?thesis
  proof (cases mr)
    case True
    let ?new = "add_corr_event ev False stb"
    have "small_times (ev # left_events stb)" using wb(4) sm tst by simp
    then obtain w4 where w4: "corr_side X H corr ?i False ev wb = Ok w4"
      "exec_contexts w4 = exec_contexts (ctx_put ?i (CORR_STATE ?new) wb)"
      "events_processed w4 = events_processed wb + partners corr ev (left_events stb)"
      using corr_side_quiet [OF wb(2) assms(9), of "left_events stb" False ev X] by auto
    moreover have "ctx_get ?i w4 = Some (CORR_STATE ?new)"
      using ctx_get_cong [OF w4(2)] wb(2) by (simp add: ctx_get_put)
    ultimately show ?thesis
      using True start wb by (intro exI [of _ w4] exI [of _ ?new]) (simp add: add_corr_event_def)
  next
    case False
    with start wb show ?thesis by (intro exI [of _ wb] exI [of _ stb]) simp
  qed
qed

end

section \<open>What a query can change\<close>

text \<open>A property of the world that does not depend on the counters, the clock, the engine and the contexts,
  and that the handler keeps on derived events, is kept by every query: all events a query emits are
  derived.\<close>

lemma create_corr_result_event_input: "create_corr_result_event X l r c = Ok e \<Longrightarrow> ev_input e = None"
  by (auto simp: create_corr_result_event_def outcome_simps Let_def)

lemma create_correlation_event_input: "create_correlation_event X win l n = Ok e \<Longrightarrow> ev_input e = None"
  by (auto simp: create_correlation_event_def outcome_simps Let_def)

lemma create_agg_result_event_input: "create_agg_result_event X now b st = Ok e \<Longrightarrow> ev_input e = None"
  by (auto simp: create_agg_result_event_def nblex_event_new_def outcome_simps Let_def)

locale query_frame =
  fixes H :: "('j, 'x) nql_handlers" and P :: "('j, 'x) nql_world_scheme \<Rightarrow> bool"
  assumes tick: "P (w\<lparr>hr_tick := t\<rparr>) = P w"
    and contexts: "P (w\<lparr>exec_contexts := xs\<rparr>) = P w"
    and emit: "ev_input ev = None \<Longrightarrow> P w \<Longrightarrow> nblex_event_emit X H ev w = Ok w' \<Longrightarrow> P w'"
begin

lemma derived [simp]:
  "P (ctx_put i s w) = P w" "P (snd (nblex_timestamp_now X w)) = P w" "P (snd (event_time X ev w)) = P w"
  by (simp_all add: ctx_put_def nblex_timestamp_now_def event_time_def tick contexts)

lemma emit_result_frame:
  assumes "emit_result X H b st w = Ok w'" and "P w"
  shows "P w'"
proof -
  have "P (snd (nblex_timestamp_now X w))" using assms(2) by simp
  moreover obtain ev where "ev_input ev = None" "nblex_event_emit X H ev (snd (nblex_timestamp_now X w)) = Ok w'"
    using assms(1)
    by (auto simp: emit_result_def outcome_simps split: prod.splits dest: create_agg_result_event_input)
  ultimately show ?thesis using emit by blast
qed

lemma update_buckets_frame: "P (snd (update_buckets X ev as st w)) = P w"
proof (induction as arbitrary: st w)
  case (Cons a as)
  obtain t w1 where e: "event_time X ev w = (t, w1)" by fastforce
  then have "P w1 = P w" using derived(3) [of X ev w] by simp
  with e Cons show ?case by simp
qed simp

lemma ctx_frame:
  "get_agg_state agg q w = Ok (i, w') \<Longrightarrow> P w' = P w" "get_corr_state corr q w = Ok (i, w') \<Longrightarrow> P w' = P w"
  by (auto simp: get_agg_state_def get_corr_state_def add_ctx_def contexts split: option.splits ctx_state.splits)

lemma execute_aggregate_frame:
  assumes "execute_aggregate X H agg ev q w = Ok (b, w')" and "P w"
  shows "P w'"
proof (cases "case agg_where agg of None \<Rightarrow> False | Some f \<Rightarrow> \<not> nblex_filter_matches X f ev")
  case True
  with assms show ?thesis by (simp add: execute_aggregate_def)
next
  case False
  with assms(1) obtain i w1 st where 1: "get_agg_state agg q w = Ok (i, w1)" "agg_get i w1 = Ok st"
    by (auto simp: execute_aggregate_def outcome_simps)
  let ?st = "start_agg_timer (started w1) st"
  obtain keys k where k: "extract_group_keys X ?st ev = (keys, k)" by fastforce
  obtain ts w2 where 2: "event_time X ev w1 = (ts, w2)" by fastforce
  obtain as st2 where g: "get_or_create_buckets_for_event X ?st keys k ts = Ok (as, st2)"
    using False assms(1) 1 k 2 by (auto simp: execute_aggregate_def outcome_simps Let_def)
  obtain st3 w3 where 3: "update_buckets X ev as st2 w2 = (st3, w3)" by fastforce
  have "P w3"
    using ctx_frame(1) [OF 1(1)] assms(2) 2 3 derived(3) [of X ev w1]
      update_buckets_frame [of X ev as st2 w2] by simp
  then have "P (ctx_put i (AGG_STATE st3) w3)" by simp
  with False assms(1) 1 k 2 g 3 show ?thesis
    by (auto simp: execute_aggregate_def outcome_simps Let_def split: if_splits option.splits dest: emit_result_frame)
qed

lemma corr_matches_frame: "corr_matches X H corr l ev es w = Ok w' \<Longrightarrow> P w \<Longrightarrow> P w'"
proof (induction es arbitrary: w)
  case (Cons e es)
  obtain near where near: "within_window (ev_timestamp ev) (ev_timestamp e) (ms_to_ns (within_ms corr)) = Ok near"
    using Cons.prems(1) by (auto simp: outcome_simps)
  show ?case
  proof (cases near)
    case False
    with Cons near show ?thesis by simp
  next
    case True
    with Cons.prems(1) near obtain r v where "ev_input r = None"
      "nblex_event_emit X H r (snd (nblex_timestamp_now X w)) = Ok v" and v: "corr_matches X H corr l ev es v = Ok w'"
      by (auto simp: outcome_simps split: if_splits dest: create_corr_result_event_input)
    moreover have "P (snd (nblex_timestamp_now X w))" using Cons.prems(2) by simp
    ultimately have "P v" using emit by blast
    with v show ?thesis by (rule Cons.IH)
  qed
qed simp

lemma corr_side_frame: "corr_side X H corr i l ev w = Ok w' \<Longrightarrow> P w \<Longrightarrow> P w'"
  by (auto simp: corr_side_def outcome_simps Let_def dest!: corr_matches_frame)

lemma execute_correlate_frame:
  assumes "execute_correlate X H corr ev q w = Ok (b, w')" and "P w"
  shows "P w'"
proof -
  define ml mr where "ml = (case left_filter corr of None \<Rightarrow> False | Some f \<Rightarrow> nblex_filter_matches X f ev)"
    and "mr = (case right_filter corr of None \<Rightarrow> False | Some f \<Rightarrow> nblex_filter_matches X f ev)"
  note d = execute_correlate_def ml_def [symmetric] mr_def [symmetric] Let_def
  show ?thesis
  proof (cases "\<not> ml \<and> \<not> mr")
    case True
    with assms show ?thesis by (simp add: d)
  next
    case False
    with assms(1) obtain i w1 st w3 where 1: "get_corr_state corr q w = Ok (i, w1)" and
      3: "(if ml then corr_side X H corr i True ev (ctx_put i st w1) else Ok (ctx_put i st w1)) = Ok w3" and
      4: "(if mr then corr_side X H corr i False ev w3 else Ok w3) = Ok w'"
      by (auto simp: d outcome_simps)
    have "P (ctx_put i st w1)" using assms(2) ctx_frame(2) [OF 1] by simp
    with 3 have "P w3" using corr_side_frame by (auto split: if_splits)
    with 4 show ?thesis using corr_side_frame by (auto split: if_splits)
  qed
qed

lemma execute_query_frame:
  "K = H \<Longrightarrow> execute_query X K q ev s w = Ok (b, w') \<Longrightarrow> P w \<Longrightarrow> P w'"
  "K = H \<Longrightarrow> execute_pipeline X K qs ev s w = Ok (b, w') \<Longrightarrow> P w \<Longrightarrow> P w'"
  by (induction X K q ev s w and X K qs ev s w arbitrary: b w' and b w' rule: execute_query_execute_pipeline.induct)
    (auto simp: outcome_simps intro: execute_aggregate_frame execute_correlate_frame split: if_splits)

lemma nql_execute_frame: "nql_execute X H s ev w = Ok (b, w') \<Longrightarrow> P w \<Longrightarrow> P w'"
  using execute_query_frame(1) [OF refl] by (auto simp: nql_execute_def split: option.splits)

lemma flush_bucket_frame:
  assumes "flush_bucket X H i now a w = Ok w'" and "P w"
  shows "P w'"
proof -
  obtain st b b1 sf sr where r: "agg_get i w = Ok st" "find (\<lambda>b. b_addr b = a) (buckets st) = Some b"
    "flush_decision X now (as_window st) b = Ok (b1, sf, sr)"
    using assms(1) by (auto simp: flush_bucket_def outcome_simps split: option.splits)
  define st1 where "st1 = update_bucket a (\<lambda>_. b1) st"
  have p: "P (ctx_put i (AGG_STATE st1) w)" using assms(2) by simp
  have "bind_outcome (if sf then emit_result X H b1 st1 (ctx_put i (AGG_STATE st1) w)
              else Ok (ctx_put i (AGG_STATE st1) w)) (\<lambda>w2. if sr then bind_outcome (agg_get i w2)
              (\<lambda>st2. Ok (ctx_put i (AGG_STATE (remove_bucket_from_list a st2)) w2)) else Ok w2) = Ok w'"
    using assms(1) r unfolding st1_def by (simp add: flush_bucket_def Let_def split del: if_split)
  then obtain w2 where w2: "(if sf then emit_result X H b1 st1 (ctx_put i (AGG_STATE st1) w)
        else Ok (ctx_put i (AGG_STATE st1) w)) = Ok w2"
    and "(if sr then bind_outcome (agg_get i w2)
        (\<lambda>st2. Ok (ctx_put i (AGG_STATE (remove_bucket_from_list a st2)) w2)) else Ok w2) = Ok w'"
    unfolding bind_outcome_Ok_iff by blast
  moreover have "P w2" using w2 p emit_result_frame by (auto split: if_splits)
  ultimately show ?thesis by (auto simp: outcome_simps split: if_splits)
qed

lemma flush_buckets_frame: "flush_buckets X H i now as w = Ok w' \<Longrightarrow> P w \<Longrightarrow> P w'"
  by (induction as arbitrary: w) (auto simp: outcome_simps dest: flush_bucket_frame)

lemma window_flush_frame:
  assumes "window_flush_cb X H i w = Ok w'" and "P w"
  shows "P w'"
proof -
  obtain now w1 where 1: "nblex_timestamp_now X w = (now, w1)" by fastforce
  then have "P w1" using assms(2) derived(2) [of X w] by simp
  with assms(1) 1 show ?thesis
    by (auto simp: window_flush_cb_def outcome_simps dest: flush_buckets_frame)
qed

lemma corr_cleanup_frame:
  assumes "corr_cleanup_cb X i w = Ok w'" and "P w"
  shows "P w'"
proof -
  obtain now w1 where 1: "nblex_timestamp_now X w = (now, w1)" by fastforce
  then have "P w1" using assms(2) derived(2) [of X w] by simp
  with assms(1) 1 show ?thesis
    by (auto simp: corr_cleanup_cb_def cleanup_old_events_filter outcome_simps Let_def)
qed

end

text \<open>Emission of a derived event by handlers with a weaker law; this locale gives the one above.\<close>

locale nql_frame =
  fixes H :: "('j, 'x) nql_handlers" and P :: "('j, 'x) nql_world_scheme \<Rightarrow> bool"
  assumes frame: "P (w\<lparr>events_processed := n\<rparr>) = P w" "P (w\<lparr>correlation := c\<rparr>) = P w"
      "P (w\<lparr>events_correlated := n\<rparr>) = P w" "P (w\<lparr>hr_tick := t\<rparr>) = P w" "P (w\<lparr>exec_contexts := xs\<rparr>) = P w"
    and handler: "ev_input ev = None \<Longrightarrow> event_handler w = Some h \<Longrightarrow> P w \<Longrightarrow> H h ev w = Ok w' \<Longrightarrow> P w'"
begin

lemma frame_count [simp]: "P (count_correlation w) = P w"
  by (simp add: count_correlation_def frame)

lemma emit_with_frame:
  assumes "emit_with Q X H ev w = Ok w'" and "P w" and "ev_input ev = None"
    and "\<And>w w'. Q ev w = Ok w' \<Longrightarrow> P w \<Longrightarrow> P w'"
  shows "P w'"
proof -
  let ?wp = "w\<lparr>events_processed := events_processed w + 1\<rparr>"
  have wp: "P ?wp" using assms(2) by (simp add: frame)
  have "\<not> filtered_out X ev" using assms(3) by (simp add: filtered_out_def)
  with assms(1) obtain v where v: "(if correlation ?wp = None then Ok ?wp else Q ev ?wp) = Ok v"
    and h: "(case event_handler v of None \<Rightarrow> Ok v | Some h \<Rightarrow> H h ev v) = Ok w'"
    unfolding emit_with_def Let_def by (auto simp: outcome_simps simp del: split_paired_Ex)
  have "P v"
  proof (cases "correlation ?wp = None")
    case False
    from v have "Q ev ?wp = Ok v" unfolding if_not_P [OF False] .
    then show ?thesis using assms(4) wp by blast
  qed (use v wp in simp)
  then show ?thesis
    using h handler [OF assms(3)] by (cases "event_handler v") simp_all
qed

lemma emit_correlation_frame:
  "emit_correlation X H ev w = Ok w' \<Longrightarrow> P w \<Longrightarrow> ev_input ev = None \<Longrightarrow> P w'"
  unfolding emit_correlation_def by (rule emit_with_frame) auto

lemma check_entries_frame: "check_entries X H ev es w = Ok w' \<Longrightarrow> P w \<Longrightarrow> P w'"
proof (induction es arbitrary: w)
  case (Cons e es)
  obtain c where c: "correlation w = Some c" using Cons.prems(1) by (auto split: option.splits)
  obtain near where near: "within_window (ev_timestamp ev) (ev_timestamp e) (window_ns c) = Ok near"
    using Cons.prems(1) c by (auto simp: outcome_simps)
  show ?case
  proof (cases near)
    case False
    with Cons near c show ?thesis by simp
  next
    case True
    with Cons.prems(1) near c obtain ce v where "ev_input ce = None"
      "emit_correlation X H ce (count_correlation w) = Ok v" and v: "check_entries X H ev es v = Ok w'"
      by (auto simp: outcome_simps split: if_splits dest: create_correlation_event_input)
    moreover have "P (count_correlation w)" using Cons.prems(2) by simp
    ultimately have "P v" using emit_correlation_frame by blast
    with v show ?thesis by (rule Cons.IH)
  qed
qed simp

lemma process_event_frame: "nblex_correlation_process_event X H ev w = Ok w' \<Longrightarrow> P w \<Longrightarrow> P w'"
  by (auto simp: nblex_correlation_process_event_def correlation_check_event_def outcome_simps frame
      split: option.splits if_splits nblex_event_type.splits dest!: check_entries_frame)

lemma emit_frame: "nblex_event_emit X H ev w = Ok w' \<Longrightarrow> P w \<Longrightarrow> ev_input ev = None \<Longrightarrow> P w'"
  unfolding nblex_event_emit_def using emit_with_frame process_event_frame by blast

end

sublocale nql_frame \<subseteq> query_frame H P
  by unfold_locales (auto simp: frame intro: emit_frame)

section \<open>Queries keep the invariant of the world\<close>

locale nql_keeping_handlers = keeping_handlers H for H :: "('j, 'x) nql_handlers"

lemma world_ok_frame: "world_ok (w\<lparr>hr_tick := t\<rparr>) = world_ok w" "world_ok (w\<lparr>exec_contexts := xs\<rparr>) = world_ok w"
  by (simp_all add: world_ok_def lifecycle_ok_def)

sublocale nql_keeping_handlers \<subseteq> ok: query_frame H world_ok
  by unfold_locales (simp_all only: world_ok_frame nblex_event_emit_keeps)

section \<open>Handlers that agree on derived events\<close>

locale handlers_agree =
  fixes H K :: "('j, 'x) nql_handlers"
  assumes agree: "ev_input ev = None \<Longrightarrow> H h ev w = K h ev w"
begin

lemma emit_with_agree:
  assumes "ev_input ev = None" and "\<And>w. Q ev w = R ev w"
  shows "emit_with Q X H ev w = emit_with R X K ev w"
  using assms agree [OF assms(1)]
  by (auto simp: emit_with_def Let_def intro!: bind_outcome_cong split: option.splits)

lemma emit_correlation_agree: "ev_input ev = None \<Longrightarrow> emit_correlation X H ev w = emit_correlation X K ev w"
  by (simp add: emit_correlation_def emit_with_agree)

lemma check_entries_agree: "check_entries X H ev es w = check_entries X K ev es w"
  by (induction es arbitrary: w)
    (auto split: option.splits if_splits intro!: bind_outcome_cong emit_correlation_agree
      intro: create_correlation_event_input)

lemma process_event_agree:
  "nblex_correlation_process_event X H ev w = nblex_correlation_process_event X K ev w"
  by (simp add: nblex_correlation_process_event_def correlation_check_event_def check_entries_agree
      cong: option.case_cong nblex_event_type.case_cong)

lemma emit_agree: "ev_input ev = None \<Longrightarrow> nblex_event_emit X H ev w = nblex_event_emit X K ev w"
  unfolding nblex_event_emit_def by (rule emit_with_agree) (auto simp: process_event_agree)

lemma emit_result_agree: "emit_result X H b st w = emit_result X K b st w"
  by (auto simp: emit_result_def split: prod.splits intro!: bind_outcome_cong emit_agree
      intro: create_agg_result_event_input)

lemma corr_matches_agree: "corr_matches X H c l ev es w = corr_matches X K c l ev es w"
  by (induction es arbitrary: w)
    (auto split: if_splits intro!: bind_outcome_cong emit_agree intro: create_corr_result_event_input)

lemma corr_side_agree: "corr_side X H c i l ev w = corr_side X K c i l ev w"
  by (simp add: corr_side_def corr_matches_agree)

lemma execute_correlate_agree: "execute_correlate X H c ev q w = execute_correlate X K c ev q w"
  by (simp only: execute_correlate_def corr_side_agree cong: if_cong)

lemma execute_aggregate_agree: "execute_aggregate X H a ev q w = execute_aggregate X K a ev q w"
  by (simp only: execute_aggregate_def emit_result_agree cong: if_cong option.case_cong prod.case_cong)

lemma execute_query_agree:
  "L = H \<Longrightarrow> execute_query X L q ev s w = execute_query X K q ev s w"
  "L = H \<Longrightarrow> execute_pipeline X L qs ev s w = execute_pipeline X K qs ev s w"
  by (induction X L q ev s w and X L qs ev s w rule: execute_query_execute_pipeline.induct)
    (auto simp: execute_correlate_agree execute_aggregate_agree intro!: bind_outcome_cong)

lemma nql_execute_agree: "nql_execute X H s ev w = nql_execute X K s ev w"
  unfolding nql_execute_def by (simp only: execute_query_agree(1) [OF refl] cong: option.case_cong)

end

end
