(* ===== verification/Cli.thy ===== *)
theory Cli
  imports Exec_Props
begin

text \<open>
  The event handlers of the command line (\<open>cli/main.c\<close>) and the whole program: the world with its
  engine, the contexts of the executor and the handlers, closed over the recursion between them.

  The world is extended with the lines written to \<open>stdout\<close> and with the calls of the output modules,
  in their order; the three static pointers are the flags \<open>out_open\<close>. A handler that executes a query is
  called again for the events the query emits. These have no input, so the recursion has depth one:
  \<open>derived_handlers\<close> are the handlers on such events, and \<open>query_handler_equation\<close> (theory \<open>Cli_Props\<close>) is the equation of
  the code, where the query is executed under the handlers themselves.
\<close>

section \<open>Handlers\<close>

datatype output_module = FILE_OUTPUT | HTTP_OUTPUT | METRICS_OUTPUT

record 'j cli_world = "'j nql_world" +
  stdout :: "string list"
  out_open :: "output_module \<Rightarrow> bool"
  out_calls :: "(output_module \<times> 'j event) list"

type_synonym ('j, 'x) cli_state = "('j, 'x) cli_world_scheme"
type_synonym ('j, 'x) cli_handlers = "('j, ('j, 'x) cli_world_ext) nql_handlers"

text \<open>The state of the process before the world is opened.\<close>

definition initial_program :: "'j cli_world" where
  "initial_program = nql_world.extend initial_world (cli_world.fields [] (\<lambda>_. False) [])"

lemma initial_program_start:
  "world.truncate initial_program = nblex_world_new" "exec_contexts initial_program = []"
  "stdout initial_program = []"
  by (simp_all add: initial_program_def initial_world_def nblex_world_new_def world.defs nql_world.defs cli_world.defs)

definition print_event :: "'j ext \<Rightarrow> 'j event \<Rightarrow> ('j, 'x) cli_state \<Rightarrow> ('j, 'x) cli_state" where
  "print_event X ev w = (case nblex_event_to_json X (Some ev) of
      None \<Rightarrow> w
    | Some json_str \<Rightarrow> w\<lparr>stdout := stdout w @ [json_str]\<rparr>)"

definition event_handler_json ::
  "'j ext \<Rightarrow> 'j event option \<Rightarrow> ('j, 'x) cli_state \<Rightarrow> ('j, 'x) cli_state" where
  "event_handler_json X ev w = (case ev of None \<Rightarrow> w | Some e \<Rightarrow> print_event X e w)"

definition output_write :: "output_module \<Rightarrow> 'j event \<Rightarrow> ('j, 'x) cli_state \<Rightarrow> ('j, 'x) cli_state" where
  "output_write m ev w = (if out_open w m then w\<lparr>out_calls := out_calls w @ [(m, ev)]\<rparr> else w)"

definition event_handler_multi ::
  "'j ext \<Rightarrow> 'j event option \<Rightarrow> ('j, 'x) cli_state \<Rightarrow> ('j, 'x) cli_state" where
  "event_handler_multi X ev w = (case ev of
      None \<Rightarrow> w
    | Some e \<Rightarrow> output_write METRICS_OUTPUT e (output_write HTTP_OUTPUT e
        (output_write FILE_OUTPUT e (print_event X e w))))"

text \<open>The handlers on an event without input: the query handler finds no world and returns.\<close>

fun derived_handlers :: "'j ext \<Rightarrow> ('j, 'x) cli_handlers" where
  "derived_handlers X (EVENT_HANDLER_JSON, user_data) ev w = Ok (event_handler_json X (Some ev) w)"
| "derived_handlers X (EVENT_HANDLER_MULTI, user_data) ev w = Ok (event_handler_multi X (Some ev) w)"
| "derived_handlers X (EVENT_HANDLER_QUERY, user_data) ev w = Ok w"

definition event_handler_query ::
  "'j ext \<Rightarrow> 'j event option \<Rightarrow> string option \<Rightarrow> ('j, 'x) cli_state \<Rightarrow> ('j, 'x) cli_state outcome" where
  "event_handler_query X event query_str w = (case event of
      None \<Rightarrow> Ok w
    | Some ev \<Rightarrow>
        if query_str = None \<or> ev_input ev = None then Ok w
        else bind_outcome (nql_execute X (derived_handlers X) query_str ev w) (\<lambda>(matched, w1).
          Ok (if matched then print_event X ev w1 else w1)))"

fun cli_handlers :: "'j ext \<Rightarrow> ('j, 'x) cli_handlers" where
  "cli_handlers X (EVENT_HANDLER_JSON, user_data) ev w = Ok (event_handler_json X (Some ev) w)"
| "cli_handlers X (EVENT_HANDLER_MULTI, user_data) ev w = Ok (event_handler_multi X (Some ev) w)"
| "cli_handlers X (EVENT_HANDLER_QUERY, user_data) ev w = event_handler_query X (Some ev) user_data w"

section \<open>The interfaces of the engine and of the executor hold for these handlers\<close>

lemma print_event_world [simp]:
  "world.truncate (print_event X ev w) = world.truncate w"
  "exec_contexts (print_event X ev w) = exec_contexts w"
  "event_handler (print_event X ev w) = event_handler w"
  by (auto simp: print_event_def world.truncate_def split: option.splits)

text \<open>An engine that holds no network event.\<close>

definition no_network :: "('j, 'x) cli_state \<Rightarrow> bool" where
  "no_network w \<longleftrightarrow> (case correlation w of None \<Rightarrow> False | Some c \<Rightarrow> network_events c = [])"

lemma no_network_iff: "no_network w \<longleftrightarrow> (\<exists>c. correlation w = Some c \<and> network_events c = [])"
  by (simp add: no_network_def split: option.split)

lemma output_write_world [simp]:
  "world.truncate (output_write m ev w) = world.truncate w"
  "exec_contexts (output_write m ev w) = exec_contexts w"
  by (auto simp: output_write_def world.truncate_def)

lemma derived_quiet:
  "\<exists>w'. derived_handlers X h ev w = Ok w' \<and> world.truncate w' = world.truncate w
    \<and> exec_contexts w' = exec_contexts w"
  by (cases "(X, h, ev, w)" rule: derived_handlers.cases)
    (simp_all add: event_handler_json_def event_handler_multi_def)

lemma cli_derived: "ev_input ev = None \<Longrightarrow> cli_handlers X h ev w = derived_handlers X h ev w"
  by (cases "(X, h, ev, w)" rule: cli_handlers.cases) (simp_all add: event_handler_query_def)

interpretation derived: nql_quiet_handlers "derived_handlers X"
  by unfold_locales (use derived_quiet in \<open>metis outcome.inject\<close>)+

interpretation cli: nql_quiet_handlers "cli_handlers X"
  by unfold_locales (use derived_quiet cli_derived in \<open>metis outcome.inject\<close>)+

interpretation knot: handlers_agree "cli_handlers X" "derived_handlers X"
  by unfold_locales (rule cli_derived)

lemma world_ok_truncate: "world.truncate w' = world.truncate w \<Longrightarrow> world_ok w' = world_ok w"
  by (simp add: world.truncate_def world_ok_def lifecycle_ok_def)

interpretation derived_keeps: nql_keeping_handlers "derived_handlers X"
proof unfold_locales
  fix w w' :: "('j, 'x) cli_state" and X h ev
  assume "world_ok w" and "derived_handlers X h ev w = Ok w'"
  then show "world_ok w'" using derived_quiet world_ok_truncate by (metis outcome.inject)
qed

lemma cli_keeps:
  assumes "world_ok w" and "cli_handlers X h ev w = Ok w'"
  shows "world_ok w'"
proof (cases "fst h = EVENT_HANDLER_QUERY")
  case True
  with assms(2) have "event_handler_query X (Some ev) (snd h) w = Ok w'" by (cases h) simp
  then show ?thesis
    using assms(1) derived_keeps.ok.nql_execute_frame world_ok_truncate [OF print_event_world(1)]
    by (fastforce simp: event_handler_query_def outcome_simps split: if_splits)
next
  case False
  then have "cli_handlers X h ev w = derived_handlers X h ev w"
    by (cases "(X, h, ev, w)" rule: cli_handlers.cases) auto
  with assms show ?thesis using derived_keeps.keeping by metis
qed

interpretation cli_keeps: nql_keeping_handlers "cli_handlers X"
  by unfold_locales (rule cli_keeps)

end
