(* ===== verification/Cli_Props.thy ===== *)
theory Cli_Props
  imports Cli
begin

text \<open>
  The program as a whole: the steps of the process, its invariant, what is written to \<open>stdout\<close>, and the
  correlations that an event produces under the handlers of the command line.
\<close>

section \<open>The process\<close>

text \<open>Besides the steps of the world, the timers of the execution contexts fire, and a host program that
  links the library executes queries itself.\<close>

inductive program_step ::
  "'j ext \<Rightarrow> (string \<Rightarrow> nblex_input \<Rightarrow> int) \<Rightarrow> ('j, 'x) cli_state \<Rightarrow> ('j, 'x) cli_state \<Rightarrow> bool"
  for X V where
  world: "world_step X (cli_handlers X) V w w' \<Longrightarrow> program_step X V w w'"
| execute: "nql_execute X (cli_handlers X) q ev w = Ok (b, w') \<Longrightarrow> program_step X V w w'"
| window_timer: "window_flush_cb X (cli_handlers X) i w = Ok w' \<Longrightarrow> program_step X V w w'"
| cleanup_timer: "corr_cleanup_cb X i w = Ok w' \<Longrightarrow> program_step X V w w'"

inductive program_reachable ::
  "'j ext \<Rightarrow> (string \<Rightarrow> nblex_input \<Rightarrow> int) \<Rightarrow> ('j, 'x) cli_state \<Rightarrow> bool"
  for X V where
  start: "world.truncate w = nblex_world_new \<Longrightarrow> exec_contexts w = [] \<Longrightarrow> program_reachable X V w"
| step: "program_reachable X V w \<Longrightarrow> program_step X V w w' \<Longrightarrow> program_reachable X V w'"

lemma program_reachable_ok: "program_reachable X V w \<Longrightarrow> world_ok w"
proof (induction rule: program_reachable.induct)
  case (start w)
  then show ?case by (simp add: world_ok_new)
next
  case (step w w')
  from step(2,3) show ?case
    by cases (auto intro: cli_keeps.world_step_ok cli_keeps.ok.nql_execute_frame
        cli_keeps.ok.window_flush_frame cli_keeps.ok.corr_cleanup_frame)
qed

text \<open>C6: In every state the process reaches, a world that is open has a correlation engine; the two
  buffers of the engine hold events of their own type only, their counters are their lengths, and they
  never hold more than 10,000 events; a started world is open, and the inputs fit their array.\<close>

theorem reachable_buffers:
  assumes "program_reachable X V w"
  shows "(opened w \<longrightarrow> correlation w \<noteq> None) \<and> (started w \<longrightarrow> opened w)
    \<and> length (inputs w) \<le> inputs_capacity w
    \<and> (\<forall>c. correlation w = Some c \<longrightarrow>
        (\<forall>e \<in> set (log_events c). ev_type e = NBLEX_EVENT_LOG)
        \<and> (\<forall>e \<in> set (network_events c). ev_type e = NBLEX_EVENT_NETWORK)
        \<and> unat (log_events_count c) = length (log_events c)
        \<and> unat (network_events_count c) = length (network_events c)
        \<and> length (log_events c) \<le> 10000 \<and> length (network_events c) \<le> 10000)"
  using program_reachable_ok [OF assms]
  by (auto simp: world_ok_def lifecycle_ok_def corr_ok_def typed_def counted_def)

theorem reachable_buffers_witness:
  "let X = tree_ext (\<lambda>_. None) (\<lambda>_. None) (\<lambda>_. True) (\<lambda>_ _. 0) (\<lambda>_. 0);
       w = snd (nblex_world_open initial_program)
   in program_reachable X (\<lambda>_ _. 0) w \<and> opened w \<and> correlation w \<noteq> None"
proof -
  let ?X = "tree_ext (\<lambda>_. None) (\<lambda>_. None) (\<lambda>_. True) (\<lambda>_ _. 0) (\<lambda>_. 0)"
  let ?w = "snd (nblex_world_open initial_program) :: jtree cli_world"
  have "program_reachable ?X (\<lambda>_ _. 0) (initial_program :: jtree cli_world)"
    by (rule program_reachable.start) (simp_all add: initial_program_start)
  then have r: "program_reachable ?X (\<lambda>_ _. 0) ?w"
    by (rule program_reachable.step) (intro program_step.world world_step.open_world)
  moreover have "opened ?w"
    by (simp add: nblex_world_open_def)
  ultimately show ?thesis using reachable_buffers [OF r] unfolding Let_def by blast
qed

section \<open>What is printed\<close>

text \<open>The query handler executes its query under the handlers themselves: the model's two-level
  recursion is the recursion of the code.\<close>

lemma query_handler_equation:
  "cli_handlers X (EVENT_HANDLER_QUERY, q) ev w =
     (if q = None \<or> ev_input ev = None then Ok w
      else bind_outcome (nql_execute X (cli_handlers X) q ev w) (\<lambda>(matched, w1).
        Ok (if matched then print_event X ev w1 else w1)))"
  by (simp add: event_handler_query_def knot.nql_execute_agree)

interpretation query_frame_cli: nql_frame "cli_handlers X"
  "\<lambda>w. event_handler w = Some (EVENT_HANDLER_QUERY, ud) \<and> stdout w = s" for X ud s
  by unfold_locales (auto simp: event_handler_query_def)

text \<open>C11: With a query given to the command line, emitting an event prints the event itself or
  nothing. No result of the query, and no event of the correlation engine, is ever printed.\<close>

theorem query_prints_only_inputs:
  assumes "event_handler w = Some (EVENT_HANDLER_QUERY, q)"
    and "nblex_event_emit X (cli_handlers X) ev w = Ok w'"
  shows "event_handler w' = event_handler w \<and> (stdout w' = stdout w \<or>
    (\<exists>line. nblex_event_to_json X (Some ev) = Some line \<and> stdout w' = stdout w @ [line]
      \<and> (\<exists>i. ev_input ev = Some i)))"
proof (cases "filtered_out X ev")
  case True
  with assms(2) show ?thesis by (simp add: nblex_event_emit_def emit_with_def)
next
  case False
  let ?P = "\<lambda>w'. event_handler w' = Some (EVENT_HANDLER_QUERY, q) \<and> stdout w' = stdout w"
  let ?wp = "w\<lparr>events_processed := events_processed w + 1\<rparr>"
  from False assms(2) obtain v where
    v: "(if correlation ?wp = None then Ok ?wp else nblex_correlation_process_event X (cli_handlers X) ev ?wp) = Ok v"
    and h: "(case event_handler v of None \<Rightarrow> Ok v | Some h \<Rightarrow> cli_handlers X h ev v) = Ok w'"
    unfolding nblex_event_emit_def emit_with_def Let_def by (auto simp: outcome_simps)
  have "?P ?wp" using assms(1) by simp
  with v have "?P v" using query_frame_cli.process_event_frame by (fastforce split: if_splits)
  with h consider "w' = v" | b u where "nql_execute X (derived_handlers X) q ev v = Ok (b, u)"
      "w' = (if b then print_event X ev u else u)" "\<exists>i. ev_input ev = Some i"
    by (fastforce simp: event_handler_query_def outcome_simps split: if_splits)
  then show ?thesis
  proof cases
    case 2
    then have "nql_execute X (cli_handlers X) q ev v = Ok (b, u)" by (simp add: knot.nql_execute_agree)
    with \<open>?P v\<close> have "?P u" using query_frame_cli.nql_execute_frame by blast
    with 2 assms(1) show ?thesis by (auto simp: print_event_def split: option.splits)
  qed (use \<open>?P v\<close> assms(1) in simp)
qed

theorem query_prints_only_inputs_witness:
  "let X = tree_ext (\<lambda>_. None) (\<lambda>_. Some ''{}'') (\<lambda>_. True) (\<lambda>_ _. 0) (\<lambda>_. 0);
       w = initial_program\<lparr>event_handler := Some (EVENT_HANDLER_QUERY, Some ''a == 1'')\<rparr>;
       ev = \<lparr>ev_type = NBLEX_EVENT_LOG, ev_timestamp = 1, ev_input = Some (nblex_input_new NBLEX_INPUT_FILE),
             ev_data = Some (JObj [(''a'', JInt 1)])\<rparr>
   in \<exists>w'. nblex_event_emit X (cli_handlers X) ev w = Ok w' \<and> stdout w' = [''{}'']"
proof -
  let ?X = "tree_ext (\<lambda>_. None) (\<lambda>_. Some ''{}'') (\<lambda>_. True) (\<lambda>_ _. 0) (\<lambda>_. 0)"
  let ?h = "Some (EVENT_HANDLER_QUERY, Some ''a == 1'')"
  let ?w = "initial_program\<lparr>event_handler := ?h\<rparr> :: jtree cli_world"
  let ?ev = "\<lparr>ev_type = NBLEX_EVENT_LOG, ev_timestamp = 1, ev_input = Some (nblex_input_new NBLEX_INPUT_FILE),
      ev_data = Some (JObj [(''a'', JInt 1)])\<rparr>"
  have h: "event_handler ?w = ?h" by simp
  have e: "case nblex_event_emit ?X (cli_handlers ?X) ?ev ?w of Ok w' \<Rightarrow> stdout w' \<noteq> [] | UB \<Rightarrow> False"
    by code_simp
  then obtain w' where w': "nblex_event_emit ?X (cli_handlers ?X) ?ev ?w = Ok w'" "stdout w' \<noteq> []"
    by (auto split: outcome.splits)
  moreover have "nblex_event_to_json ?X (Some ?ev) = Some ''{}''" by code_simp
  moreover have "stdout ?w = []" by (simp add: initial_program_start)
  ultimately have "stdout w' = [''{}'']" using query_prints_only_inputs [OF h w'(1)] by auto
  with w'(1) show ?thesis unfolding Let_def by blast
qed

text \<open>With a query given to the command line, the timer of an aggregation prints nothing: the
  results of a windowed aggregation are lost.\<close>

theorem window_results_lost:
  assumes "event_handler w = Some (EVENT_HANDLER_QUERY, q)"
    and "window_flush_cb X (cli_handlers X) i w = Ok w'"
  shows "stdout w' = stdout w"
  using query_frame_cli.window_flush_frame [OF assms(2)] assms(1) by blast

theorem window_results_lost_witness:
  "let X = tree_ext (\<lambda>_. None) (\<lambda>_. Some ''{}'') (\<lambda>_. True) (\<lambda>_ _. 0) (\<lambda>_. 70000000000);
       b = (new_bucket X 0 None 0 0 60000000000)\<lparr>b_count := 17\<rparr>;
       st = (copy_agg_config \<lparr>funcs = [new_func NQL_AGG_COUNT None f64_zero], group_by_fields = [],
               agg_where = None, agg_window = window NQL_WINDOW_TUMBLING 60000 0 0\<rparr>)\<lparr>buckets := [b]\<rparr>;
       w = initial_program\<lparr>event_handler := Some (EVENT_HANDLER_QUERY, Some ''aggregate count() window 60s''),
             exec_contexts := [\<lparr>ctx_id = 0, ctx_query_type = TYPE_AGGREGATE,
               query_string = Some ''aggregate count() window 60s'', ctx_state = AGG_STATE st\<rparr>]\<rparr>
   in \<exists>w'. window_flush_cb X (cli_handlers X) 0 w = Ok w' \<and> events_processed w' = 1 \<and> stdout w' = []"
proof -
  let ?X = "tree_ext (\<lambda>_. None) (\<lambda>_. Some ''{}'') (\<lambda>_. True) (\<lambda>_ _. 0) (\<lambda>_. 70000000000)"
  let ?b = "(new_bucket ?X 0 None 0 0 60000000000)\<lparr>b_count := 17\<rparr>"
  let ?st = "(copy_agg_config \<lparr>funcs = [new_func NQL_AGG_COUNT None f64_zero], group_by_fields = [],
      agg_where = None, agg_window = window NQL_WINDOW_TUMBLING 60000 0 0\<rparr>)\<lparr>buckets := [?b]\<rparr>"
  let ?h = "Some (EVENT_HANDLER_QUERY, Some ''aggregate count() window 60s'')"
  let ?w = "initial_program\<lparr>event_handler := ?h, exec_contexts := [\<lparr>ctx_id = 0, ctx_query_type = TYPE_AGGREGATE,
      query_string = Some ''aggregate count() window 60s'', ctx_state = AGG_STATE ?st\<rparr>]\<rparr> :: jtree cli_world"
  have h: "event_handler ?w = ?h" by simp
  have "case window_flush_cb ?X (cli_handlers ?X) 0 ?w of Ok w' \<Rightarrow> events_processed w' = 1 | UB \<Rightarrow> False"
    by code_simp
  then obtain w' where w': "window_flush_cb ?X (cli_handlers ?X) 0 ?w = Ok w'" "events_processed w' = 1"
    by (auto split: outcome.splits)
  have "stdout w' = []" using window_results_lost [OF h w'(1)] by (simp add: initial_program_start)
  with w' show ?thesis unfolding Let_def by blast
qed

section \<open>Correlations\<close>

text \<open>The handlers of the command line on an event that no query looks at.\<close>

lemma final_handler:
  assumes "\<forall>q. event_handler w \<noteq> Some (EVENT_HANDLER_QUERY, q)"
  shows "\<exists>w'. (case event_handler w of None \<Rightarrow> Ok w | Some h \<Rightarrow> cli_handlers X h ev w) = Ok w'
    \<and> world.truncate w' = world.truncate w"
proof (cases "event_handler w")
  case (Some h)
  then have "fst h \<noteq> EVENT_HANDLER_QUERY" using assms by (cases h) auto
  then have "cli_handlers X h ev w = derived_handlers X h ev w"
    by (cases "(X, h, ev, w)" rule: cli_handlers.cases) auto
  with Some show ?thesis using derived_quiet [of X h ev w] by auto
qed simp

text \<open>C7: Without a query, a log event that its input accepts is correlated with exactly the buffered
  network events whose timestamps differ from its own by at most the window: one correlation event is
  emitted for each, the statistics count them, and the event itself is buffered unless the buffer of
  10,000 events is full.\<close>

theorem log_event_correlates:
  fixes w :: "('j, 'x) cli_state"
  assumes "\<forall>q. event_handler w \<noteq> Some (EVENT_HANDLER_QUERY, q)" and "\<not> filtered_out X ev"
    and "correlation w = Some c" and "corr_ok c" and "ev_type ev = NBLEX_EVENT_LOG"
    and "small_times (ev # network_events c)"
    and "n = of_nat (length (filter (\<lambda>e. \<bar>uint (ev_timestamp ev) - uint (ev_timestamp e)\<bar> \<le> uint (window_ns c))
               (network_events c)))"
  shows "\<exists>w' c'. nblex_event_emit X (cli_handlers X) ev w = Ok w' \<and> correlation w' = Some c'
    \<and> events_processed w' = events_processed w + 1 + n \<and> events_correlated w' = events_correlated w + n
    \<and> correlations_found c' = correlations_found c + n \<and> network_events c' = network_events c
    \<and> log_events c' = (if length (log_events c) < 10000 then ev # log_events c else log_events c)"
proof -
  let ?wp = "w\<lparr>events_processed := events_processed w + 1\<rparr>"
  have n: "n = of_nat (length (filter (near (window_ns c) ev) (network_events c)))"
    using assms(7) by (simp add: near_def [abs_def])
  obtain v where v: "nblex_correlation_process_event X (cli_handlers X) ev ?wp = Ok v"
    "correlation v = Some (c\<lparr>correlations_found := correlations_found c + n,
        log_events := (if length (log_events c) < 10000 then ev # log_events c else log_events c),
        log_events_count := (if length (log_events c) < 10000 then log_events_count c + 1 else log_events_count c)\<rparr>)"
    "events_processed v = events_processed w + 1 + n" "events_correlated v = events_correlated w + n"
    "event_handler v = event_handler w"
    using cli.process_log_quiet [of ?wp c ev X] assms(3-6) n by auto
  then obtain w' where w': "(case event_handler v of None \<Rightarrow> Ok v | Some h \<Rightarrow> cli_handlers X h ev v) = Ok w'"
    "world.truncate w' = world.truncate v"
    using final_handler [of v X ev] assms(1) by auto
  have "nblex_event_emit X (cli_handlers X) ev w = Ok w'"
    using assms(2,3) v(1) w'(1) by (simp add: nblex_event_emit_def emit_with_def)
  with v cli.truncate_fields [OF w'(2)] show ?thesis by auto
qed

theorem log_event_correlates_witness:
  "let X = tree_ext (\<lambda>_. None) (\<lambda>_. Some ''{}'') (\<lambda>_. True) (\<lambda>_ _. 0) (\<lambda>_. 0);
       e = \<lambda>k t. \<lparr>ev_type = k, ev_timestamp = t, ev_input = None, ev_data = Some JNull\<rparr>;
       c = nblex_correlation_new\<lparr>network_events := [e NBLEX_EVENT_NETWORK 900000000, e NBLEX_EVENT_NETWORK 1000], network_events_count := 2\<rparr>;
       w = initial_program\<lparr>correlation := Some c, event_handler := Some (EVENT_HANDLER_JSON, None)\<rparr>
   in \<exists>w'. nblex_event_emit X (cli_handlers X) (e NBLEX_EVENT_LOG 50000) w = Ok w' \<and> events_correlated w' = 1"
proof -
  let ?X = "tree_ext (\<lambda>_. None) (\<lambda>_. Some ''{}'') (\<lambda>_. True) (\<lambda>_ _. 0) (\<lambda>_. 0)"
  let ?e = "\<lambda>k t. \<lparr>ev_type = k, ev_timestamp = t, ev_input = None, ev_data = Some JNull\<rparr> :: jtree event"
  let ?c = "nblex_correlation_new\<lparr>network_events := [?e NBLEX_EVENT_NETWORK 900000000, ?e NBLEX_EVENT_NETWORK 1000], network_events_count := 2\<rparr>"
  let ?w = "initial_program\<lparr>correlation := Some ?c, event_handler := Some (EVENT_HANDLER_JSON, None)\<rparr> :: jtree cli_world"
  have 1: "\<forall>q. event_handler ?w \<noteq> Some (EVENT_HANDLER_QUERY, q)" "\<not> filtered_out ?X (?e NBLEX_EVENT_LOG 50000)"
    "correlation ?w = Some ?c" "ev_type (?e NBLEX_EVENT_LOG 50000) = NBLEX_EVENT_LOG"
    by (simp_all add: filtered_out_def)
  have 2: "corr_ok ?c" by (simp add: corr_ok_def nblex_correlation_new_def typed_def counted_def)
  have 3: "small_times (?e NBLEX_EVENT_LOG 50000 # network_events ?c)" by simp
  have "events_correlated ?w = 0" by (simp add: initial_program_def initial_world_def nblex_world_new_def
        world.defs nql_world.defs cli_world.defs)
  moreover have "(of_nat (length (filter (\<lambda>e. \<bar>uint (ev_timestamp (?e NBLEX_EVENT_LOG 50000)) - uint (ev_timestamp e)\<bar>
      \<le> uint (window_ns ?c)) (network_events ?c))) :: u64) = 1"
    by (simp add: nblex_correlation_new_def)
  ultimately show ?thesis
    using log_event_correlates [OF 1(1,2,3) 2 1(4) 3 refl] unfolding Let_def by fastforce
qed

text \<open>C8: Without a query, a network event is correlated with exactly the buffered log events inside the
  window, in the same way.\<close>

theorem network_event_correlates:
  fixes w :: "('j, 'x) cli_state"
  assumes "\<forall>q. event_handler w \<noteq> Some (EVENT_HANDLER_QUERY, q)" and "\<not> filtered_out X ev"
    and "correlation w = Some c" and "corr_ok c" and "ev_type ev = NBLEX_EVENT_NETWORK"
    and "small_times (ev # log_events c)"
    and "n = of_nat (length (filter (\<lambda>e. \<bar>uint (ev_timestamp ev) - uint (ev_timestamp e)\<bar> \<le> uint (window_ns c))
               (log_events c)))"
  shows "\<exists>w' c'. nblex_event_emit X (cli_handlers X) ev w = Ok w' \<and> correlation w' = Some c'
    \<and> events_processed w' = events_processed w + 1 + n \<and> events_correlated w' = events_correlated w + n
    \<and> correlations_found c' = correlations_found c + n \<and> log_events c' = log_events c
    \<and> network_events c' =
        (if length (network_events c) < 10000 then ev # network_events c else network_events c)"
proof -
  let ?wp = "w\<lparr>events_processed := events_processed w + 1\<rparr>"
  have n: "n = of_nat (length (filter (near (window_ns c) ev) (log_events c)))"
    using assms(7) by (simp add: near_def [abs_def])
  obtain v where v: "nblex_correlation_process_event X (cli_handlers X) ev ?wp = Ok v"
    "correlation v = Some (c\<lparr>correlations_found := correlations_found c + n,
        network_events := (if length (network_events c) < 10000 then ev # network_events c else network_events c),
        network_events_count :=
          (if length (network_events c) < 10000 then network_events_count c + 1 else network_events_count c)\<rparr>)"
    "events_processed v = events_processed w + 1 + n" "events_correlated v = events_correlated w + n"
    "event_handler v = event_handler w"
    using cli.process_network_quiet [of ?wp c ev X] assms(3-6) n by auto
  then obtain w' where w': "(case event_handler v of None \<Rightarrow> Ok v | Some h \<Rightarrow> cli_handlers X h ev v) = Ok w'"
    "world.truncate w' = world.truncate v"
    using final_handler [of v X ev] assms(1) by auto
  have "nblex_event_emit X (cli_handlers X) ev w = Ok w'"
    using assms(2,3) v(1) w'(1) by (simp add: nblex_event_emit_def emit_with_def)
  with v cli.truncate_fields [OF w'(2)] show ?thesis by auto
qed

theorem network_event_correlates_witness:
  "let X = tree_ext (\<lambda>_. None) (\<lambda>_. Some ''{}'') (\<lambda>_. True) (\<lambda>_ _. 0) (\<lambda>_. 0);
       e = \<lambda>k t. \<lparr>ev_type = k, ev_timestamp = t, ev_input = None, ev_data = Some JNull\<rparr>;
       c = nblex_correlation_new\<lparr>log_events := [e NBLEX_EVENT_LOG 900000000, e NBLEX_EVENT_LOG 1000], log_events_count := 2\<rparr>;
       w = initial_program\<lparr>correlation := Some c, event_handler := Some (EVENT_HANDLER_JSON, None)\<rparr>
   in \<exists>w'. nblex_event_emit X (cli_handlers X) (e NBLEX_EVENT_NETWORK 50000) w = Ok w' \<and> events_correlated w' = 1"
proof -
  let ?X = "tree_ext (\<lambda>_. None) (\<lambda>_. Some ''{}'') (\<lambda>_. True) (\<lambda>_ _. 0) (\<lambda>_. 0)"
  let ?e = "\<lambda>k t. \<lparr>ev_type = k, ev_timestamp = t, ev_input = None, ev_data = Some JNull\<rparr> :: jtree event"
  let ?c = "nblex_correlation_new\<lparr>log_events := [?e NBLEX_EVENT_LOG 900000000, ?e NBLEX_EVENT_LOG 1000], log_events_count := 2\<rparr>"
  let ?w = "initial_program\<lparr>correlation := Some ?c, event_handler := Some (EVENT_HANDLER_JSON, None)\<rparr> :: jtree cli_world"
  have 1: "\<forall>q. event_handler ?w \<noteq> Some (EVENT_HANDLER_QUERY, q)" "\<not> filtered_out ?X (?e NBLEX_EVENT_NETWORK 50000)"
    "correlation ?w = Some ?c" "ev_type (?e NBLEX_EVENT_NETWORK 50000) = NBLEX_EVENT_NETWORK"
    by (simp_all add: filtered_out_def)
  have 2: "corr_ok ?c" by (simp add: corr_ok_def nblex_correlation_new_def typed_def counted_def)
  have 3: "small_times (?e NBLEX_EVENT_NETWORK 50000 # log_events ?c)" by simp
  have "events_correlated ?w = 0" by (simp add: initial_program_def initial_world_def nblex_world_new_def
        world.defs nql_world.defs cli_world.defs)
  moreover have "(of_nat (length (filter (\<lambda>e. \<bar>uint (ev_timestamp (?e NBLEX_EVENT_NETWORK 50000)) - uint (ev_timestamp e)\<bar>
      \<le> uint (window_ns ?c)) (log_events ?c))) :: u64) = 1"
    by (simp add: nblex_correlation_new_def)
  ultimately show ?thesis
    using network_event_correlates [OF 1(1,2,3) 2 1(4) 3 refl] unfolding Let_def by fastforce
qed

text \<open>C12: A correlation query with a state emits one result for every buffered event of the other side
  inside its window, and adds the event to each side whose filter accepts it. An event that both
  filters accept is also paired with itself: it is added to the left side before it is looked up there.\<close>

theorem correlate_query_pairs:
  fixes w :: "('j, 'x) cli_state"
  assumes "find_ctx q w = Some ctx" and "ctx_get (ctx_id ctx) w = Some (CORR_STATE st)"
    and "ctx_state ctx = CORR_STATE st" and "left_filter corr = Some l" and "right_filter corr = Some r"
    and "ml = nblex_filter_matches X l ev" and "mr = nblex_filter_matches X r ev" and "ml \<or> mr"
    and "ms_to_ns (within_ms corr) < 2 ^ 63" and "small_times (ev # left_events st @ right_events st)"
  shows "\<exists>w' st'. execute_correlate X (cli_handlers X) corr ev q w = Ok (True, w')
    \<and> ctx_get (ctx_id ctx) w' = Some (CORR_STATE st')
    \<and> left_events st' = (if ml then ev # left_events st else left_events st)
    \<and> right_events st' = (if mr then ev # right_events st else right_events st)
    \<and> events_processed w' = events_processed w
        + (if ml then partners corr ev (right_events st) else 0)
        + (if mr then partners corr ev (left_events st) else 0) + (if ml \<and> mr then 1 else 0)"
proof -
  have "partners corr ev (ev # es) = partners corr ev es + 1" for es
    by (simp add: partners_def near_def)
  moreover obtain w' st' where "execute_correlate X (cli_handlers X) corr ev q w = Ok (True, w')"
    "ctx_get (ctx_id ctx) w' = Some (CORR_STATE st')"
    "left_events st' = (if ml then ev # left_events st else left_events st)"
    "right_events st' = (if mr then ev # right_events st else right_events st)"
    "events_processed w' = events_processed w + (if ml then partners corr ev (right_events st) else 0)
        + (if mr then partners corr ev (if ml then ev # left_events st else left_events st) else 0)"
    using cli.execute_correlate_quiet [OF assms] by blast
  ultimately show ?thesis by (intro exI [of _ w'] exI [of _ st']) (simp add: ac_simps)
qed

theorem correlate_query_pairs_witness:
  "let X = tree_ext (\<lambda>_. None) (\<lambda>_. Some ''{}'') (\<lambda>_. True) (\<lambda>_ _. 0) (\<lambda>_. 0);
       f = \<lparr>root = Some (node_of (Cmp ''a'' FILTER_OP_EQ (LInt 1)))\<rparr>;
       corr = \<lparr>left_filter = Some f, right_filter = Some f, within_ms = 100\<rparr>;
       ev = \<lparr>ev_type = NBLEX_EVENT_LOG, ev_timestamp = 1, ev_input = None, ev_data = Some (JObj [(''a'', JInt 1)])\<rparr>;
       ctx = \<lparr>ctx_id = 0, ctx_query_type = TYPE_CORRELATE, query_string = Some ''q'',
              ctx_state = CORR_STATE (new_corr_state corr)\<rparr>;
       w = initial_program\<lparr>exec_contexts := [ctx]\<rparr>
   in \<exists>w'. execute_correlate X (cli_handlers X) corr ev (Some ''q'') w = Ok (True, w')
        \<and> events_processed w' = events_processed w + 1"
proof -
  let ?X = "tree_ext (\<lambda>_. None) (\<lambda>_. Some ''{}'') (\<lambda>_. True) (\<lambda>_ _. 0) (\<lambda>_. 0)"
  let ?f = "\<lparr>root = Some (node_of (Cmp ''a'' FILTER_OP_EQ (LInt 1)))\<rparr>"
  let ?corr = "\<lparr>left_filter = Some ?f, right_filter = Some ?f, within_ms = 100\<rparr>"
  let ?ev = "\<lparr>ev_type = NBLEX_EVENT_LOG, ev_timestamp = 1, ev_input = None, ev_data = Some (JObj [(''a'', JInt 1)])\<rparr>"
  let ?st = "new_corr_state ?corr"
  let ?ctx = "\<lparr>ctx_id = 0, ctx_query_type = TYPE_CORRELATE, query_string = Some ''q'', ctx_state = CORR_STATE ?st\<rparr>"
  let ?w = "initial_program\<lparr>exec_contexts := [?ctx]\<rparr> :: jtree cli_world"
  have 1: "find_ctx (Some ''q'') ?w = Some ?ctx" "ctx_get (ctx_id ?ctx) ?w = Some (CORR_STATE ?st)"
    "ctx_state ?ctx = CORR_STATE ?st" "left_filter ?corr = Some ?f" "right_filter ?corr = Some ?f"
    by (simp_all add: find_ctx_def ctx_get_def)
  have m: "True = nblex_filter_matches ?X ?f ?ev" by code_simp
  have 2: "ms_to_ns (within_ms ?corr) < 2 ^ 63" "small_times (?ev # left_events ?st @ right_events ?st)"
    by (simp_all add: ms_to_ns_def new_corr_state_def)
  have "partners ?corr ?ev (right_events ?st) = 0" "partners ?corr ?ev (left_events ?st) = 0"
    by (simp_all add: partners_def new_corr_state_def)
  then show ?thesis
    using correlate_query_pairs [OF 1 m m _ 2] unfolding Let_def by fastforce
qed

end
