(* ===== verification/Log_Parsers.thy ===== *)
theory Log_Parsers
  imports Filter_Engine
begin

text \<open>
  The parsers of log lines: JSON (\<open>parsers/json_parser.c\<close>), logfmt (\<open>parsers/logfmt_parser.c\<close>), syslog
  (\<open>parsers/syslog_parser.c\<close>) and the combined format of nginx (\<open>parsers/nginx_parser.c\<close>).

  A pointer into the line is the rest of the line. A parser returns \<open>None\<close> where the code returns NULL.
  The loop of the logfmt parser may not end, so it is a partial function whose value \<open>None\<close> stands for
  a call that does not return. \<open>mktime\<close> depends on the time zone of the process and is the parameter \<open>M\<close>.
\<close>

section \<open>JSON lines\<close>

definition nblex_parse_json_line :: "'j ext \<Rightarrow> string \<Rightarrow> 'j option" where
  "nblex_parse_json_line X line = (case json_loads X line of
      None \<Rightarrow> None
    | Some r \<Rightarrow> if json_typeof X r = JSON_OBJECT then Some r else None)"

section \<open>logfmt\<close>

text \<open>The key, the value and the position after the pair; \<open>None\<close> is the return code 0, after which the
  position is the old one.\<close>

definition parse_key_value_pair :: "string \<Rightarrow> (string \<times> string \<times> string) option" where
  "parse_key_value_pair pos =
     (let start = skip_space pos;
          key = takeWhile (\<lambda>c. c \<noteq> CHR ''='' \<and> \<not> isspace c) start;
          end1 = dropWhile (\<lambda>c. c \<noteq> CHR ''='' \<and> \<not> isspace c) start
      in if key = [] \<or> deref end1 \<noteq> CHR ''='' then None
      else if deref (tl end1) = CHR 0x22 then
        (case scan_quoted (tl (tl end1)) of (v, rest) \<Rightarrow>
           if deref rest = CHR 0x22 then Some (key, v, tl rest) else None)
      else Some (key, takeWhile (\<lambda>c. \<not> isspace c) (tl end1), dropWhile (\<lambda>c. \<not> isspace c) (tl end1)))"

definition logfmt_number :: "'j ext \<Rightarrow> string \<Rightarrow> 'j option" where
  "logfmt_number X v =
     (if deref v = CHR ''-'' \<or> isdigit (deref v) then
        (case strtol v of
           None \<Rightarrow> None
         | Some (n, endptr) \<Rightarrow>
             if endptr = [] then Some (json_integer X (word_of_int n))
             else if deref endptr \<in> {CHR ''.'', CHR ''e'', CHR ''E''} then
               (case strtod v of
                  Some (d, []) \<Rightarrow> json_real X d
                | _ \<Rightarrow> None)
             else None)
      else None)"

definition logfmt_value :: "'j ext \<Rightarrow> string \<Rightarrow> 'j option" where
  "logfmt_value X v = (case logfmt_number X v of
      Some j \<Rightarrow> Some j
    | None \<Rightarrow> if v = ''true'' then Some (json_boolean X True)
              else if v = ''false'' then Some (json_boolean X False)
              else json_string X v)"

text \<open>The loop over the line: the inner \<open>None\<close> is a failure, otherwise the object and the number of
  pairs found.\<close>

partial_function (option) logfmt_loop :: "'j ext \<Rightarrow> 'j \<Rightarrow> nat \<Rightarrow> string \<Rightarrow> ('j \<times> nat) option option" where
  "logfmt_loop X ob found_pairs pos =
     (if pos = [] then Some (Some (ob, found_pairs))
      else case parse_key_value_pair pos of
          None \<Rightarrow> logfmt_loop X ob found_pairs (dropWhile (\<lambda>c. \<not> isspace c) pos)
        | Some (key, v, pos1) \<Rightarrow> (case logfmt_value X v of
            None \<Rightarrow> Some None
          | Some j \<Rightarrow> (case json_object_set X ob key j of
              None \<Rightarrow> Some None
            | Some ob1 \<Rightarrow> logfmt_loop X ob1 (Suc found_pairs) pos1)))"

definition nblex_parse_logfmt_line :: "'j ext \<Rightarrow> string \<Rightarrow> 'j option option" where
  "nblex_parse_logfmt_line X line =
     (if line = [] then Some None
      else (case logfmt_loop X (json_object X) 0 line of
          None \<Rightarrow> None
        | Some None \<Rightarrow> Some None
        | Some (Some (ob, found_pairs)) \<Rightarrow> Some (if found_pairs = 0 then None else Some ob)))"

section \<open>scanf\<close>

text \<open>The conversions \<open>%Nd\<close> and \<open>%Ns\<close> and a literal character; the widths used are at most 4, so no
  value overflows.\<close>

definition scan_int :: "nat \<Rightarrow> string \<Rightarrow> (int \<times> string) option" where
  "scan_int width s =
     (let s1 = skip_space s;
          sg = (if deref s1 = CHR ''-'' \<or> deref s1 = CHR ''+'' then 1 else 0);
          ds = takeWhile isdigit (take (width - sg) (drop sg s1))
      in if ds = [] then None
         else Some (if deref s1 = CHR ''-'' then - dec_val ds else dec_val ds, drop (sg + length ds) s1))"

definition scan_word :: "nat \<Rightarrow> string \<Rightarrow> (string \<times> string) option" where
  "scan_word width s =
     (let s1 = skip_space s; w = takeWhile (\<lambda>c. \<not> isspace c) (take width s1)
      in if w = [] then None else Some (w, drop (length w) s1))"

definition scan_char :: "char \<Rightarrow> string \<Rightarrow> (unit \<times> string) option" where
  "scan_char c s = (if deref s = c then Some ((), tl s) else None)"

definition scan_then :: "('a \<times> string) option \<Rightarrow> ('a \<Rightarrow> string \<Rightarrow> 'b option) \<Rightarrow> 'b option" where
  "scan_then r f = (case r of None \<Rightarrow> None | Some (a, s) \<Rightarrow> f a s)"

text \<open>\<open>sscanf(pos, "%3s %2d %2d:%2d:%2d", ...) == 5\<close> and \<open>sscanf(pos, "%4d-%2d-%2dT%2d:%2d:%2d", ...) >= 6\<close>.\<close>

definition scan_bsd_time :: "string \<Rightarrow> (string \<times> int \<times> int \<times> int \<times> int) option" where
  "scan_bsd_time pos =
     scan_then (scan_word 3 pos) (\<lambda>month s1. scan_then (scan_int 2 s1) (\<lambda>day s2.
     scan_then (scan_int 2 s2) (\<lambda>hour s3. scan_then (scan_char (CHR '':'') s3) (\<lambda>_ s4.
     scan_then (scan_int 2 s4) (\<lambda>minute s5. scan_then (scan_char (CHR '':'') s5) (\<lambda>_ s6.
     scan_then (scan_int 2 s6) (\<lambda>sec _. Some (month, day, hour, minute, sec))))))))"

definition scan_iso_time :: "string \<Rightarrow> (int \<times> int \<times> int \<times> int \<times> int \<times> int) option" where
  "scan_iso_time pos =
     scan_then (scan_int 4 pos) (\<lambda>year s1. scan_then (scan_char (CHR ''-'') s1) (\<lambda>_ s2.
     scan_then (scan_int 2 s2) (\<lambda>mon s3. scan_then (scan_char (CHR ''-'') s3) (\<lambda>_ s4.
     scan_then (scan_int 2 s4) (\<lambda>day s5. scan_then (scan_char (CHR ''T'') s5) (\<lambda>_ s6.
     scan_then (scan_int 2 s6) (\<lambda>hour s7. scan_then (scan_char (CHR '':'') s7) (\<lambda>_ s8.
     scan_then (scan_int 2 s8) (\<lambda>minute s9. scan_then (scan_char (CHR '':'') s9) (\<lambda>_ s10.
     scan_then (scan_int 2 s10) (\<lambda>sec _. Some (year, mon, day, hour, minute, sec))))))))))))"

section \<open>syslog\<close>

record tm =
  tm_year :: int
  tm_mon :: int
  tm_mday :: int
  tm_hour :: int
  tm_min :: int
  tm_sec :: int

text \<open>\<open>if (json_object_set_new(root, k, v) != 0) return NULL\<close>.\<close>

definition set_or_fail :: "'j ext \<Rightarrow> 'j \<Rightarrow> string \<Rightarrow> 'j option \<Rightarrow> 'j option" where
  "set_or_fail X ob k vo = (case vo of None \<Rightarrow> None | Some v \<Rightarrow> json_object_set X ob k v)"

definition set_int :: "'j ext \<Rightarrow> 'j \<Rightarrow> string \<Rightarrow> int \<Rightarrow> 'j option" where
  "set_int X ob k n = set_or_fail X ob k (Some (json_integer X (word_of_int n)))"

text \<open>The priority: the number and the position after \<open>>\<close>.\<close>

definition scan_priority :: "string \<Rightarrow> (int \<times> string) option" where
  "scan_priority line =
     (if deref line \<noteq> CHR ''<'' then None
      else (case (case strtol (tl line) of None \<Rightarrow> (0, tl line) | Some r \<Rightarrow> r) of (pri, endptr) \<Rightarrow>
        if deref endptr \<noteq> CHR ''>'' \<or> pri < 0 \<or> 191 < pri then None else Some (pri, tl endptr)))"

definition set_priority :: "'j ext \<Rightarrow> 'j \<Rightarrow> int \<Rightarrow> 'j option" where
  "set_priority X ob pri =
     Option.bind (set_int X ob ''syslog_priority'' pri) (\<lambda>r1.
     Option.bind (set_int X r1 ''syslog_facility'' (pri div 8)) (\<lambda>r2.
       set_int X r2 ''syslog_severity'' (pri mod 8)))"

definition months :: "string list" where
  "months = [''Jan'', ''Feb'', ''Mar'', ''Apr'', ''May'', ''Jun'', ''Jul'', ''Aug'', ''Sep'', ''Oct'', ''Nov'', ''Dec'']"

definition month_number :: "string \<Rightarrow> nat option" where
  "month_number m = find (\<lambda>i. take 3 m = months ! i) [0..<12]"

definition skip_word :: "string \<Rightarrow> string" where
  "skip_word pos = skip_space (dropWhile (\<lambda>c. \<not> isspace c) pos)"

text \<open>The timestamp, stored when the month is known.\<close>

definition rfc3164_timestamp ::
  "(tm \<Rightarrow> int) \<Rightarrow> 'j ext \<Rightarrow> 'j \<Rightarrow> string \<times> int \<times> int \<times> int \<times> int \<Rightarrow> 'j option" where
  "rfc3164_timestamp M X r3 t = (case t of (month, day, hour, minute, sec) \<Rightarrow>
     (case month_number month of
        None \<Rightarrow> Some r3
      | Some mon \<Rightarrow> set_int X r3 ''timestamp'' (M \<lparr>tm_year = 100, tm_mon = int mon, tm_mday = day,
          tm_hour = hour, tm_min = minute, tm_sec = sec\<rparr>)))"

text \<open>The host name and the message.\<close>

definition rfc3164_message :: "'j ext \<Rightarrow> 'j \<Rightarrow> string \<Rightarrow> 'j option" where
  "rfc3164_message X r4 pos2 =
     (let hostname = takeWhile (\<lambda>c. \<not> isspace c \<and> c \<noteq> CHR '':'') pos2;
          pos3 = dropWhile (\<lambda>c. \<not> isspace c \<and> c \<noteq> CHR '':'') pos2;
          r5 = (if hostname = [] then r4 else obj_set_new X r4 ''hostname'' (json_string X hostname));
          pos4 = dropWhile (\<lambda>c. c \<noteq> CHR '':'') pos3;
          pos5 = (if deref pos4 = CHR '':'' then skip_space (tl pos4) else pos4)
      in if pos5 = [] then Some r5 else set_or_fail X r5 ''message'' (json_string X pos5))"

definition parse_rfc3164 :: "(tm \<Rightarrow> int) \<Rightarrow> 'j ext \<Rightarrow> string \<Rightarrow> 'j option" where
  "parse_rfc3164 M X line =
     Option.bind (scan_priority line) (\<lambda>(pri, pos0).
     Option.bind (set_priority X (json_object X) pri) (\<lambda>r3.
     let pos1 = skip_space pos0 in
     Option.bind
       (case scan_bsd_time pos1 of
          None \<Rightarrow> Some (r3, pos1)
        | Some t \<Rightarrow> Option.bind (rfc3164_timestamp M X r3 t) (\<lambda>r4. Some (r4, skip_word pos1)))
       (\<lambda>(r4, pos2). rfc3164_message X r4 pos2)))"

text \<open>The search for microseconds: the value found, or the initial 0.\<close>

fun scan_usec :: "string \<Rightarrow> int" where
  "scan_usec [] = 0"
| "scan_usec (c # s) =
     (if c = CHR ''Z'' \<or> c = CHR ''+'' \<or> c = CHR ''-'' then 0
      else if c = CHR ''.'' then
        (let ds = takeWhile isdigit (take 6 s) in dec_val ds * 10 ^ (6 - length ds))
      else scan_usec s)"

text \<open>The timestamp, stored when \<open>mktime\<close> succeeds.\<close>

definition rfc5424_timestamp ::
  "(tm \<Rightarrow> int) \<Rightarrow> 'j ext \<Rightarrow> 'j \<Rightarrow> string \<Rightarrow> int \<times> int \<times> int \<times> int \<times> int \<times> int \<Rightarrow> 'j option" where
  "rfc5424_timestamp M X r4 pos t = (case t of (year, mon, day, hour, minute, sec) \<Rightarrow>
     let usec = scan_usec pos;
         timestamp = M \<lparr>tm_year = year - 1900, tm_mon = mon - 1, tm_mday = day,
                        tm_hour = hour, tm_min = minute, tm_sec = sec\<rparr>
     in if timestamp \<noteq> - 1 then
          Option.bind (set_int X r4 ''timestamp'' timestamp) (\<lambda>r5.
            if 0 < usec then set_int X r5 ''timestamp_usec'' usec else Some r5)
        else Some r4)"

definition parse_rfc5424 :: "(tm \<Rightarrow> int) \<Rightarrow> 'j ext \<Rightarrow> string \<Rightarrow> 'j option" where
  "parse_rfc5424 M X line =
     Option.bind (scan_priority line) (\<lambda>(pri, pos0).
     Option.bind (set_priority X (json_object X) pri) (\<lambda>r3.
     if \<not> isdigit (deref pos0) then None
     else
       Option.bind (set_int X r3 ''syslog_version'' (digit_val (deref pos0))) (\<lambda>r4.
       if deref (tl pos0) \<noteq> CHR '' '' then None
       else
         let pos1 = tl (tl pos0) in
         Option.bind
           (case scan_iso_time pos1 of
              None \<Rightarrow> Some (r4, pos1)
            | Some t \<Rightarrow> Option.bind (rfc5424_timestamp M X r4 pos1 t)
                (\<lambda>r6. Some (r6, skip_space (dropWhile (\<lambda>c. c \<noteq> CHR '' '') pos1))))
           (\<lambda>(r6, pos2).
             if pos2 = [] then Some r6 else set_or_fail X r6 ''message'' (json_string X pos2)))))"

definition nblex_parse_syslog_line :: "(tm \<Rightarrow> int) \<Rightarrow> 'j ext \<Rightarrow> string \<Rightarrow> 'j option" where
  "nblex_parse_syslog_line M X line =
     (if deref line = CHR ''<'' then
        (let pos = dropWhile (\<lambda>c. c \<noteq> CHR ''>'') (tl line) in
         if deref pos = CHR ''>'' \<and> isdigit (deref (tl pos)) then parse_rfc5424 M X line
         else parse_rfc3164 M X line)
      else parse_rfc3164 M X line)"

section \<open>nginx\<close>

text \<open>A quoted field: only a backslash before a quote escapes. The text and the pointer at the closing
  quote (or the end).\<close>

fun scan_request :: "string \<Rightarrow> string \<times> string" where
  "scan_request [] = ([], [])"
| "scan_request [c] = (if c = CHR 0x22 then ([], [c]) else ([c], []))"
| "scan_request (c # d # s) =
     (if c = CHR 0x22 then ([], c # d # s)
      else if c = CHR 0x5C \<and> d = CHR 0x22 then (case scan_request s of (t, r) \<Rightarrow> (c # d # t, r))
      else (case scan_request (d # s) of (t, r) \<Rightarrow> (c # t, r)))"

definition set_string :: "'j ext \<Rightarrow> 'j \<Rightarrow> string \<Rightarrow> string \<Rightarrow> 'j" where
  "set_string X ob k v = obj_set_new X ob k (json_string X v)"

definition nginx_request :: "'j ext \<Rightarrow> 'j \<Rightarrow> string \<Rightarrow> 'j" where
  "nginx_request X ob request =
     (let r1 = set_string X ob ''request'' request;
          method = takeWhile (\<lambda>c. c \<noteq> CHR '' '') request;
          rest = dropWhile (\<lambda>c. c \<noteq> CHR '' '') request
      in if rest = [] then r1
         else
           let r2 = set_string X r1 ''method'' method;
               path = takeWhile (\<lambda>c. c \<noteq> CHR '' '') (tl rest);
               rest2 = dropWhile (\<lambda>c. c \<noteq> CHR '' '') (tl rest);
               r3 = set_string X r2 ''path'' path
           in if rest2 = [] \<or> tl rest2 = [] then r3 else set_string X r3 ''protocol'' (tl rest2))"

text \<open>The optional parts, each with the position after it.\<close>

definition nginx_number :: "'j ext \<Rightarrow> string \<Rightarrow> 'j \<times> string \<Rightarrow> 'j \<times> string" where
  "nginx_number X k rp = (case rp of (ob, pos0) \<Rightarrow>
     let pos = skip_space pos0 in
     if isdigit (deref pos) then
       (case strtol pos of
          None \<Rightarrow> (ob, pos)
        | Some (n, rest) \<Rightarrow> (obj_set_new X ob k (Some (json_integer X (word_of_int n))), rest))
     else (ob, pos))"

definition nginx_quoted :: "'j ext \<Rightarrow> string \<Rightarrow> 'j \<times> string \<Rightarrow> 'j \<times> string" where
  "nginx_quoted X k rp = (case rp of (ob, pos0) \<Rightarrow>
     let pos = skip_space pos0 in
     if deref pos = CHR 0x22 then
       (case scan_request (tl pos) of (v, rest) \<Rightarrow>
          if deref rest = CHR 0x22 then
            (if v \<noteq> [] \<and> v \<noteq> ''-'' then set_string X ob k v else ob, tl rest)
          else (ob, tl pos))
     else (ob, pos))"

definition nginx_time :: "'j ext \<Rightarrow> 'j \<times> string \<Rightarrow> 'j \<times> string" where
  "nginx_time X rp = (case rp of (ob, pos0) \<Rightarrow>
     let pos = skip_space pos0 in
     if deref pos = CHR ''['' then
       (let v = takeWhile (\<lambda>c. c \<noteq> CHR '']'') (tl pos); rest = dropWhile (\<lambda>c. c \<noteq> CHR '']'') (tl pos)
        in if rest \<noteq> [] then (set_string X ob ''time_local'' v, tl rest) else (ob, tl pos))
     else (ob, pos))"

definition nginx_request_field :: "'j ext \<Rightarrow> 'j \<times> string \<Rightarrow> 'j \<times> string" where
  "nginx_request_field X rp = (case rp of (ob, pos0) \<Rightarrow>
     let pos = skip_space pos0 in
     if deref pos = CHR 0x22 then
       (case scan_request (tl pos) of (v, rest) \<Rightarrow>
          if deref rest = CHR 0x22 then (nginx_request X ob v, tl rest) else (ob, tl pos))
     else (ob, pos))"

definition nginx_address :: "'j ext \<Rightarrow> 'j \<times> string \<Rightarrow> 'j \<times> string" where
  "nginx_address X rp = (case rp of (ob, pos) \<Rightarrow>
     let v = takeWhile (\<lambda>c. \<not> isspace c) pos in
     (if v = [] then ob else set_string X ob ''remote_addr'' v, dropWhile (\<lambda>c. \<not> isspace c) pos))"

definition nginx_user :: "'j ext \<Rightarrow> 'j \<times> string \<Rightarrow> 'j \<times> string" where
  "nginx_user X rp = (case rp of (ob, pos0) \<Rightarrow>
     let pos = dropWhile (\<lambda>c. isspace c \<or> c = CHR ''-'') pos0;
         v = takeWhile (\<lambda>c. \<not> isspace c \<and> c \<noteq> CHR ''['') pos
     in (if v = [] then ob else set_string X ob ''remote_user'' v,
         dropWhile (\<lambda>c. \<not> isspace c \<and> c \<noteq> CHR ''['') pos))"

definition nblex_parse_nginx_line :: "'j ext \<Rightarrow> string \<Rightarrow> 'j option" where
  "nblex_parse_nginx_line X line =
     (if line = [] then None
      else Some (fst (nginx_quoted X ''http_user_agent'' (nginx_quoted X ''http_referer''
        (nginx_number X ''body_bytes_sent'' (nginx_number X ''status'' (nginx_request_field X
          (nginx_time X (nginx_user X (nginx_address X (json_object X, line)))))))))))"

end
