(* ===== verification/Logfmt_Props.thy ===== *)
theory Logfmt_Props
  imports Log_Parsers Filter_Syntax
begin

text \<open>
  The logfmt parser on well-formed lines: a line is a sequence of pairs, each preceded by white space,
  with or without white space at the end. Without it the parser returns the object of the pairs; with
  it the parser never returns.
\<close>

section \<open>The text of a line\<close>

datatype logfmt_text = Plain string | Quoted string

fun text_of :: "logfmt_text \<Rightarrow> string" where
  "text_of (Plain v) = v"
| "text_of (Quoted v) = CHR 0x22 # v @ [CHR 0x22]"

fun value_of :: "logfmt_text \<Rightarrow> string" where
  "value_of (Plain v) = v"
| "value_of (Quoted v) = v"

fun text_ok :: "logfmt_text \<Rightarrow> bool" where
  "text_ok (Plain v) \<longleftrightarrow> list_all (\<lambda>c. \<not> isspace c) v \<and> deref v \<noteq> CHR 0x22"
| "text_ok (Quoted v) \<longleftrightarrow> list_all (\<lambda>c. c \<noteq> CHR 0x22 \<and> c \<noteq> CHR 0x5C) v"

type_synonym logfmt_pair = "string \<times> string \<times> logfmt_text"

fun pair_ok :: "logfmt_pair \<Rightarrow> bool" where
  "pair_ok (sp, k, t) \<longleftrightarrow> list_all isspace sp \<and> k \<noteq> [] \<and> list_all (\<lambda>c. c \<noteq> CHR ''='' \<and> \<not> isspace c) k
     \<and> text_ok t \<and> ascii k \<and> ascii (value_of t)"

fun show_pair :: "logfmt_pair \<Rightarrow> string" where
  "show_pair (sp, k, t) = sp @ k @ CHR ''='' # text_of t"

fun show_pairs :: "logfmt_pair list \<Rightarrow> string" where
  "show_pairs [] = []"
| "show_pairs (p # ps) = show_pair p @ show_pairs ps"

text \<open>All pairs are well-formed, and all but the first are separated from the pair before.\<close>

definition line_ok :: "logfmt_pair list \<Rightarrow> bool" where
  "line_ok ps \<longleftrightarrow> list_all pair_ok ps \<and> list_all (\<lambda>(sp, _). sp \<noteq> []) (tl ps)"

definition pair_values :: "logfmt_pair list \<Rightarrow> (string \<times> string) list" where
  "pair_values ps = map (\<lambda>(sp, k, t). (k, value_of t)) ps"

section \<open>One pair\<close>

definition blank_start :: "string \<Rightarrow> bool" where
  "blank_start s \<longleftrightarrow> s = [] \<or> isspace (hd s)"

lemma dropWhile_all_append: "list_all P xs \<Longrightarrow> dropWhile P (xs @ ys) = dropWhile P ys"
  by (induction xs) auto

lemma takeWhile_stop: "list_all P xs \<Longrightarrow> ys = [] \<or> \<not> P (hd ys) \<Longrightarrow> takeWhile P (xs @ ys) = xs"
  by (induction xs) (cases ys; auto)+

lemma dropWhile_stop: "list_all P xs \<Longrightarrow> ys = [] \<or> \<not> P (hd ys) \<Longrightarrow> dropWhile P (xs @ ys) = ys"
  by (induction xs) (cases ys; auto)+

lemma parse_pair_show:
  assumes "pair_ok (sp, k, t)" and "blank_start rest"
  shows "parse_key_value_pair (show_pair (sp, k, t) @ rest) = Some (k, value_of t, rest)"
proof -
  let ?key = "\<lambda>c. c \<noteq> CHR ''='' \<and> \<not> isspace c"
  let ?tail = "CHR ''='' # text_of t @ rest"
  have k: "list_all ?key k" "k \<noteq> []" and sp: "list_all isspace sp" and t: "text_ok t" using assms(1) by simp_all
  have "skip_space (sp @ k @ ?tail) = k @ ?tail"
    using k by (cases k) (simp_all add: dropWhile_all_append [OF sp])
  moreover have "takeWhile ?key (k @ ?tail) = k" "dropWhile ?key (k @ ?tail) = ?tail"
    using k by (simp_all add: takeWhile_stop dropWhile_stop)
  ultimately have start: "parse_key_value_pair (show_pair (sp, k, t) @ rest) =
      (if deref (text_of t @ rest) = CHR 0x22 then
         (case scan_quoted (tl (text_of t @ rest)) of (v, r) \<Rightarrow> if deref r = CHR 0x22 then Some (k, v, tl r) else None)
       else Some (k, takeWhile (\<lambda>c. \<not> isspace c) (text_of t @ rest), dropWhile (\<lambda>c. \<not> isspace c) (text_of t @ rest)))"
    using k(2) by (simp add: parse_key_value_pair_def)
  show ?thesis
  proof (cases t)
    case (Plain v)
    with t have v: "list_all (\<lambda>c. \<not> isspace c) v" "deref v \<noteq> CHR 0x22" by simp_all
    have "deref (v @ rest) \<noteq> CHR 0x22"
    proof (cases v)
      case Nil
      with assms(2) show ?thesis by (cases rest) (auto simp: blank_start_def NUL_def isspace_def)
    qed (use v in simp)
    moreover have "takeWhile (\<lambda>c. \<not> isspace c) (v @ rest) = v" "dropWhile (\<lambda>c. \<not> isspace c) (v @ rest) = rest"
      using v(1) assms(2) by (simp_all add: takeWhile_stop dropWhile_stop blank_start_def)
    ultimately show ?thesis unfolding start by (simp add: Plain)
  next
    case (Quoted v)
    with t show ?thesis unfolding start by (simp add: scan_quoted_plain)
  qed
qed

lemma blank_start_pairs:
  "list_all (\<lambda>(sp, _). sp \<noteq> []) ps \<Longrightarrow> list_all pair_ok ps \<Longrightarrow> list_all isspace trail \<Longrightarrow>
   blank_start (show_pairs ps @ trail)"
proof (cases ps)
  case Nil
  then show "list_all isspace trail \<Longrightarrow> blank_start (show_pairs ps @ trail)"
    by (cases trail) (auto simp: blank_start_def)
next
  case (Cons p ps')
  then show "list_all (\<lambda>(sp, _). sp \<noteq> []) ps \<Longrightarrow> list_all pair_ok ps \<Longrightarrow> blank_start (show_pairs ps @ trail)"
    by (cases p; cases "fst p") (auto simp: blank_start_def)
qed

lemma show_pair_nonempty: "pair_ok p \<Longrightarrow> show_pair p \<noteq> []"
  by (cases p) simp

section \<open>The loop\<close>

context jansson
begin

lemma logfmt_value_some: "ascii v \<Longrightarrow> \<exists>j. logfmt_value X v = Some j"
  using string_ascii by (auto simp: logfmt_value_def split: option.splits)

text \<open>What a pair stores, and what a list of pairs stores.\<close>

lemma logfmt_loop_pair:
  assumes "pair_ok p" and "blank_start rest" and "json_typeof X ob = JSON_OBJECT"
  shows "\<exists>ob'. json_typeof X ob' = JSON_OBJECT
    \<and> (\<forall>k. json_object_get X ob' k = (if k = fst (snd p) then logfmt_value X (value_of (snd (snd p))) else json_object_get X ob k))
    \<and> logfmt_loop X ob n (show_pair p @ rest) = logfmt_loop X ob' (Suc n) rest"
proof -
  obtain sp k t where p: "p = (sp, k, t)" by (cases p)
  have ok: "ascii k" "ascii (value_of t)" using assms(1) p by simp_all
  obtain j where j: "logfmt_value X (value_of t) = Some j" using logfmt_value_some [OF ok(2)] by blast
  obtain ob' where ob': "json_object_set X ob k j = Some ob'" using set_ascii [OF assms(3) ok(1)] by blast
  have "parse_key_value_pair (show_pair p @ rest) = Some (k, value_of t, rest)"
    using parse_pair_show assms(1,2) p by blast
  then have "logfmt_loop X ob n (show_pair p @ rest) = logfmt_loop X ob' (Suc n) rest"
    using show_pair_nonempty [OF assms(1)] j ob' by (subst logfmt_loop.simps) simp
  then show ?thesis using set_typeof [OF assms(3) ob'] set_get [OF assms(3) ob'] p j by auto
qed

lemma logfmt_loop_pairs:
  assumes "line_ok ps" and "list_all isspace trail" and "json_typeof X ob = JSON_OBJECT"
  shows "\<exists>ob'. json_typeof X ob' = JSON_OBJECT
    \<and> (\<forall>k. json_object_get X ob' k = (case map_of (rev (pair_values ps)) k of
          None \<Rightarrow> json_object_get X ob k | Some v \<Rightarrow> logfmt_value X v))
    \<and> logfmt_loop X ob n (show_pairs ps @ trail) = logfmt_loop X ob' (n + length ps) trail"
  using assms
proof (induction ps arbitrary: ob n)
  case Nil
  then show ?case by (auto simp: pair_values_def)
next
  case (Cons p ps)
  have p: "pair_ok p" and l: "list_all pair_ok ps" "list_all (\<lambda>(sp, _). sp \<noteq> []) ps"
    using Cons.prems(1) by (simp_all add: line_ok_def)
  have ps: "line_ok ps" using l by (cases ps) (simp_all add: line_ok_def)
  have b: "blank_start (show_pairs ps @ trail)" by (rule blank_start_pairs [OF l(2,1) Cons.prems(2)])
  obtain ob1 where 1: "json_typeof X ob1 = JSON_OBJECT"
    "\<And>k. json_object_get X ob1 k = (if k = fst (snd p) then logfmt_value X (value_of (snd (snd p))) else json_object_get X ob k)"
    "logfmt_loop X ob n (show_pair p @ show_pairs ps @ trail) = logfmt_loop X ob1 (Suc n) (show_pairs ps @ trail)"
    using logfmt_loop_pair [OF p b Cons.prems(3), of n] by blast
  obtain ob2 where 2: "json_typeof X ob2 = JSON_OBJECT"
    "\<And>k. json_object_get X ob2 k = (case map_of (rev (pair_values ps)) k of
          None \<Rightarrow> json_object_get X ob1 k | Some v \<Rightarrow> logfmt_value X v)"
    "logfmt_loop X ob1 (Suc n) (show_pairs ps @ trail) = logfmt_loop X ob2 (Suc n + length ps) trail"
    using Cons.IH [OF ps Cons.prems(2) 1(1)] by blast
  have "json_object_get X ob2 k = (case map_of (rev (pair_values (p # ps))) k of
      None \<Rightarrow> json_object_get X ob k | Some v \<Rightarrow> logfmt_value X v)" for k
    by (cases p) (simp add: 1(2) 2(2) pair_values_def map_add_def split: option.splits)
  with 1 2 show ?case by auto
qed

end

text \<open>At white space with no pair behind it the loop stays where it is.\<close>

definition stuck :: "string \<Rightarrow> bool" where
  "stuck pos \<longleftrightarrow> pos \<noteq> [] \<and> isspace (hd pos) \<and> parse_key_value_pair pos = None"

lemma logfmt_loop_returns: "logfmt_loop X ob n pos = Some y \<Longrightarrow> \<not> stuck pos"
proof (rule logfmt_loop.raw_induct [where P = "\<lambda>_ _ _ pos _. \<not> stuck pos"])
  fix f :: "'a ext \<Rightarrow> 'a \<Rightarrow> nat \<Rightarrow> string \<Rightarrow> ('a \<times> nat) option option" and X ob n pos y
  assume 1: "\<And>X ob n pos y. f X ob n pos = Some y \<Longrightarrow> \<not> stuck pos"
    and 2: "(if pos = [] then Some (Some (ob, n))
      else case parse_key_value_pair pos of
          None \<Rightarrow> f X ob n (dropWhile (\<lambda>c. \<not> isspace c) pos)
        | Some (key, v, pos1) \<Rightarrow> (case logfmt_value X v of
            None \<Rightarrow> Some None
          | Some j \<Rightarrow> (case json_object_set X ob key j of
              None \<Rightarrow> Some None
            | Some ob1 \<Rightarrow> f X ob1 (Suc n) pos1))) = Some y"
  show "\<not> stuck pos"
  proof
    assume st: "stuck pos"
    then have "dropWhile (\<lambda>c. \<not> isspace c) pos = pos" by (cases pos) (auto simp: stuck_def)
    with 2 st have "f X ob n pos = Some y" by (simp add: stuck_def)
    with 1 st show False by blast
  qed
qed

lemma stuck_blank: "trail \<noteq> [] \<Longrightarrow> list_all isspace trail \<Longrightarrow> stuck trail"
proof -
  assume a: "trail \<noteq> []" "list_all isspace trail"
  then have e: "skip_space trail = []" using dropWhile_all_append [OF a(2), of "[]"] by simp
  have "parse_key_value_pair trail = None" unfolding parse_key_value_pair_def e by simp
  with a show ?thesis by (cases trail) (simp_all add: stuck_def)
qed

context jansson
begin

lemma logfmt_line_object:
  assumes "line_ok ps" and "ps \<noteq> []"
  shows "\<exists>ob. nblex_parse_logfmt_line X (show_pairs ps) = Some (Some ob) \<and> json_typeof X ob = JSON_OBJECT
    \<and> (\<forall>k. json_object_get X ob k = (case map_of (rev (pair_values ps)) k of
          None \<Rightarrow> None | Some v \<Rightarrow> logfmt_value X v))"
proof -
  have "show_pairs ps \<noteq> []"
    using assms(1,2) show_pair_nonempty by (cases ps) (auto simp: line_ok_def)
  moreover have "logfmt_loop X ob n [] = Some (Some (ob, n))" for ob n by (subst logfmt_loop.simps) simp
  moreover obtain ob' where "json_typeof X ob' = JSON_OBJECT"
    "\<forall>k. json_object_get X ob' k = (case map_of (rev (pair_values ps)) k of
          None \<Rightarrow> None | Some v \<Rightarrow> logfmt_value X v)"
    "logfmt_loop X (json_object X) 0 (show_pairs ps @ []) = logfmt_loop X ob' (0 + length ps) []"
    using logfmt_loop_pairs [OF assms(1) _ typeof_object, of "[]" 0] unfolding get_empty by auto
  ultimately show ?thesis
    using assms(2) by (intro exI [of _ ob']) (simp add: nblex_parse_logfmt_line_def)
qed

lemma logfmt_line_hangs:
  assumes "line_ok ps" and "trail \<noteq> []" and "list_all isspace trail"
  shows "nblex_parse_logfmt_line X (show_pairs ps @ trail) = None"
proof -
  have "logfmt_loop X ob n trail = None" for ob n
    using logfmt_loop_returns stuck_blank [OF assms(2,3)] by (metis not_None_eq)
  then show ?thesis
    using logfmt_loop_pairs [OF assms(1,3) typeof_object, of 0] assms(2) by (auto simp: nblex_parse_logfmt_line_def)
qed

end

section \<open>Properties\<close>

text \<open>C21: Parsing the text of a list of logfmt pairs gives an object with exactly their keys, each with the
  value of the last pair that has it, read as a number, a boolean or a string.\<close>

theorem logfmt_roundtrip:
  assumes "jansson X" and "line_ok ps" and "ps \<noteq> []"
  shows "\<exists>ob. nblex_parse_logfmt_line X (show_pairs ps) = Some (Some ob) \<and> json_typeof X ob = JSON_OBJECT
    \<and> (\<forall>k. json_object_get X ob k = (case map_of (rev (pair_values ps)) k of
          None \<Rightarrow> None | Some v \<Rightarrow> logfmt_value X v))"
  by (rule jansson.logfmt_line_object [OF assms])

theorem logfmt_roundtrip_witness:
  "let X = tree_ext (\<lambda>_. None) (\<lambda>_. None) (\<lambda>_. True) (\<lambda>_ _. 0) (\<lambda>_. 0);
       ps = [([], ''level'', Plain ''info''), ('' '', ''msg'', Quoted ''disk full''), ('' '', ''n'', Plain ''7'')]
   in show_pairs ps = ''level=info msg='' @ CHR 0x22 # ''disk full'' @ CHR 0x22 # '' n=7''
      \<and> (\<exists>ob. nblex_parse_logfmt_line X (show_pairs ps) = Some (Some ob)
            \<and> json_object_get X ob ''n'' = Some (JInt 7))"
proof -
  let ?X = "tree_ext (\<lambda>_. None) (\<lambda>_. None) (\<lambda>_. True) (\<lambda>_ _. 0) (\<lambda>_. 0)"
  let ?ps = "[([], ''level'', Plain ''info''), ('' '', ''msg'', Quoted ''disk full''), ('' '', ''n'', Plain ''7'')]"
  have 1: "line_ok ?ps" by code_simp
  have "map_of (rev (pair_values ?ps)) ''n'' = Some ''7''" "logfmt_value ?X ''7'' = Some (JInt 7)" by code_simp+
  then show ?thesis
    using logfmt_roundtrip [OF tree.jansson_axioms 1] unfolding Let_def by fastforce
qed

text \<open>C22: White space at the end of a logfmt line makes the parser loop forever: it finds no pair, and
  skipping invalid content does not move past a blank.\<close>

theorem logfmt_trailing_blank_hangs:
  assumes "jansson X" and "line_ok ps" and "trail \<noteq> []" and "list_all isspace trail"
  shows "nblex_parse_logfmt_line X (show_pairs ps @ trail) = None"
  by (rule jansson.logfmt_line_hangs [OF assms])

theorem logfmt_trailing_blank_hangs_witness:
  "nblex_parse_logfmt_line (tree_ext (\<lambda>_. None) (\<lambda>_. None) (\<lambda>_. True) (\<lambda>_ _. 0) (\<lambda>_. 0)) ''level=info '' = None"
proof -
  have 1: "line_ok [([], ''level'', Plain ''info'')]" by code_simp
  have 2: "list_all isspace '' ''" by code_simp
  have "show_pairs [([], ''level'', Plain ''info'')] @ '' '' = ''level=info ''" by simp
  with logfmt_trailing_blank_hangs [OF tree.jansson_axioms 1 _ 2] show ?thesis by (metis list.distinct(1))
qed

end
