(* ===== verification/Line_Props.thy ===== *)
theory Line_Props
  imports Logfmt_Props
begin

text \<open>
  Correctness of the syslog and nginx parsers. An object is described by the map its lookups give
  (\<open>holds\<close>); setting a member is an update of the map.
\<close>

section \<open>Objects as maps\<close>

definition holds :: "'j ext \<Rightarrow> 'j \<Rightarrow> (string \<rightharpoonup> 'j) \<Rightarrow> bool" where
  "holds X ob m \<longleftrightarrow> json_typeof X ob = JSON_OBJECT \<and> json_object_get X ob = m"

lemma ascii_Cons [simp]: "ascii [] = True" "ascii (c # s) \<longleftrightarrow> 0 < byte c \<and> byte c < 128 \<and> ascii s"
  by (simp_all add: ascii_def)

lemma ascii_append [simp]: "ascii (s @ t) \<longleftrightarrow> ascii s \<and> ascii t"
  by (simp add: ascii_def)

context jansson
begin

lemma holds_object: "holds X (json_object X) Map.empty"
  using typeof_object get_empty by (auto simp: holds_def)

lemma holds_get: "holds X ob m \<Longrightarrow> json_object_get X ob k = m k"
  by (simp add: holds_def)

lemma holds_set:
  assumes "holds X ob m" and "json_object_set X ob k v = Some ob'"
  shows "holds X ob' (m(k \<mapsto> v))"
proof -
  have t: "json_typeof X ob = JSON_OBJECT" and g: "json_object_get X ob = m" using assms(1) by (simp_all add: holds_def)
  have "json_object_get X ob' = m(k \<mapsto> v)" using set_get [OF t assms(2)] g by auto
  with set_typeof [OF t assms(2)] show ?thesis by (simp add: holds_def)
qed

lemma holds_set_new:
  assumes "holds X ob m" and "ascii k"
  shows "holds X (obj_set_new X ob k (Some v)) (m(k \<mapsto> v))"
proof -
  obtain ob' where ob': "json_object_set X ob k v = Some ob'"
    using set_ascii [OF _ assms(2)] assms(1) unfolding holds_def by blast
  with holds_set [OF assms(1) ob'] show ?thesis by (simp add: obj_set_new_def)
qed

lemma holds_set_string:
  assumes "holds X ob m" and "ascii k" and "json_string X v = Some j"
  shows "holds X (set_string X ob k v) (m(k \<mapsto> j))"
  using holds_set_new [OF assms(1,2)] assms(3) by (simp add: set_string_def)

lemma holds_set_or_fail:
  assumes "holds X ob m" and "set_or_fail X ob k vo = Some ob'"
  shows "\<exists>v. vo = Some v \<and> holds X ob' (m(k \<mapsto> v))"
  using assms holds_set by (auto simp: set_or_fail_def split: option.splits)

lemma holds_set_int:
  "holds X ob m \<Longrightarrow> set_int X ob k n = Some ob' \<Longrightarrow> holds X ob' (m(k \<mapsto> json_integer X (word_of_int n)))"
  using holds_set_or_fail by (fastforce simp: set_int_def)

lemma set_int_some: "holds X ob m \<Longrightarrow> ascii k \<Longrightarrow> \<exists>ob'. set_int X ob k n = Some ob'"
  using set_ascii by (auto simp: set_int_def set_or_fail_def holds_def)

lemma holds_obj_set_new_other:
  assumes "holds X ob m"
  shows "\<exists>m'. holds X (obj_set_new X ob k vo) m' \<and> (\<forall>k'. k' \<noteq> k \<longrightarrow> m' k' = m k')"
proof (cases "\<exists>v ob'. vo = Some v \<and> json_object_set X ob k v = Some ob'")
  case True
  then obtain v ob' where "vo = Some v" "json_object_set X ob k v = Some ob'" by blast
  then show ?thesis using holds_set [OF assms] by (intro exI [of _ "m(k \<mapsto> v)"]) (simp add: obj_set_new_def)
next
  case False
  then have "obj_set_new X ob k vo = ob" by (auto simp: obj_set_new_def split: option.splits)
  with assms show ?thesis by auto
qed

end

section \<open>Members that a parser leaves alone\<close>

definition member :: "'j ext \<Rightarrow> string \<Rightarrow> 'j option \<Rightarrow> 'j \<Rightarrow> bool" where
  "member X k v ob \<longleftrightarrow> json_typeof X ob = JSON_OBJECT \<and> json_object_get X ob k = v"

context jansson
begin

lemma member_object: "member X k None (json_object X)"
  using typeof_object get_empty by (simp add: member_def)

lemma member_set_or_fail:
  assumes "member X k v ob" and "k' \<noteq> k" and "set_or_fail X ob k' vo = Some ob'"
  shows "member X k v ob'"
  using assms set_typeof set_get by (auto simp: member_def set_or_fail_def split: option.splits)

lemma member_set_int: "member X k v ob \<Longrightarrow> k' \<noteq> k \<Longrightarrow> set_int X ob k' n = Some ob' \<Longrightarrow> member X k v ob'"
  unfolding set_int_def by (rule member_set_or_fail)

lemma member_set_int_same:
  "member X k' v ob \<Longrightarrow> set_int X ob k n = Some ob' \<Longrightarrow> member X k (Some (json_integer X (word_of_int n))) ob'"
  using set_typeof set_get by (auto simp: member_def set_int_def set_or_fail_def)

lemma member_set_new:
  assumes "member X k v ob" and "k' \<noteq> k"
  shows "member X k v (obj_set_new X ob k' vo)"
  using assms set_typeof set_get by (auto simp: member_def obj_set_new_def split: option.splits)

end

section \<open>Syslog\<close>

lemma scan_priority_range: "scan_priority line = Some (pri, pos) \<Longrightarrow> 0 \<le> pri \<and> pri \<le> 191"
  by (auto simp: scan_priority_def split: if_splits prod.splits option.splits)

text \<open>The microseconds are never found: the search starts at the date and stops at its first hyphen.\<close>

lemma scan_usec_hyphen: "CHR ''.'' \<notin> set xs \<Longrightarrow> scan_usec (xs @ CHR ''-'' # r) = 0"
  by (induction xs) auto

lemma sign_no_dot:
  "CHR ''.'' \<notin> set (take (if deref p = CHR ''-'' \<or> deref p = CHR ''+'' then 1 else 0) p)"
  by (cases p) (auto simp: take_Cons split: nat.splits)

lemma scan_usec_iso:
  assumes "scan_iso_time pos = Some t"
  shows "scan_usec pos = 0"
proof -
  obtain year s1 where y: "scan_int 4 pos = Some (year, s1)" "deref s1 = CHR ''-''"
    using assms by (auto simp: scan_iso_time_def scan_then_def scan_char_def split: option.splits if_splits)
  let ?p = "skip_space pos"
  define sg :: nat where "sg = (if deref ?p = CHR ''-'' \<or> deref ?p = CHR ''+'' then 1 else 0)"
  define ds where "ds = takeWhile isdigit (take (4 - sg) (drop sg ?p))"
  have s1: "s1 = drop (sg + length ds) ?p"
    using y(1) by (auto simp: scan_int_def Let_def sg_def ds_def split: if_splits)
  have "take (length ds) (drop sg ?p) = ds"
    unfolding ds_def by (metis (no_types) take_take takeWhile_eq_take length_takeWhile_le min.absorb1 length_take min.bounded_iff)
  then have "?p = take sg ?p @ ds @ s1"
    unfolding s1 by (metis append_take_drop_id add.commute drop_drop)
  moreover obtain r where "s1 = CHR ''-'' # r" using y(2) by (cases s1) (auto simp: NUL_def)
  ultimately have p: "pos = (takeWhile isspace pos @ take sg ?p @ ds) @ CHR ''-'' # r"
    by (metis append.assoc takeWhile_dropWhile_id)
  have "CHR ''.'' \<notin> set (takeWhile isspace pos)"
    using set_takeWhileD [of "CHR ''.''" isspace pos] by (auto simp: isspace_def)
  moreover have "CHR ''.'' \<notin> set (take sg ?p)" unfolding sg_def by (rule sign_no_dot)
  moreover have "CHR ''.'' \<notin> set ds"
    unfolding ds_def using set_takeWhileD [of "CHR ''.''" isdigit] by (auto simp: isdigit_def byte_def)
  ultimately show ?thesis using scan_usec_hyphen [of "takeWhile isspace pos @ take sg ?p @ ds" r] p by auto
qed

context jansson
begin

lemma rfc3164_timestamp_member:
  assumes "member X k v r3" and "k \<noteq> ''timestamp''" and "rfc3164_timestamp M X r3 t = Some r4"
  shows "member X k v r4"
  using assms member_set_int [OF assms(1) assms(2) [symmetric]]
  by (auto simp: rfc3164_timestamp_def split: prod.splits option.splits)

lemma rfc5424_timestamp_member:
  assumes "member X k v r4" and "k \<noteq> ''timestamp''" and "scan_usec pos = 0" and "rfc5424_timestamp M X r4 pos t = Some r6"
  shows "member X k v r6"
  using assms member_set_int [OF assms(1) assms(2) [symmetric]]
  by (auto simp: rfc5424_timestamp_def Let_def bind_eq_Some_conv split: prod.splits if_splits)

lemma rfc3164_message_member:
  assumes "member X k v r4" and "k \<noteq> ''hostname''" and "k \<noteq> ''message''" and "rfc3164_message X r4 pos2 = Some ob"
  shows "member X k v ob"
proof -
  define h where "h = takeWhile (\<lambda>c. \<not> isspace c \<and> c \<noteq> CHR '':'') pos2"
  define r5 where "r5 = (if h = [] then r4 else obj_set_new X r4 ''hostname'' (json_string X h))"
  define pos4 where "pos4 = dropWhile (\<lambda>c. c \<noteq> CHR '':'') (dropWhile (\<lambda>c. \<not> isspace c \<and> c \<noteq> CHR '':'') pos2)"
  define pos5 where "pos5 = (if deref pos4 = CHR '':'' then skip_space (tl pos4) else pos4)"
  have m: "(if pos5 = [] then Some r5 else set_or_fail X r5 ''message'' (json_string X pos5)) = Some ob"
    using assms(4) unfolding rfc3164_message_def Let_def pos5_def pos4_def r5_def h_def .
  have r5: "member X k v r5"
    unfolding r5_def using assms(1) member_set_new [OF assms(1) assms(2) [symmetric]] by simp
  show ?thesis
  proof (cases "pos5 = []")
    case False
    with m have "set_or_fail X r5 ''message'' (json_string X pos5) = Some ob" by simp
    then show ?thesis by (rule member_set_or_fail [OF r5 assms(3) [symmetric]])
  qed (use m r5 in simp)
qed

lemma parse_rfc3164_member:
  assumes "parse_rfc3164 M X line = Some ob" and "scan_priority line = Some (pri, pos0)"
    and "set_priority X (json_object X) pri = Some r3" and "member X k v r3"
    and "k \<notin> {''timestamp'', ''hostname'', ''message''}"
  shows "member X k v ob"
proof -
  let ?pos1 = "skip_space pos0"
  have k: "k \<noteq> ''timestamp''" "k \<noteq> ''hostname''" "k \<noteq> ''message''" using assms(5) by simp_all
  obtain r4 pos2 where r4: "member X k v r4" and rest: "rfc3164_message X r4 pos2 = Some ob"
  proof (cases "scan_bsd_time ?pos1")
    case None
    with assms show ?thesis by (intro that [of r3 ?pos1]) (simp_all add: parse_rfc3164_def Let_def)
  next
    case (Some t)
    with assms obtain r4 where r4: "rfc3164_timestamp M X r3 t = Some r4"
      by (auto simp: parse_rfc3164_def Let_def bind_eq_Some_conv)
    with assms Some show ?thesis
      by (intro that [of r4 "skip_word ?pos1"] rfc3164_timestamp_member [OF assms(4) k(1) r4])
        (simp_all add: parse_rfc3164_def Let_def)
  qed
  show ?thesis by (rule rfc3164_message_member [OF r4 k(2,3) rest])
qed

lemma parse_rfc5424_member:
  assumes "parse_rfc5424 M X line = Some ob" and "scan_priority line = Some (pri, pos0)"
    and "set_priority X (json_object X) pri = Some r3" and "member X k v r3"
    and "k \<notin> {''syslog_version'', ''timestamp'', ''message''}"
  shows "member X k v ob"
proof -
  have k: "k \<noteq> ''syslog_version''" "k \<noteq> ''timestamp''" "k \<noteq> ''message''" using assms(5) by simp_all
  obtain r4 where r4: "set_int X r3 ''syslog_version'' (digit_val (deref pos0)) = Some r4"
    and d: "isdigit (deref pos0)" "deref (tl pos0) = CHR '' ''"
    using assms by (auto simp: parse_rfc5424_def bind_eq_Some_conv split: if_splits)
  have m4: "member X k v r4" by (rule member_set_int [OF assms(4) k(1) [symmetric] r4])
  let ?pos1 = "tl (tl pos0)"
  obtain r6 pos2 where r6: "member X k v r6"
    and rest: "(if pos2 = [] then Some r6 else set_or_fail X r6 ''message'' (json_string X pos2)) = Some ob"
  proof (cases "scan_iso_time ?pos1")
    case None
    with assms r4 d m4 show ?thesis by (intro that [of r4 ?pos1]) (simp_all add: parse_rfc5424_def Let_def)
  next
    case (Some t)
    with assms r4 d obtain r6 where r6: "rfc5424_timestamp M X r4 ?pos1 t = Some r6"
      by (auto simp: parse_rfc5424_def Let_def bind_eq_Some_conv)
    with assms r4 d Some show ?thesis
      by (intro that [of r6 "skip_space (dropWhile (\<lambda>c. c \<noteq> CHR '' '') ?pos1)"]
          rfc5424_timestamp_member [OF m4 k(2) scan_usec_iso [OF Some] r6])
        (simp_all add: parse_rfc5424_def Let_def)
  qed
  show ?thesis
  proof (cases "pos2 = []")
    case False
    with rest have "set_or_fail X r6 ''message'' (json_string X pos2) = Some ob" by simp
    then show ?thesis by (rule member_set_or_fail [OF r6 k(3) [symmetric]])
  qed (use rest r6 in simp)
qed

text \<open>The members the priority sets, and those it does not.\<close>

lemma set_priority_member:
  assumes "set_priority X (json_object X) pri = Some r3"
  shows "member X ''syslog_priority'' (Some (json_integer X (word_of_int pri))) r3"
    "member X ''syslog_facility'' (Some (json_integer X (word_of_int (pri div 8)))) r3"
    "member X ''syslog_severity'' (Some (json_integer X (word_of_int (pri mod 8)))) r3"
    "k \<notin> {''syslog_priority'', ''syslog_facility'', ''syslog_severity''} \<Longrightarrow> member X k None r3"
proof -
  obtain r1 r2 where r: "set_int X (json_object X) ''syslog_priority'' pri = Some r1"
    "set_int X r1 ''syslog_facility'' (pri div 8) = Some r2" "set_int X r2 ''syslog_severity'' (pri mod 8) = Some r3"
    using assms by (auto simp: set_priority_def bind_eq_Some_conv)
  have 1: "member X ''syslog_priority'' (Some (json_integer X (word_of_int pri))) r1"
    by (rule member_set_int_same [OF member_object r(1)])
  have 2: "member X ''syslog_facility'' (Some (json_integer X (word_of_int (pri div 8)))) r2"
    by (rule member_set_int_same [OF 1 r(2)])
  show "member X ''syslog_priority'' (Some (json_integer X (word_of_int pri))) r3"
    by (rule member_set_int [OF member_set_int [OF 1 _ r(2)] _ r(3)]) simp_all
  show "member X ''syslog_facility'' (Some (json_integer X (word_of_int (pri div 8)))) r3"
    by (rule member_set_int [OF 2 _ r(3)]) simp
  show "member X ''syslog_severity'' (Some (json_integer X (word_of_int (pri mod 8)))) r3"
    by (rule member_set_int_same [OF 2 r(3)])
  show "member X k None r3" if "k \<notin> {''syslog_priority'', ''syslog_facility'', ''syslog_severity''}"
    by (rule member_set_int [OF member_set_int [OF member_set_int [OF member_object _ r(1)] _ r(2)] _ r(3)])
      (use that in auto)
qed

lemma syslog_line_member:
  assumes "nblex_parse_syslog_line M X line = Some ob"
  obtains pri r3 where "0 \<le> pri" "pri \<le> 191" "set_priority X (json_object X) pri = Some r3"
    "\<And>k v. member X k v r3 \<Longrightarrow>
      k \<notin> {''syslog_version'', ''timestamp'', ''hostname'', ''message''} \<Longrightarrow> member X k v ob"
proof -
  have p: "parse_rfc3164 M X line = Some ob \<or> parse_rfc5424 M X line = Some ob"
    using assms by (auto simp: nblex_parse_syslog_line_def Let_def split: if_splits)
  then obtain pri pos0 r3 where s: "scan_priority line = Some (pri, pos0)" "set_priority X (json_object X) pri = Some r3"
    by (auto simp: parse_rfc3164_def parse_rfc5424_def bind_eq_Some_conv)
  have "member X k v ob" if "member X k v r3" "k \<notin> {''syslog_version'', ''timestamp'', ''hostname'', ''message''}" for k v
    using p parse_rfc3164_member [OF _ s that(1)] parse_rfc5424_member [OF _ s that(1)] that(2) by blast
  then show ?thesis using scan_priority_range [OF s(1)] s(2) that by blast
qed

lemma syslog_line_priority:
  assumes "nblex_parse_syslog_line M X line = Some ob"
  shows "\<exists>pri. 0 \<le> pri \<and> pri \<le> 191
    \<and> json_object_get X ob ''syslog_priority'' = Some (json_integer X (word_of_int pri))
    \<and> json_object_get X ob ''syslog_facility'' = Some (json_integer X (word_of_int (pri div 8)))
    \<and> json_object_get X ob ''syslog_severity'' = Some (json_integer X (word_of_int (pri mod 8)))
    \<and> json_object_get X ob ''timestamp_usec'' = None"
proof -
  obtain pri r3 where p: "0 \<le> pri" "pri \<le> 191" and r3: "set_priority X (json_object X) pri = Some r3"
    and k: "\<And>k v. member X k v r3 \<Longrightarrow>
      k \<notin> {''syslog_version'', ''timestamp'', ''hostname'', ''message''} \<Longrightarrow> member X k v ob"
    using syslog_line_member [OF assms] by blast
  show ?thesis
    using k [OF set_priority_member(1) [OF r3]] k [OF set_priority_member(2) [OF r3]]
      k [OF set_priority_member(3) [OF r3]] k [OF set_priority_member(4) [OF r3], of "''timestamp_usec''"] p
    by (auto simp: member_def)
qed

end

text \<open>C24: Every object the syslog parser returns has a priority between 0 and 191, and a facility and a
  severity that are its quotient and its remainder by 8, whatever else the line holds; and it never has
  the microseconds the parser looks for.\<close>

theorem syslog_priority_split:
  assumes "jansson X" and "nblex_parse_syslog_line M X line = Some ob"
  shows "\<exists>pri. 0 \<le> pri \<and> pri \<le> 191
    \<and> json_object_get X ob ''syslog_priority'' = Some (json_integer X (word_of_int pri))
    \<and> json_object_get X ob ''syslog_facility'' = Some (json_integer X (word_of_int (pri div 8)))
    \<and> json_object_get X ob ''syslog_severity'' = Some (json_integer X (word_of_int (pri mod 8)))
    \<and> json_object_get X ob ''timestamp_usec'' = None"
  by (rule jansson.syslog_line_priority [OF assms])

theorem syslog_priority_split_witness:
  "let X = tree_ext (\<lambda>_. None) (\<lambda>_. None) (\<lambda>_. True) (\<lambda>_ _. 0) (\<lambda>_. 0)
   in \<exists>ob. nblex_parse_syslog_line (\<lambda>_. 0) X ''<34>1 2003-10-11T22:14:15.003Z mymachine su'' = Some ob
        \<and> json_object_get X ob ''timestamp_usec'' = None"
proof -
  let ?X = "tree_ext (\<lambda>_. None) (\<lambda>_. None) (\<lambda>_. True) (\<lambda>_ _. 0) (\<lambda>_. 0)"
  let ?line = "''<34>1 2003-10-11T22:14:15.003Z mymachine su''"
  have "nblex_parse_syslog_line (\<lambda>_. 0) ?X ?line \<noteq> None" by code_simp
  then obtain ob where ob: "nblex_parse_syslog_line (\<lambda>_. 0) ?X ?line = Some ob" by blast
  then show ?thesis
    using syslog_priority_split [OF tree.jansson_axioms ob] unfolding Let_def by blast
qed

text \<open>A BSD time stamp and what follows its first colon.\<close>

definition bsd_line :: "int \<Rightarrow> string \<Rightarrow> string \<Rightarrow> string \<Rightarrow> string \<Rightarrow> string" where
  "bsd_line pri mon day hour rest =
     CHR ''<'' # dec_of_pos pri @ CHR ''>'' # mon @ CHR '' '' # day @ CHR '' '' # hour @ CHR '':'' # rest"

definition word_ok :: "string \<Rightarrow> bool" where
  "word_ok w \<longleftrightarrow> w \<noteq> [] \<and> list_all (\<lambda>c. \<not> isspace c \<and> c \<noteq> CHR '':'' \<and> \<not> isdigit c) w"

definition number_ok :: "string \<Rightarrow> bool" where
  "number_ok w \<longleftrightarrow> w \<noteq> [] \<and> list_all isdigit w"

lemma scan_priority_bsd:
  assumes "0 \<le> pri" and "pri \<le> 191"
  shows "scan_priority (bsd_line pri mon day hour rest)
    = Some (pri, mon @ CHR '' '' # day @ CHR '' '' # hour @ CHR '':'' # rest)"
proof -
  have "strtol (dec_of_pos pri @ CHR ''>'' # s) = Some (pri, CHR ''>'' # s)" for s
    using strtol_dec_of_int [of pri "CHR ''>'' # s"] assms by (simp add: dec_of_int_def isdigit_def byte_def)
  then show ?thesis using assms by (simp add: bsd_line_def scan_priority_def)
qed

lemma number_ok_char: "number_ok w \<Longrightarrow> list_all (\<lambda>c. \<not> isspace c \<and> c \<noteq> CHR '':'') w"
  using isdigit_not_space by (auto simp: number_ok_def list_all_iff isdigit_def byte_def)

context jansson
begin

lemma rfc3164_message_number:
  assumes "number_ok day" and "number_ok hour" and "json_typeof X r4 = JSON_OBJECT"
    and "skip_space rest \<noteq> []" and "ascii day" and "ascii rest"
  shows "\<exists>ob. rfc3164_message X r4 (day @ CHR '' '' # hour @ CHR '':'' # rest) = Some ob
    \<and> json_object_get X ob ''hostname'' = json_string X day
    \<and> json_object_get X ob ''message'' = json_string X (skip_space rest)"
proof -
  let ?h = "\<lambda>c. \<not> isspace c \<and> c \<noteq> CHR '':''" and ?s = "day @ CHR '' '' # hour @ CHR '':'' # rest"
  have d: "takeWhile ?h ?s = day" "dropWhile ?h ?s = CHR '' '' # hour @ CHR '':'' # rest"
    using number_ok_char [OF assms(1)] by (simp_all add: takeWhile_stop dropWhile_stop isspace_def)
  have h: "dropWhile (\<lambda>c. c \<noteq> CHR '':'') (CHR '' '' # hour @ CHR '':'' # rest) = CHR '':'' # rest"
    using number_ok_char [OF assms(2)] by (simp add: dropWhile_stop list_all_iff)
  have "ascii (skip_space rest)"
    using assms(6) by (auto simp: ascii_def list_all_iff dest: set_dropWhileD)
  then obtain j where j: "json_string X (skip_space rest) = Some j" using string_ascii by blast
  obtain i where i: "json_string X day = Some i" using string_ascii [OF assms(5)] by blast
  have r4: "holds X r4 (json_object_get X r4)" using assms(3) by (simp add: holds_def)
  have r5: "holds X (obj_set_new X r4 ''hostname'' (Some i)) ((json_object_get X r4)(''hostname'' \<mapsto> i))"
    by (rule holds_set_new [OF r4]) (simp add: byte_def)
  have "ascii ''message''" by (simp add: byte_def)
  then obtain ob where ob: "json_object_set X (obj_set_new X r4 ''hostname'' (Some i)) ''message'' j = Some ob"
    using set_ascii [of "obj_set_new X r4 ''hostname'' (Some i)" "''message''" j] r5 by (auto simp: holds_def simp del: ascii_Cons)
  have "rfc3164_message X r4 ?s = Some ob"
    using assms(1,4) i j ob unfolding rfc3164_message_def d h Let_def
    by (auto simp: number_ok_def set_or_fail_def)
  then show ?thesis using holds_get [OF holds_set [OF r5 ob]] i j by auto
qed

lemma set_priority_some: "\<exists>r3. set_priority X (json_object X) pri = Some r3 \<and> json_typeof X r3 = JSON_OBJECT"
proof -
  have k: "ascii ''syslog_priority''" "ascii ''syslog_facility''" "ascii ''syslog_severity''" by (simp_all add: byte_def)
  obtain r1 where r1: "set_int X (json_object X) ''syslog_priority'' pri = Some r1"
    using set_int_some [OF holds_object k(1)] by blast
  obtain r2 where r2: "set_int X r1 ''syslog_facility'' (pri div 8) = Some r2"
    using set_int_some [OF holds_set_int [OF holds_object r1] k(2)] by blast
  note h2 = holds_set_int [OF holds_set_int [OF holds_object r1] r2]
  obtain r3 where r3: "set_int X r2 ''syslog_severity'' (pri mod 8) = Some r3"
    using set_int_some [OF h2 k(3)] by blast
  show ?thesis using holds_set_int [OF h2 r3] r1 r2 r3 by (simp add: set_priority_def holds_def)
qed

lemma rfc3164_timestamp_some:
  assumes "json_typeof X r3 = JSON_OBJECT"
  shows "\<exists>r4. rfc3164_timestamp M X r3 t = Some r4 \<and> json_typeof X r4 = JSON_OBJECT"
proof -
  have h: "holds X r3 (json_object_get X r3)" using assms by (simp add: holds_def)
  have "\<exists>r4. set_int X r3 ''timestamp'' n = Some r4 \<and> json_typeof X r4 = JSON_OBJECT" for n
    using set_int_some [OF h, of "''timestamp''" n] holds_set_int [OF h] by (auto simp: holds_def byte_def)
  then show ?thesis
    using assms by (auto simp: rfc3164_timestamp_def split: prod.splits option.splits)
qed

lemma rfc3164_misreads_bsd:
  assumes "0 \<le> pri" and "pri \<le> 191" and "word_ok mon" and "number_ok day" and "number_ok hour"
    and "scan_bsd_time (mon @ CHR '' '' # day @ CHR '' '' # hour @ CHR '':'' # rest) \<noteq> None"
    and "skip_space rest \<noteq> []" and "ascii day" and "ascii rest"
  shows "\<exists>ob. nblex_parse_syslog_line M X (bsd_line pri mon day hour rest) = Some ob
    \<and> json_object_get X ob ''hostname'' = json_string X day
    \<and> json_object_get X ob ''message'' = json_string X (skip_space rest)"
proof -
  let ?pos2 = "day @ CHR '' '' # hour @ CHR '':'' # rest"
  let ?line = "bsd_line pri mon day hour rest"
  obtain m ms where m: "mon = m # ms" "\<not> isspace m" "\<not> isdigit m" using assms(3) by (cases mon) (auto simp: word_ok_def)
  obtain d ds where d: "day = d # ds" "\<not> isspace d"
    using assms(4) isdigit_not_space by (cases day) (auto simp: number_ok_def)
  have "list_all (\<lambda>c. \<not> isspace c) mon" using assms(3) by (auto simp: word_ok_def list_all_iff)
  then have w: "skip_word (mon @ CHR '' '' # ?pos2) = ?pos2"
    using d by (simp add: skip_word_def dropWhile_stop isspace_def [of "CHR '' ''"])
  have s: "skip_space (mon @ CHR '' '' # ?pos2) = mon @ CHR '' '' # ?pos2" using m by simp
  obtain t where t: "scan_bsd_time (mon @ CHR '' '' # ?pos2) = Some t" using assms(6) by blast
  obtain r3 where r3: "set_priority X (json_object X) pri = Some r3" "json_typeof X r3 = JSON_OBJECT"
    using set_priority_some by blast
  obtain r4 where r4: "rfc3164_timestamp M X r3 t = Some r4" "json_typeof X r4 = JSON_OBJECT"
    using rfc3164_timestamp_some [OF r3(2)] by blast
  have "parse_rfc3164 M X ?line = rfc3164_message X r4 ?pos2"
    unfolding parse_rfc3164_def scan_priority_bsd [OF assms(1,2)] by (simp add: r3 s t r4 w)
  moreover have "nblex_parse_syslog_line M X ?line = parse_rfc3164 M X ?line"
  proof -
    have "list_all (\<lambda>c. c \<noteq> CHR ''>'') (dec_of_pos pri)"
      using dec_of_pos_digits [OF assms(1)] by (auto simp: list_all_iff isdigit_def byte_def)
    then have "dropWhile (\<lambda>c. c \<noteq> CHR ''>'') (tl ?line) = CHR ''>'' # mon @ CHR '' '' # ?pos2"
      unfolding bsd_line_def by (simp add: dropWhile_stop)
    moreover have "deref ?line = CHR ''<''" by (simp add: bsd_line_def)
    ultimately show ?thesis using m by (simp add: nblex_parse_syslog_line_def)
  qed
  ultimately show ?thesis using rfc3164_message_number [OF assms(4,5) r4(2) assms(7-9)] by simp
qed

end

text \<open>A syslog line with a BSD time stamp is misread: only the month of the time stamp is skipped, so
  the day becomes the host name and everything after the hour is the message.\<close>

theorem rfc3164_misreads:
  assumes "jansson X" and "0 \<le> pri" and "pri \<le> 191" and "word_ok mon" and "number_ok day" and "number_ok hour"
    and "scan_bsd_time (mon @ CHR '' '' # day @ CHR '' '' # hour @ CHR '':'' # rest) \<noteq> None"
    and "skip_space rest \<noteq> []" and "ascii day" and "ascii rest"
  shows "\<exists>ob. nblex_parse_syslog_line M X (bsd_line pri mon day hour rest) = Some ob
    \<and> json_object_get X ob ''hostname'' = json_string X day
    \<and> json_object_get X ob ''message'' = json_string X (skip_space rest)"
  by (rule jansson.rfc3164_misreads_bsd [OF assms])

theorem rfc3164_misreads_witness:
  "let X = tree_ext (\<lambda>_. None) (\<lambda>_. None) (\<lambda>_. True) (\<lambda>_ _. 0) (\<lambda>_. 0)
   in \<exists>ob. nblex_parse_syslog_line (\<lambda>_. 0) X ''<34>Oct 11 22:14:15 mymachine su: failed'' = Some ob
        \<and> json_object_get X ob ''hostname'' = Some (JStr ''11'')
        \<and> json_object_get X ob ''message'' = Some (JStr ''14:15 mymachine su: failed'')"
proof -
  let ?X = "tree_ext (\<lambda>_. None) (\<lambda>_. None) (\<lambda>_. True) (\<lambda>_ _. 0) (\<lambda>_. 0)"
  let ?rest = "''14:15 mymachine su: failed''"
  have 1: "word_ok ''Oct''" "number_ok ''11''" "number_ok ''22''"
    "scan_bsd_time (''Oct'' @ CHR '' '' # ''11'' @ CHR '' '' # ''22'' @ CHR '':'' # ?rest) \<noteq> None"
    "skip_space ?rest \<noteq> []" "ascii ''11''" "ascii ?rest" by code_simp+
  have 2: "bsd_line 34 ''Oct'' ''11'' ''22'' ?rest = ''<34>Oct 11 22:14:15 mymachine su: failed''"
    "json_string ?X ''11'' = Some (JStr ''11'')" "json_string ?X (skip_space ?rest) = Some (JStr ?rest)" by code_simp+
  show ?thesis
    using rfc3164_misreads [OF tree.jansson_axioms _ _ 1, of 34] 2 unfolding Let_def by simp
qed

end
