(* ===== verification/Nginx_Props.thy ===== *)
theory Nginx_Props
  imports Line_Props
begin

text \<open>
  The nginx parser reads back every field of an access log entry printed in the combined format.
\<close>

section \<open>Entries\<close>

record nginx_entry =
  e_addr :: string
  e_user :: string
  e_time :: string
  e_method :: string
  e_path :: string
  e_protocol :: string
  e_status :: int
  e_bytes :: int
  e_referer :: string
  e_agent :: string

abbreviation quote_char :: char where "quote_char \<equiv> CHR 0x22"

definition plain :: "string \<Rightarrow> bool" where
  "plain v \<longleftrightarrow> ascii v \<and> list_all (\<lambda>c. c \<noteq> quote_char \<and> c \<noteq> CHR 0x5C) v"

definition no_blank :: "string \<Rightarrow> bool" where
  "no_blank v \<longleftrightarrow> list_all (\<lambda>c. \<not> isspace c) v"

definition request_of :: "nginx_entry \<Rightarrow> string" where
  "request_of e = e_method e @ CHR '' '' # e_path e @ CHR '' '' # e_protocol e"

definition long_ok :: "int \<Rightarrow> bool" where
  "long_ok n \<longleftrightarrow> 0 \<le> n \<and> n < 2 ^ 63"

definition entry_ok :: "nginx_entry \<Rightarrow> bool" where
  "entry_ok e \<longleftrightarrow> ascii (e_addr e) \<and> no_blank (e_addr e) \<and> e_addr e \<noteq> []
     \<and> ascii (e_user e) \<and> no_blank (e_user e) \<and> list_all (\<lambda>c. c \<noteq> CHR ''['') (e_user e) \<and> deref (e_user e) \<noteq> CHR ''-''
     \<and> ascii (e_time e) \<and> list_all (\<lambda>c. c \<noteq> CHR '']'') (e_time e)
     \<and> plain (e_method e) \<and> no_blank (e_method e) \<and> plain (e_path e) \<and> no_blank (e_path e)
     \<and> plain (e_protocol e) \<and> e_protocol e \<noteq> []
     \<and> long_ok (e_status e) \<and> long_ok (e_bytes e) \<and> plain (e_referer e) \<and> plain (e_agent e)"

definition show_quoted :: "string \<Rightarrow> string" where
  "show_quoted v = quote_char # v @ [quote_char]"

definition show_entry :: "nginx_entry \<Rightarrow> string" where
  "show_entry e = e_addr e @ '' - '' @ (if e_user e = [] then ''-'' else e_user e) @ '' ['' @ e_time e @ ''] ''
     @ show_quoted (request_of e) @ '' '' @ dec_of_int (e_status e) @ '' '' @ dec_of_int (e_bytes e) @ '' ''
     @ show_quoted (e_referer e) @ '' '' @ show_quoted (e_agent e)"

definition dash_field :: "'j ext \<Rightarrow> string \<Rightarrow> 'j option" where
  "dash_field X v = (if v = [] \<or> v = ''-'' then None else json_string X v)"

definition entry_fields :: "'j ext \<Rightarrow> nginx_entry \<Rightarrow> (string \<times> 'j option) list" where
  "entry_fields X e =
     [(''remote_addr'', json_string X (e_addr e)),
      (''remote_user'', if e_user e = [] then None else json_string X (e_user e)),
      (''time_local'', json_string X (e_time e)),
      (''request'', json_string X (request_of e)),
      (''method'', json_string X (e_method e)),
      (''path'', json_string X (e_path e)),
      (''protocol'', json_string X (e_protocol e)),
      (''status'', Some (json_integer X (word_of_int (e_status e)))),
      (''body_bytes_sent'', Some (json_integer X (word_of_int (e_bytes e)))),
      (''http_referer'', dash_field X (e_referer e)),
      (''http_user_agent'', dash_field X (e_agent e))]"

section \<open>One stage of the parser\<close>

text \<open>The object built so far gives the map, and this is what is left of the line.\<close>

definition reads :: "'j ext \<Rightarrow> (string \<rightharpoonup> 'j) \<Rightarrow> string \<Rightarrow> 'j \<times> string \<Rightarrow> bool" where
  "reads X m rest rp \<longleftrightarrow> holds X (fst rp) m \<and> snd rp = rest"

lemma skip_blank: "\<not> isspace c \<Longrightarrow> skip_space (CHR '' '' # c # s) = c # s"
  by (simp add: isspace_def)

lemma scan_request_plain:
  "list_all (\<lambda>c. c \<noteq> quote_char \<and> c \<noteq> CHR 0x5C) v \<Longrightarrow>
   scan_request (v @ quote_char # rest) = (v, quote_char # rest)"
proof (induction v)
  case Nil
  then show ?case by (cases rest) simp_all
next
  case (Cons c v)
  obtain d s where "v @ quote_char # rest = d # s" by (cases v) auto
  with Cons show ?case by simp
qed

lemma nginx_keys: "ascii ''remote_addr''" "ascii ''remote_user''" "ascii ''time_local''" "ascii ''status''"
  "ascii ''body_bytes_sent''" "ascii ''http_referer''" "ascii ''http_user_agent''"
  by (simp_all add: byte_def)

lemma quote_not_space: "\<not> isspace quote_char" "quote_char \<noteq> CHR '' ''"
  by (simp_all add: isspace_def)

context jansson
begin

lemma holds_set_ascii:
  assumes "holds X ob m" and "ascii k" and "ascii v"
  shows "holds X (set_string X ob k v) (m(k := json_string X v))"
  using holds_set_string [OF assms(1,2)] string_ascii [OF assms(3)] by auto

lemma reads_quoted:
  assumes "reads X m (CHR '' '' # show_quoted v @ rest) rp" and "plain v" and "ascii k" and "m k = None"
  shows "reads X (m(k := dash_field X v)) rest (nginx_quoted X k rp)"
proof -
  obtain ob where rp: "rp = (ob, CHR '' '' # quote_char # v @ quote_char # rest)" and m: "holds X ob m"
    using assms(1) by (cases rp) (simp add: reads_def show_quoted_def)
  have same: "m(k := None) = m" using assms(4) by auto
  have "scan_request (v @ quote_char # rest) = (v, quote_char # rest)"
    using assms(2) by (intro scan_request_plain) (simp add: plain_def)
  then have "nginx_quoted X k rp = (if v \<noteq> [] \<and> v \<noteq> ''-'' then set_string X ob k v else ob, rest)"
    by (simp add: rp nginx_quoted_def skip_blank quote_not_space)
  then show ?thesis
    using m same holds_set_ascii [OF m assms(3)] assms(2) by (auto simp: reads_def dash_field_def plain_def)
qed

lemma reads_number:
  assumes "reads X m (CHR '' '' # dec_of_int n @ CHR '' '' # rest) rp" and "long_ok n" and "ascii k"
  shows "reads X (m(k := Some (json_integer X (word_of_int n)))) (CHR '' '' # rest) (nginx_number X k rp)"
proof -
  obtain ob where rp: "rp = (ob, CHR '' '' # dec_of_int n @ CHR '' '' # rest)" and m: "holds X ob m"
    using assms(1) by (cases rp) (simp add: reads_def)
  have n: "0 \<le> n" "n < 2 ^ 63" using assms(2) by (simp_all add: long_ok_def)
  obtain c cs where c: "dec_of_int n = c # cs" "isdigit c"
    using dec_of_pos_Cons [OF n(1)] n(1) by (metis dec_of_int_def linorder_not_less)
  have "strtol (dec_of_int n @ CHR '' '' # rest) = Some (n, CHR '' '' # rest)"
    using n by (intro strtol_dec_of_int) (simp_all add: isdigit_def byte_def)
  moreover have "skip_space (snd rp) = dec_of_int n @ CHR '' '' # rest"
    using c isdigit_not_space by (simp add: rp isspace_def)
  ultimately show ?thesis
    using holds_set_new [OF m assms(3)] c by (simp add: reads_def nginx_number_def rp)
qed

lemma reads_address:
  assumes "reads X m (v @ CHR '' '' # rest) rp" and "ascii v" and "no_blank v" and "v \<noteq> []"
  shows "reads X (m(''remote_addr'' := json_string X v)) (CHR '' '' # rest) (nginx_address X rp)"
proof -
  obtain ob where rp: "rp = (ob, v @ CHR '' '' # rest)" and m: "holds X ob m"
    using assms(1) by (cases rp) (simp add: reads_def)
  have "takeWhile (\<lambda>c. \<not> isspace c) (v @ CHR '' '' # rest) = v"
    "dropWhile (\<lambda>c. \<not> isspace c) (v @ CHR '' '' # rest) = CHR '' '' # rest"
    using assms(3) by (simp_all add: takeWhile_stop dropWhile_stop no_blank_def isspace_def)
  then show ?thesis
    using holds_set_ascii [OF m nginx_keys(1) assms(2)] assms(4) by (simp add: reads_def nginx_address_def rp)
qed

lemma reads_user:
  assumes "reads X m ('' - '' @ (if v = [] then ''-'' else v) @ '' ['' @ rest) rp"
    and "ascii v" and "no_blank v" and "list_all (\<lambda>c. c \<noteq> CHR ''['') v" and "deref v \<noteq> CHR ''-''"
    and "m ''remote_user'' = None"
  shows "\<exists>sp. skip_space sp = CHR ''['' # rest \<and>
    reads X (m(''remote_user'' := (if v = [] then None else json_string X v))) sp (nginx_user X rp)"
proof (cases "v = []")
  case True
  obtain ob where rp: "rp = (ob, '' - - ['' @ rest)" and m: "holds X ob m"
    using assms(1) True by (cases rp) (simp add: reads_def)
  have same: "m(''remote_user'' := None) = m" using assms(6) by auto
  have "nginx_user X rp = (ob, CHR ''['' # rest)" by (simp add: rp nginx_user_def isspace_def)
  then show ?thesis using m same True by (intro exI [of _ "CHR ''['' # rest"]) (simp add: reads_def isspace_def)
next
  case False
  obtain ob where rp: "rp = (ob, '' - '' @ v @ '' ['' @ rest)" and m: "holds X ob m"
    using assms(1) False by (cases rp) (simp add: reads_def)
  obtain c cs where v: "v = c # cs" using False by (cases v) auto
  have c: "\<not> isspace c" "c \<noteq> CHR ''-''" using assms(3,5) v by (simp_all add: no_blank_def)
  have "dropWhile (\<lambda>c. isspace c \<or> c = CHR ''-'') ('' - '' @ v @ '' ['' @ rest) = v @ CHR '' '' # CHR ''['' # rest"
    using c by (simp add: v isspace_def [of "CHR '' ''"])
  moreover have "list_all (\<lambda>c. \<not> isspace c \<and> c \<noteq> CHR ''['') v"
    using assms(3,4) by (simp add: no_blank_def list_all_iff)
  then have "takeWhile (\<lambda>c. \<not> isspace c \<and> c \<noteq> CHR ''['') (v @ CHR '' '' # CHR ''['' # rest) = v"
    "dropWhile (\<lambda>c. \<not> isspace c \<and> c \<noteq> CHR ''['') (v @ CHR '' '' # CHR ''['' # rest) = CHR '' '' # CHR ''['' # rest"
    by (simp_all add: takeWhile_stop dropWhile_stop isspace_def)
  ultimately have "nginx_user X rp = (set_string X ob ''remote_user'' v, CHR '' '' # CHR ''['' # rest)"
    using False by (simp add: nginx_user_def rp)
  then show ?thesis
    using holds_set_ascii [OF m nginx_keys(2) assms(2)] False
    by (intro exI [of _ "CHR '' '' # CHR ''['' # rest"]) (simp add: reads_def isspace_def)
qed

lemma reads_time:
  assumes "reads X m sp rp" and "skip_space sp = CHR ''['' # v @ CHR '']'' # rest"
    and "ascii v" and "list_all (\<lambda>c. c \<noteq> CHR '']'') v"
  shows "reads X (m(''time_local'' := json_string X v)) rest (nginx_time X rp)"
proof -
  obtain ob where rp: "rp = (ob, sp)" and m: "holds X ob m" using assms(1) by (cases rp) (simp add: reads_def)
  have "takeWhile (\<lambda>c. c \<noteq> CHR '']'') (v @ CHR '']'' # rest) = v"
    "dropWhile (\<lambda>c. c \<noteq> CHR '']'') (v @ CHR '']'' # rest) = CHR '']'' # rest"
    using assms(4) by (simp_all add: takeWhile_stop dropWhile_stop)
  then show ?thesis
    using holds_set_ascii [OF m nginx_keys(3) assms(3)]
    by (simp add: reads_def nginx_time_def rp assms(2))
qed

lemma holds_request:
  assumes "holds X ob m" and "ascii a" and "no_blank a" and "ascii b" and "no_blank b" and "ascii c" and "c \<noteq> []"
  shows "holds X (nginx_request X ob (a @ CHR '' '' # b @ CHR '' '' # c))
    (m(''request'' := json_string X (a @ CHR '' '' # b @ CHR '' '' # c), ''method'' := json_string X a,
       ''path'' := json_string X b, ''protocol'' := json_string X c))"
proof -
  let ?r = "a @ CHR '' '' # b @ CHR '' '' # c"
  have blank: "list_all (\<lambda>c. c \<noteq> CHR '' '') v" if "no_blank v" for v
    using that by (auto simp: no_blank_def list_all_iff isspace_def)
  have "takeWhile (\<lambda>c. c \<noteq> CHR '' '') ?r = a" "dropWhile (\<lambda>c. c \<noteq> CHR '' '') ?r = CHR '' '' # b @ CHR '' '' # c"
    "takeWhile (\<lambda>c. c \<noteq> CHR '' '') (b @ CHR '' '' # c) = b"
    "dropWhile (\<lambda>c. c \<noteq> CHR '' '') (b @ CHR '' '' # c) = CHR '' '' # c"
    using blank [OF assms(3)] blank [OF assms(5)] by (simp_all add: takeWhile_stop dropWhile_stop)
  then have n: "nginx_request X ob ?r = set_string X (set_string X (set_string X (set_string X ob ''request'' ?r)
      ''method'' a) ''path'' b) ''protocol'' c"
    using assms(7) by (simp add: nginx_request_def Let_def)
  have r: "ascii ?r" using assms by simp (simp add: byte_def)
  show ?thesis
    unfolding n by (intro holds_set_ascii assms(1,2,4,6) r) (simp_all add: byte_def)
qed

lemma reads_request:
  assumes "reads X m (CHR '' '' # show_quoted (request_of e) @ rest) rp" and "entry_ok e"
  shows "reads X (m(''request'' := json_string X (request_of e), ''method'' := json_string X (e_method e),
       ''path'' := json_string X (e_path e), ''protocol'' := json_string X (e_protocol e))) rest
     (nginx_request_field X rp)"
proof -
  obtain ob where rp: "rp = (ob, CHR '' '' # quote_char # request_of e @ quote_char # rest)" and m: "holds X ob m"
    using assms(1) by (cases rp) (simp add: reads_def show_quoted_def)
  have "list_all (\<lambda>c. c \<noteq> quote_char \<and> c \<noteq> CHR 0x5C) (request_of e)"
    using assms(2) by (simp add: entry_ok_def plain_def request_of_def)
  then have "nginx_request_field X rp = (nginx_request X ob (request_of e), rest)"
    by (simp add: rp nginx_request_field_def skip_blank quote_not_space scan_request_plain)
  then show ?thesis
    using holds_request [OF m, of "e_method e" "e_path e" "e_protocol e"] assms(2)
    by (simp add: reads_def entry_ok_def plain_def request_of_def)
qed

lemma nginx_line_fields:
  assumes "entry_ok e"
  shows "\<exists>ob. nblex_parse_nginx_line X (show_entry e) = Some ob
    \<and> (\<forall>k. json_object_get X ob k = Option.bind (map_of (entry_fields X e) k) id)"
proof -
  define l8 where "l8 = '' '' @ show_quoted (e_agent e)"
  define l7 where "l7 = '' '' @ show_quoted (e_referer e) @ l8"
  define l6 where "l6 = '' '' @ dec_of_int (e_bytes e) @ l7"
  define l5 where "l5 = '' '' @ dec_of_int (e_status e) @ l6"
  define l4 where "l4 = '' '' @ show_quoted (request_of e) @ l5"
  define l3 where "l3 = e_time e @ '']'' @ l4"
  define l2 where "l2 = '' - '' @ (if e_user e = [] then ''-'' else e_user e) @ '' ['' @ l3"
  have ok: "ascii (e_addr e)" "no_blank (e_addr e)" "e_addr e \<noteq> []"
    "ascii (e_user e)" "no_blank (e_user e)" "list_all (\<lambda>c. c \<noteq> CHR ''['') (e_user e)" "deref (e_user e) \<noteq> CHR ''-''"
    "ascii (e_time e)" "list_all (\<lambda>c. c \<noteq> CHR '']'') (e_time e)"
    "long_ok (e_status e)" "long_ok (e_bytes e)" "plain (e_referer e)" "plain (e_agent e)"
    using assms by (simp_all add: entry_ok_def)
  have show_l: "show_entry e = e_addr e @ l2"
    by (simp add: show_entry_def l2_def l3_def l4_def l5_def l6_def l7_def l8_def)
  define s1 where "s1 = nginx_address X (json_object X, show_entry e)"
  define s2 where "s2 = nginx_user X s1"
  define s3 where "s3 = nginx_time X s2"
  define s4 where "s4 = nginx_request_field X s3"
  define s5 where "s5 = nginx_number X ''status'' s4"
  define s6 where "s6 = nginx_number X ''body_bytes_sent'' s5"
  define s7 where "s7 = nginx_quoted X ''http_referer'' s6"
  define s8 where "s8 = nginx_quoted X ''http_user_agent'' s7"
  have parse: "nblex_parse_nginx_line X (show_entry e) = Some (fst s8)"
    using ok(3) by (simp add: nblex_parse_nginx_line_def show_l s8_def s7_def s6_def s5_def s4_def s3_def s2_def s1_def)
  have r0: "reads X Map.empty (e_addr e @ l2) (json_object X, show_entry e)"
    using holds_object by (simp add: reads_def show_l)
  have r1: "reads X (Map.empty(''remote_addr'' := json_string X (e_addr e))) l2 s1"
    using reads_address [OF _ ok(1,2,3), of Map.empty "tl l2"] r0 by (simp add: s1_def l2_def)
  obtain sp where sp: "skip_space sp = CHR ''['' # l3"
    and r2: "reads X (Map.empty(''remote_addr'' := json_string X (e_addr e),
      ''remote_user'' := (if e_user e = [] then None else json_string X (e_user e)))) sp s2"
    using reads_user [OF r1 [unfolded l2_def] ok(4-7)] by (auto simp: s2_def)
  have r3: "reads X (Map.empty(''remote_addr'' := json_string X (e_addr e),
      ''remote_user'' := (if e_user e = [] then None else json_string X (e_user e)),
      ''time_local'' := json_string X (e_time e))) l4 s3"
    unfolding s3_def by (rule reads_time [OF r2 _ ok(8,9)]) (simp add: sp l3_def)
  define m4 where "m4 = (Map.empty(''remote_addr'' := json_string X (e_addr e),
      ''remote_user'' := (if e_user e = [] then None else json_string X (e_user e)),
      ''time_local'' := json_string X (e_time e),
      ''request'' := json_string X (request_of e), ''method'' := json_string X (e_method e),
      ''path'' := json_string X (e_path e), ''protocol'' := json_string X (e_protocol e)) :: string \<rightharpoonup> 'j)"
  have r4: "reads X m4 (CHR '' '' # dec_of_int (e_status e) @ CHR '' '' # dec_of_int (e_bytes e) @ CHR '' '' # tl l7) s4"
    unfolding s4_def m4_def using reads_request [OF _ assms] r3 by (simp add: l4_def l5_def l6_def l7_def)
  have r6: "reads X (m4(''status'' := Some (json_integer X (word_of_int (e_status e))),
      ''body_bytes_sent'' := Some (json_integer X (word_of_int (e_bytes e))))) l7 s6"
    using reads_number [OF reads_number [OF r4 ok(10) nginx_keys(4)] _ nginx_keys(5)] ok(11)
    by (simp add: l7_def s6_def s5_def)
  have "m4 ''http_referer'' = None" "m4 ''http_user_agent'' = None" by (simp_all add: m4_def)
  then have "reads X (m4(''status'' := Some (json_integer X (word_of_int (e_status e))),
      ''body_bytes_sent'' := Some (json_integer X (word_of_int (e_bytes e))),
      ''http_referer'' := dash_field X (e_referer e), ''http_user_agent'' := dash_field X (e_agent e))) [] s8"
    using reads_quoted [OF reads_quoted [OF _ ok(12) nginx_keys(6)] ok(13) nginx_keys(7), of _ "[]"] r6
    by (simp add: l7_def l8_def s8_def s7_def)
  then have "json_object_get X (fst s8) k = Option.bind (map_of (entry_fields X e) k) id" for k
    by (simp add: reads_def holds_def m4_def entry_fields_def)
  with parse show ?thesis by blast
qed

end

section \<open>The property\<close>

text \<open>C23: Parsing the text of an access log entry in the combined format gives back every field of the
  entry: the address, the user (if any), the time, the request and its three parts, the status and the
  size as integers, and the referrer and the user agent unless they are empty or a dash; and nothing else.\<close>

theorem nginx_roundtrip:
  assumes "jansson X" and "entry_ok e"
  shows "\<exists>ob. nblex_parse_nginx_line X (show_entry e) = Some ob
    \<and> (\<forall>k. json_object_get X ob k = Option.bind (map_of (entry_fields X e) k) id)"
  by (rule jansson.nginx_line_fields [OF assms])

theorem nginx_roundtrip_witness:
  "let X = tree_ext (\<lambda>_. None) (\<lambda>_. None) (\<lambda>_. True) (\<lambda>_ _. 0) (\<lambda>_. 0);
       e = \<lparr>e_addr = ''127.0.0.1'', e_user = [], e_time = ''09/Nov/2025:17:28:06 -0800'', e_method = ''GET'', e_path = ''/'',
            e_protocol = ''HTTP/2.0'', e_status = 403, e_bytes = 146, e_referer = ''-'', e_agent = ''curl/8.7.1''\<rparr>
   in \<exists>ob. nblex_parse_nginx_line X (show_entry e) = Some ob
        \<and> json_object_get X ob ''status'' = Some (JInt 403) \<and> json_object_get X ob ''http_referer'' = None"
proof -
  let ?X = "tree_ext (\<lambda>_. None) (\<lambda>_. None) (\<lambda>_. True) (\<lambda>_ _. 0) (\<lambda>_. 0)"
  let ?e = "\<lparr>e_addr = ''127.0.0.1'', e_user = [], e_time = ''09/Nov/2025:17:28:06 -0800'', e_method = ''GET'', e_path = ''/'',
            e_protocol = ''HTTP/2.0'', e_status = 403, e_bytes = 146, e_referer = ''-'', e_agent = ''curl/8.7.1''\<rparr>"
  have 1: "entry_ok ?e" by code_simp
  have 2: "Option.bind (map_of (entry_fields ?X ?e) ''status'') id = Some (JInt 403)"
    "Option.bind (map_of (entry_fields ?X ?e) ''http_referer'') id = None" by code_simp+
  show ?thesis using nginx_roundtrip [OF tree.jansson_axioms 1] 2 unfolding Let_def by metis
qed

end
