(* ===== verification/File_Input.thy ===== *)
theory File_Input
  imports World Log_Parsers
begin

text \<open>
  The file input (\<open>input/file_input.c\<close>): tailing a log file.

  The stream is its read position and its end-of-file flag. The bytes of the file and the result of
  \<open>stat\<close> are what the operating system says at the time of a read and are arguments. A read that
  reaches the end of the file leaves the flag set. The handles of libuv are flags that say whether the
  handle is active; the return codes of libuv are arguments. A read returns \<open>None\<close> when a parser
  does not return.
\<close>

section \<open>State\<close>

record file_input =
  fi_path :: string
  fi_dir_path :: string
  fi_filename :: string
  fi_file :: "nat option"
  fi_eof :: bool
  fi_watching :: bool
  fi_use_fs_event :: bool
  fi_poll_timer :: bool
  fi_fs_event :: bool
  fi_line_buffer_capacity :: nat
  fi_line_buffer_size :: nat

definition INITIAL_LINE_BUFFER_CAPACITY :: nat where
  "INITIAL_LINE_BUFFER_CAPACITY = 1024"

text \<open>\<open>dirname\<close> and \<open>basename\<close> of POSIX.\<close>

definition strip_slashes :: "string \<Rightarrow> string" where
  "strip_slashes p = rev (dropWhile (\<lambda>c. c = CHR ''/'') (rev p))"

definition basename :: "string \<Rightarrow> string" where
  "basename p =
     (if p = [] then ''.''
      else let q = strip_slashes p in if q = [] then ''/'' else rev (takeWhile (\<lambda>c. c \<noteq> CHR ''/'') (rev q)))"

definition dirname :: "string \<Rightarrow> string" where
  "dirname p =
     (let q = strip_slashes p; d = rev (dropWhile (\<lambda>c. c \<noteq> CHR ''/'') (rev q))
      in if p = [] then ''.''
         else if q = [] then ''/''
         else if d = [] then ''.''
         else if strip_slashes d = [] then ''/'' else strip_slashes d)"

definition new_file_input :: "string \<Rightarrow> file_input" where
  "new_file_input p = \<lparr>fi_path = p, fi_dir_path = dirname p, fi_filename = basename p, fi_file = None, fi_eof = False,
     fi_watching = False, fi_use_fs_event = False, fi_poll_timer = False, fi_fs_event = False,
     fi_line_buffer_capacity = INITIAL_LINE_BUFFER_CAPACITY, fi_line_buffer_size = 0\<rparr>"

text \<open>The input, its data, and the world with the input added.\<close>

definition nblex_input_file_new ::
  "string option \<Rightarrow> ('j, 'x) world_scheme \<Rightarrow> (nblex_input \<times> file_input) option \<times> ('j, 'x) world_scheme" where
  "nblex_input_file_new path w = (case path of
      None \<Rightarrow> (None, w)
    | Some p \<Rightarrow>
        (let i = (nblex_input_new NBLEX_INPUT_FILE)\<lparr>in_vtable := Some ''file''\<rparr>
         in (Some (i, new_file_input p), snd (nblex_world_add_input i w))))"

section \<open>Starting and stopping\<close>

text \<open>\<open>bytes\<close> is the content of the file if it can be opened; the two numbers are what
  \<open>uv_fs_event_init\<close> and \<open>uv_fs_event_start\<close> return.\<close>

definition file_input_start :: "string option \<Rightarrow> int \<Rightarrow> int \<Rightarrow> file_input \<Rightarrow> int \<times> file_input" where
  "file_input_start bytes init start data = (case bytes of
      None \<Rightarrow> (- 1, data\<lparr>fi_file := None\<rparr>)
    | Some b \<Rightarrow>
        (let d1 = data\<lparr>fi_file := Some (length b), fi_eof := False\<rparr>;
             d2 = (if init = 0 \<and> start = 0 then d1\<lparr>fi_fs_event := True, fi_use_fs_event := True\<rparr> else d1)
         in (0, d2\<lparr>fi_poll_timer := True, fi_watching := True\<rparr>)))"

definition file_input_stop :: "file_input \<Rightarrow> int \<times> file_input" where
  "file_input_stop data =
     (let d1 = (if fi_watching data then
                  (if fi_use_fs_event data then data\<lparr>fi_fs_event := False\<rparr>
                   else data\<lparr>fi_poll_timer := False\<rparr>)\<lparr>fi_watching := False\<rparr>
                else data)
      in (0, d1\<lparr>fi_file := None\<rparr>))"

section \<open>Reading\<close>

definition newline :: char where
  "newline = CHR 0x0A"

text \<open>\<open>fgets\<close> with room for \<open>n\<close> characters: the characters read and the rest of the file.\<close>

fun fgets :: "nat \<Rightarrow> string \<Rightarrow> string \<times> string" where
  "fgets 0 s = ([], s)"
| "fgets (Suc n) [] = ([], [])"
| "fgets (Suc n) (c # s) =
     (if c = newline then ([c], s) else (case fgets n s of (t, r) \<Rightarrow> (c # t, r)))"

lemma fgets_append: "fgets n s = (t, r) \<Longrightarrow> s = t @ r"
  by (induction n s arbitrary: t r rule: fgets.induct) (auto split: if_splits prod.splits)

lemma fgets_nonempty: "fgets n s = (t, r) \<Longrightarrow> s \<noteq> [] \<Longrightarrow> 0 < n \<Longrightarrow> t \<noteq> []"
  by (cases "(n, s)" rule: fgets.cases) (auto split: if_splits prod.splits)

lemma fgets_shorter: "fgets n s = (t, r) \<Longrightarrow> s \<noteq> [] \<Longrightarrow> 0 < n \<Longrightarrow> length r < length s"
  using fgets_append fgets_nonempty by fastforce

text \<open>The buffer as a C string, without the trailing newline.\<close>

definition chop_line :: "string \<Rightarrow> string" where
  "chop_line chunk =
     (let b = takeWhile (\<lambda>c. c \<noteq> NUL) chunk in if b \<noteq> [] \<and> last b = newline then butlast b else b)"

definition message_object :: "'j ext \<Rightarrow> string \<Rightarrow> 'j" where
  "message_object X line = obj_set_new X (json_object X) ''message'' (json_string X line)"

definition parse_by_format :: "(tm \<Rightarrow> int) \<Rightarrow> 'j ext \<Rightarrow> nblex_log_format \<Rightarrow> string \<Rightarrow> 'j option option" where
  "parse_by_format M X f line = (case f of
      NBLEX_FORMAT_JSON \<Rightarrow> Some (nblex_parse_json_line X line)
    | NBLEX_FORMAT_LOGFMT \<Rightarrow> nblex_parse_logfmt_line X line
    | NBLEX_FORMAT_SYSLOG \<Rightarrow> Some (nblex_parse_syslog_line M X line)
    | NBLEX_FORMAT_NGINX \<Rightarrow> Some (nblex_parse_nginx_line X line)
    | NBLEX_FORMAT_REGEX \<Rightarrow> Some None)"

definition line_data :: "(tm \<Rightarrow> int) \<Rightarrow> 'j ext \<Rightarrow> nblex_log_format \<Rightarrow> string \<Rightarrow> 'j option" where
  "line_data M X f line =
     map_option (\<lambda>r. case r of None \<Rightarrow> message_object X line | Some j \<Rightarrow> j) (parse_by_format M X f line)"

text \<open>The body of the loop for a line that is not empty.\<close>

definition emit_line ::
  "(tm \<Rightarrow> int) \<Rightarrow> 'j ext \<Rightarrow> ('j, 'x) handlers \<Rightarrow> nblex_input \<Rightarrow> string \<Rightarrow> ('j, 'x) world_scheme \<Rightarrow>
   ('j, 'x) world_scheme outcome option" where
  "emit_line M X H i line w = (case nblex_timestamp_now X w of (now, w1) \<Rightarrow>
     map_option (\<lambda>d. nblex_event_emit X H ((nblex_event_new now NBLEX_EVENT_LOG (Some i))\<lparr>ev_data := Some d\<rparr>) w1)
       (line_data M X (in_format i) line))"

function read_lines ::
  "(tm \<Rightarrow> int) \<Rightarrow> 'j ext \<Rightarrow> ('j, 'x) handlers \<Rightarrow> nblex_input \<Rightarrow> string \<Rightarrow> ('j, 'x) world_scheme \<Rightarrow>
   ('j, 'x) world_scheme outcome option" where
  "read_lines M X H i s w =
     (if s = [] then Some (Ok w)
      else (case fgets 4095 s of (chunk, rest) \<Rightarrow>
        if chop_line chunk = [] then read_lines M X H i rest w
        else (case emit_line M X H i (chop_line chunk) w of
            None \<Rightarrow> None
          | Some UB \<Rightarrow> Some UB
          | Some (Ok w1) \<Rightarrow> read_lines M X H i rest w1)))"
  by pat_completeness auto
termination read_lines
  by (relation "measure (\<lambda>(M, X, H, i, s, w). length s)") (auto dest!: fgets_shorter [OF sym])

declare read_lines.simps [simp del]

text \<open>\<open>stat_size\<close> is the size that \<open>stat\<close> reports, if it succeeds; \<open>bytes\<close> is what the open stream can read.\<close>

definition file_read_new_data ::
  "(tm \<Rightarrow> int) \<Rightarrow> 'j ext \<Rightarrow> ('j, 'x) handlers \<Rightarrow> nblex_input \<Rightarrow> nat option \<Rightarrow> string \<Rightarrow> file_input \<Rightarrow>
   ('j, 'x) world_scheme \<Rightarrow> (file_input \<times> ('j, 'x) world_scheme) outcome option" where
  "file_read_new_data M X H i stat_size bytes data w = (case fi_file data of
      None \<Rightarrow> Some (Ok (data, w))
    | Some current_pos \<Rightarrow>
        if (case stat_size of None \<Rightarrow> False | Some n \<Rightarrow> n \<le> current_pos \<and> fi_eof data) then Some (Ok (data, w))
        else map_option (\<lambda>r. bind_outcome r (\<lambda>w1.
            Ok (data\<lparr>fi_file := Some (max current_pos (length bytes)), fi_eof := True\<rparr>, w1)))
          (read_lines M X H i (drop current_pos bytes) w))"

text \<open>The callbacks; \<open>changed\<close> is whether the event mask has \<open>UV_RENAME\<close> or \<open>UV_CHANGE\<close>.\<close>

definition file_fs_event_cb ::
  "(tm \<Rightarrow> int) \<Rightarrow> 'j ext \<Rightarrow> ('j, 'x) handlers \<Rightarrow> nblex_input \<Rightarrow> string option \<Rightarrow> bool \<Rightarrow> int \<Rightarrow> nat option \<Rightarrow> string \<Rightarrow>
   file_input \<Rightarrow> ('j, 'x) world_scheme \<Rightarrow> (file_input \<times> ('j, 'x) world_scheme) outcome option" where
  "file_fs_event_cb M X H i filename changed status stat_size bytes data w =
     (if filename \<noteq> None \<and> filename \<noteq> Some (fi_filename data) then Some (Ok (data, w))
      else if status = 0 \<and> changed then file_read_new_data M X H i stat_size bytes data w
      else Some (Ok (data, w)))"

definition file_poll_timer_cb ::
  "(tm \<Rightarrow> int) \<Rightarrow> 'j ext \<Rightarrow> ('j, 'x) handlers \<Rightarrow> nblex_input \<Rightarrow> nat option \<Rightarrow> string \<Rightarrow>
   file_input \<Rightarrow> ('j, 'x) world_scheme \<Rightarrow> (file_input \<times> ('j, 'x) world_scheme) outcome option" where
  "file_poll_timer_cb M X H i stat_size bytes data w = file_read_new_data M X H i stat_size bytes data w"

end
