(* ===== verification/File_Props.thy ===== *)
theory File_Props
  imports File_Input Line_Props Cli
begin

text \<open>
  What tailing a file does to the world: complete lines are emitted once each and in their order,
  however they are spread over the reads, while a line that is written in two parts becomes two events.
\<close>

section \<open>Complete lines\<close>

definition log_line_ok :: "string \<Rightarrow> bool" where
  "log_line_ok l \<longleftrightarrow> length l < 4095 \<and> list_all (\<lambda>c. c \<noteq> newline \<and> c \<noteq> NUL) l"

definition file_text :: "string list \<Rightarrow> string" where
  "file_text ls = concat (map (\<lambda>l. l @ [newline]) ls)"

fun emit_lines ::
  "(tm \<Rightarrow> int) \<Rightarrow> 'j ext \<Rightarrow> ('j, 'x) handlers \<Rightarrow> nblex_input \<Rightarrow> string list \<Rightarrow> ('j, 'x) world_scheme \<Rightarrow>
   ('j, 'x) world_scheme outcome option" where
  "emit_lines M X H i [] w = Some (Ok w)"
| "emit_lines M X H i (l # ls) w = (case emit_line M X H i l w of
      None \<Rightarrow> None
    | Some UB \<Rightarrow> Some UB
    | Some (Ok w1) \<Rightarrow> emit_lines M X H i ls w1)"

lemma fgets_line: "list_all (\<lambda>c. c \<noteq> newline) l \<Longrightarrow> length l < n \<Longrightarrow> fgets n (l @ newline # r) = (l @ [newline], r)"
proof (induction l arbitrary: n)
  case Nil
  then show ?case by (cases n) auto
next
  case (Cons c l)
  then show ?case by (cases n) auto
qed

lemma fgets_all: "list_all (\<lambda>c. c \<noteq> newline) l \<Longrightarrow> length l < n \<Longrightarrow> fgets n l = (l, [])"
proof (induction l arbitrary: n)
  case Nil
  then show ?case by (cases n) auto
next
  case (Cons c l)
  then show ?case by (cases n) auto
qed

lemma newline_not_NUL: "newline \<noteq> NUL"
  by (simp add: newline_def NUL_def)

lemma log_line_chars: "log_line_ok l \<Longrightarrow> c \<in> set l \<Longrightarrow> c \<noteq> newline \<and> c \<noteq> NUL"
  by (auto simp: log_line_ok_def list_all_iff)

lemma chop_line_newline: "log_line_ok l \<Longrightarrow> chop_line (l @ [newline]) = l"
proof -
  assume l: "log_line_ok l"
  then have "takeWhile (\<lambda>c. c \<noteq> NUL) (l @ [newline]) = l @ [newline]"
    using log_line_chars newline_not_NUL by (subst takeWhile_append2) auto
  then show ?thesis by (simp add: chop_line_def Let_def)
qed

lemma chop_line_partial: "log_line_ok l \<Longrightarrow> chop_line l = l"
proof -
  assume l: "log_line_ok l"
  then have t: "takeWhile (\<lambda>c. c \<noteq> NUL) l = l" using log_line_chars takeWhile_eq_all_conv by blast
  have "l \<noteq> [] \<Longrightarrow> last l \<noteq> newline" using log_line_chars [OF l] last_in_set by blast
  then show ?thesis unfolding chop_line_def Let_def t by auto
qed

lemma read_lines_Nil [simp]: "read_lines M X H i [] w = Some (Ok w)"
  by (simp add: read_lines.simps)

lemma read_lines_chunk:
  assumes "s \<noteq> []" and "fgets 4095 s = (chunk, rest)"
  shows "read_lines M X H i s w =
    (if chop_line chunk = [] then read_lines M X H i rest w
     else (case emit_line M X H i (chop_line chunk) w of
        None \<Rightarrow> None | Some UB \<Rightarrow> Some UB | Some (Ok w1) \<Rightarrow> read_lines M X H i rest w1))"
  using assms by (subst read_lines.simps) simp

lemma read_lines_line:
  assumes "log_line_ok l"
  shows "read_lines M X H i (l @ newline # rest) w =
    (if l = [] then read_lines M X H i rest w
     else (case emit_line M X H i l w of
        None \<Rightarrow> None | Some UB \<Rightarrow> Some UB | Some (Ok w1) \<Rightarrow> read_lines M X H i rest w1))"
proof -
  have f: "fgets 4095 (l @ newline # rest) = (l @ [newline], rest)"
    using assms by (intro fgets_line) (auto simp: log_line_ok_def list_all_iff)
  have ne: "l @ newline # rest \<noteq> []" by simp
  show ?thesis unfolding read_lines_chunk [OF ne f] chop_line_newline [OF assms] by (rule refl)
qed

lemma read_lines_text:
  "list_all log_line_ok ls \<Longrightarrow>
   read_lines M X H i (file_text ls) w = emit_lines M X H i (filter (\<lambda>l. l \<noteq> []) ls) w"
proof (induction ls arbitrary: w)
  case (Cons l ls)
  then show ?case
    using read_lines_line [of l M X H i "file_text ls" w]
    by (simp add: file_text_def split: option.split outcome.split)
qed (simp add: file_text_def)

lemma read_lines_partial:
  assumes "log_line_ok l" and "l \<noteq> []"
  shows "read_lines M X H i l w = emit_lines M X H i [l] w"
proof -
  have f: "fgets 4095 l = (l, [])"
    using assms(1) by (intro fgets_all) (auto simp: log_line_ok_def list_all_iff)
  show ?thesis
    unfolding read_lines_chunk [OF assms(2) f] using chop_line_partial [OF assms(1)] assms(2)
    by (simp split: option.split outcome.split)
qed

section \<open>Reads\<close>

text \<open>A read of a file that has grown.\<close>

lemma file_read_grown:
  assumes "fi_file data = Some (length old)" and "new \<noteq> []"
  shows "file_read_new_data M X H i (Some (length (old @ new))) (old @ new) data w =
    map_option (\<lambda>r. bind_outcome r (\<lambda>w1. Ok (data\<lparr>fi_file := Some (length (old @ new)), fi_eof := True\<rparr>, w1)))
      (read_lines M X H i new w)"
  using assms by (simp add: file_read_new_data_def max_def)

text \<open>C28: When complete lines of fewer than 4095 characters are appended to a tailed file, the next read
  emits one log event for each of them that is not empty, in their order, and moves the position to the
  end of the file.\<close>

theorem file_tail_lines:
  assumes "fi_file data = Some (length old)" and "list_all log_line_ok ls" and "ls \<noteq> []"
  shows "file_read_new_data M X H i (Some (length (old @ file_text ls))) (old @ file_text ls) data w =
    map_option (\<lambda>r. bind_outcome r (\<lambda>w1.
        Ok (data\<lparr>fi_file := Some (length (old @ file_text ls)), fi_eof := True\<rparr>, w1)))
      (emit_lines M X H i (filter (\<lambda>l. l \<noteq> []) ls) w)"
proof -
  have "file_text ls \<noteq> []" using assms(3) by (cases ls) (simp_all add: file_text_def)
  then show ?thesis using file_read_grown [OF assms(1)] read_lines_text [OF assms(2)] by metis
qed

theorem file_tail_lines_witness:
  "let X = tree_ext (\<lambda>_. None) (\<lambda>_. Some ''{}'') (\<lambda>_. True) (\<lambda>_ _. 0) (\<lambda>_. 0);
       M = (\<lambda>_. 0); i = nblex_input_new NBLEX_INPUT_FILE;
       data = snd (file_input_start (Some ''old'') 0 0 (new_file_input ''/x''));
       ls = [''first'', '''', ''second''];
       w = snd (nblex_set_event_handler (Some (EVENT_HANDLER_JSON, None)) initial_program)
   in \<exists>w'. file_read_new_data M X (cli_handlers X) i (Some (length (''old'' @ file_text ls))) (''old'' @ file_text ls) data w
        = Some (Ok (data\<lparr>fi_file := Some 17, fi_eof := True\<rparr>, w')) \<and> stdout w' = [''{}'', ''{}'']"
proof -
  let ?X = "tree_ext (\<lambda>_. None) (\<lambda>_. Some ''{}'') (\<lambda>_. True) (\<lambda>_ _. 0) (\<lambda>_. 0)"
  let ?i = "nblex_input_new NBLEX_INPUT_FILE"
  let ?data = "snd (file_input_start (Some ''old'') 0 0 (new_file_input ''/x''))"
  let ?w = "snd (nblex_set_event_handler (Some (EVENT_HANDLER_JSON, None)) (initial_program :: jtree cli_world))"
  let ?ls = "[''first'', '''', ''second'']"
  have 1: "fi_file ?data = Some (length ''old'')" by (simp add: new_file_input_def file_input_start_def Let_def)
  have 2: "list_all log_line_ok ?ls" by code_simp
  have 3: "length (''old'' @ file_text ?ls) = 17" by code_simp
  have "case emit_lines (\<lambda>_. 0) ?X (cli_handlers ?X) ?i (filter (\<lambda>l. l \<noteq> []) ?ls) ?w of
      Some (Ok w') \<Rightarrow> stdout w' = [''{}'', ''{}''] | _ \<Rightarrow> False" by code_simp
  then obtain w' where 4: "emit_lines (\<lambda>_. 0) ?X (cli_handlers ?X) ?i (filter (\<lambda>l. l \<noteq> []) ?ls) ?w = Some (Ok w')"
    and 5: "stdout w' = [''{}'', ''{}'']" by (auto split: option.splits outcome.splits)
  show ?thesis
    using file_tail_lines [OF 1 2, of "\<lambda>_. 0" ?X "cli_handlers ?X" ?i ?w] 5 unfolding Let_def 3 4 by simp
qed

text \<open>C29: A line that is not complete when the file is read is emitted as it is, and its rest becomes a
  second event: the two reads emit the two parts and never the line.\<close>

theorem file_partial_line:
  assumes "fi_file data = Some (length old)" and "log_line_ok a" and "a \<noteq> []" and "log_line_ok b" and "b \<noteq> []"
    and "file_read_new_data M X H i (Some (length (old @ a))) (old @ a) data w = Some (Ok (data1, w1))"
    and "file_read_new_data M X H i (Some (length (old @ a @ b @ [newline]))) (old @ a @ b @ [newline]) data1 w1
      = Some (Ok (data2, w2))"
  shows "emit_lines M X H i [a, b] w = Some (Ok w2)"
proof -
  have 1: "emit_lines M X H i [a] w = Some (Ok w1)" and d1: "fi_file data1 = Some (length (old @ a))"
    using assms(6) unfolding file_read_grown [OF assms(1,3)] read_lines_partial [OF assms(2,3)]
    by (auto simp: outcome_simps)
  have "file_read_new_data M X H i (Some (length ((old @ a) @ b @ [newline]))) ((old @ a) @ b @ [newline]) data1 w1
      = Some (Ok (data2, w2))" and ne: "b @ [newline] \<noteq> []" using assms(7) by simp_all
  then have "read_lines M X H i (b @ [newline]) w1 = Some (Ok w2)"
    unfolding file_read_grown [OF d1 ne] by (auto simp: outcome_simps)
  then have "emit_lines M X H i [b] w1 = Some (Ok w2)"
    using read_lines_text [of "[b]" M X H i w1] assms(4,5) by (simp add: file_text_def)
  with 1 show ?thesis by (auto split: option.splits outcome.splits)
qed

lemma read_result:
  "(case r of Some (Ok (d, w)) \<Rightarrow> P d w | _ \<Rightarrow> False) \<Longrightarrow> \<exists>d w. r = Some (Ok (d, w)) \<and> P d w"
  by (auto split: option.splits outcome.splits)

theorem file_partial_line_witness:
  "let X = tree_ext (\<lambda>_. None) (\<lambda>_. Some ''{}'') (\<lambda>_. True) (\<lambda>_ _. 0) (\<lambda>_. 0);
       i = nblex_input_new NBLEX_INPUT_FILE; w = (initial_program :: jtree cli_world)
   in \<exists>w2. emit_lines (\<lambda>_. 0) X (cli_handlers X) i [''disk '', ''full''] w = Some (Ok w2) \<and> events_processed w2 = 2"
proof -
  let ?X = "tree_ext (\<lambda>_. None) (\<lambda>_. Some ''{}'') (\<lambda>_. True) (\<lambda>_ _. 0) (\<lambda>_. 0)"
  let ?i = "nblex_input_new NBLEX_INPUT_FILE" and ?w = "initial_program :: jtree cli_world"
  let ?d = "snd (file_input_start (Some '''') 0 0 (new_file_input ''/x''))"
  let ?read = "\<lambda>bytes. file_read_new_data (\<lambda>_. 0) ?X (cli_handlers ?X) ?i (Some (length bytes)) bytes"
  have "case ?read (''disk '') ?d ?w of
      Some (Ok (d1, w1)) \<Rightarrow> (case ?read (''disk '' @ ''full'' @ [newline]) d1 w1 of
        Some (Ok (d2, w2)) \<Rightarrow> events_processed w2 = 2 | _ \<Rightarrow> False)
    | _ \<Rightarrow> False" by code_simp
  from read_result [OF this] obtain d1 w1 d2 w2 where r: "?read (''disk '') ?d ?w = Some (Ok (d1, w1))"
    "?read (''disk '' @ ''full'' @ [newline]) d1 w1 = Some (Ok (d2, w2))" "events_processed w2 = 2"
    using read_result by meson
  have 1: "fi_file ?d = Some (length ([] :: string))" by (simp add: new_file_input_def file_input_start_def Let_def)
  have 2: "log_line_ok ''disk ''" "''disk '' \<noteq> []" "log_line_ok ''full''" "''full'' \<noteq> []" by code_simp+
  show ?thesis
    using file_partial_line [OF 1 2, of "\<lambda>_. 0" ?X "cli_handlers ?X" ?i ?w d1 w1 d2 w2] r by simp
qed

section \<open>Stopping\<close>

text \<open>Stopping an input that was started with file events leaves its timer active, whose callback
  reads the data of the input; without file events the timer is stopped. In both cases the file is closed.\<close>

theorem file_stop_leaves_timer:
  assumes "\<not> fi_use_fs_event data"
  shows "let d = snd (file_input_stop (snd (file_input_start (Some bytes) init start data)))
    in fi_file d = None \<and> \<not> fi_watching d \<and> (fi_poll_timer d \<longleftrightarrow> init = 0 \<and> start = 0)"
  using assms by (simp add: file_input_start_def file_input_stop_def Let_def)

theorem file_stop_leaves_timer_witness:
  "let data = new_file_input ''/var/log/x''
   in fi_poll_timer (snd (file_input_stop (snd (file_input_start (Some []) 0 0 data))))"
proof -
  let ?data = "new_file_input ''/var/log/x''"
  have u: "\<not> fi_use_fs_event ?data" by (simp add: new_file_input_def)
  show ?thesis using file_stop_leaves_timer [OF u, of "[]" 0 0] unfolding Let_def by blast
qed

end
