(* ===== verification/Http_Parser.thy ===== *)
theory Http_Parser
  imports Log_Parsers
begin

text \<open>
  The HTTP dissector (\<open>parsers/http_parser.c\<close>). A payload is the list of its bytes, which may hold NUL
  characters: what the code copies into a buffer and passes on as a C string ends at the first of them.
\<close>

text \<open>\<open>METHOD URI VERSION\<close>; \<open>None\<close> is the return code -1.\<close>

definition set_nonempty :: "'j ext \<Rightarrow> 'j \<Rightarrow> string \<Rightarrow> string \<Rightarrow> 'j" where
  "set_nonempty X ob k v = (if v = [] then ob else set_string X ob k v)"

definition parse_http_request_line :: "'j ext \<Rightarrow> string \<Rightarrow> 'j \<Rightarrow> 'j option" where
  "parse_http_request_line X line http =
     (let word = takeWhile (\<lambda>c. \<not> isspace c); after = dropWhile (\<lambda>c. \<not> isspace c);
          method = word line;
          pos1 = skip_space (after line);
          pos2 = skip_space (after pos1)
      in if method = [] then None
         else Some (set_nonempty X (set_nonempty X (set_string X http ''method'' method)
           ''uri'' (word pos1)) ''version'' (word pos2)))"

text \<open>\<open>VERSION CODE REASON\<close>.\<close>

definition parse_http_status_line :: "'j ext \<Rightarrow> string \<Rightarrow> 'j \<Rightarrow> 'j option" where
  "parse_http_status_line X line http =
     (let word = takeWhile (\<lambda>c. \<not> isspace c); after = dropWhile (\<lambda>c. \<not> isspace c);
          h1 = set_nonempty X http ''version'' (word line);
          pos1 = skip_space (after line);
          h2 = (if takeWhile isdigit pos1 = [] then h1
                else obj_set_new X h1 ''status_code'' (Some (json_integer X (word_of_int (atoi pos1)))));
          pos2 = skip_space (dropWhile isdigit pos1)
      in Some (set_nonempty X h2 ''reason'' (word pos2)))"

definition in_line :: "char \<Rightarrow> bool" where
  "in_line c \<longleftrightarrow> c \<noteq> CHR 0x0D \<and> c \<noteq> CHR 0x0A"

text \<open>The position after the line end: one carriage return and one newline are skipped.\<close>

definition skip_char :: "char \<Rightarrow> string \<Rightarrow> string" where
  "skip_char c s = (if s \<noteq> [] \<and> hd s = c then tl s else s)"

definition next_line :: "string \<Rightarrow> string" where
  "next_line pos = skip_char (CHR 0x0A) (skip_char (CHR 0x0D) (dropWhile in_line pos))"

text \<open>A line of the headers; without a colon it is skipped.\<close>

definition header_line :: "'j ext \<Rightarrow> string \<Rightarrow> 'j \<Rightarrow> 'j" where
  "header_line X line headers =
     (let name = takeWhile (\<lambda>c. c \<noteq> CHR '':'') line; rest = dropWhile (\<lambda>c. c \<noteq> CHR '':'') line
      in if rest = [] then headers
         else set_string X headers (cstr (map tolower name)) (cstr (skip_space (tl rest))))"

lemma length_skip_char: "length (skip_char c s) \<le> length s"
  by (simp add: skip_char_def)

lemma length_next_line: "takeWhile in_line pos \<noteq> [] \<Longrightarrow> length (next_line pos) < length pos"
proof -
  assume "takeWhile in_line pos \<noteq> []"
  then have "length (dropWhile in_line pos) < length pos"
    by (metis length_append length_greater_0_conv less_add_same_cancel2 takeWhile_dropWhile_id)
  then show ?thesis
    unfolding next_line_def by (meson length_skip_char le_less_trans)
qed

function header_lines :: "'j ext \<Rightarrow> string \<Rightarrow> 'j \<Rightarrow> 'j" where
  "header_lines X pos headers =
     (if takeWhile in_line pos = [] then headers
      else header_lines X (next_line pos) (header_line X (takeWhile in_line pos) headers))"
  by pat_completeness auto
termination header_lines
  by (relation "measure (\<lambda>(X, pos, headers). length pos)") (auto intro!: length_next_line)

declare header_lines.simps [simp del]

definition parse_http_headers :: "'j ext \<Rightarrow> string \<Rightarrow> 'j \<Rightarrow> 'j" where
  "parse_http_headers X data http = obj_set_new X http ''headers'' (Some (header_lines X data (json_object X)))"

definition nblex_parse_http_payload :: "'j ext \<Rightarrow> string \<Rightarrow> bool \<Rightarrow> 'j option" where
  "nblex_parse_http_payload X data is_request =
     (let first_line = takeWhile in_line data
      in if data = [] \<or> first_line = [] then None
         else (case (if is_request then parse_http_request_line X (cstr first_line) (json_object X)
                     else parse_http_status_line X (cstr first_line) (json_object X)) of
             None \<Rightarrow> None
           | Some http \<Rightarrow> Some (parse_http_headers X (next_line data) http)))"

end
