(* ===== verification/Http_Props.thy ===== *)
theory Http_Props
  imports Http_Parser Nginx_Props
begin

text \<open>
  The HTTP dissector reads back a printed request: its line, and its headers under lower-case names.
\<close>

section \<open>Requests\<close>

record http_request =
  h_method :: string
  h_uri :: string
  h_version :: string
  h_headers :: "(string \<times> string) list"
  h_body :: string

definition crlf :: string where
  "crlf = [CHR 0x0D, CHR 0x0A]"

definition word_text :: "string \<Rightarrow> bool" where
  "word_text v \<longleftrightarrow> ascii v \<and> no_blank v \<and> v \<noteq> []"

definition header_ok :: "string \<times> string \<Rightarrow> bool" where
  "header_ok nv \<longleftrightarrow> ascii (fst nv) \<and> list_all (\<lambda>c. in_line c \<and> c \<noteq> CHR '':'') (fst nv)
     \<and> ascii (snd nv) \<and> list_all in_line (snd nv) \<and> (snd nv = [] \<or> \<not> isspace (hd (snd nv)))"

definition request_ok :: "http_request \<Rightarrow> bool" where
  "request_ok r \<longleftrightarrow> word_text (h_method r) \<and> word_text (h_uri r) \<and> word_text (h_version r)
     \<and> list_all header_ok (h_headers r)"

definition show_header :: "string \<times> string \<Rightarrow> string" where
  "show_header nv = fst nv @ '': '' @ snd nv @ crlf"

definition show_request :: "http_request \<Rightarrow> string" where
  "show_request r = h_method r @ '' '' @ h_uri r @ '' '' @ h_version r @ crlf
     @ concat (map show_header (h_headers r)) @ crlf @ h_body r"

text \<open>The members of the headers object: the last header of a name counts.\<close>

definition header_map :: "'j ext \<Rightarrow> (string \<times> string) list \<Rightarrow> string \<rightharpoonup> 'j" where
  "header_map X hs k = Option.bind (map_of (rev (map (\<lambda>(n, v). (map tolower n, v)) hs)) k) (json_string X)"

section \<open>Lines\<close>

lemma next_line_crlf: "list_all in_line s \<Longrightarrow> next_line (s @ crlf @ rest) = rest"
  by (simp add: next_line_def dropWhile_stop crlf_def in_line_def skip_char_def)

lemma line_crlf: "list_all in_line s \<Longrightarrow> takeWhile in_line (s @ crlf @ rest) = s"
  by (simp add: takeWhile_stop crlf_def in_line_def)

lemma ascii_tolower: "ascii s \<Longrightarrow> ascii (map tolower s)"
  by (induction s) (auto simp: tolower_def isupper_def byte_def)

lemma list_all_conj: "list_all (\<lambda>c. P c \<and> Q c) s \<longleftrightarrow> list_all P s \<and> list_all Q s"
  by (induction s) auto

lemma no_blank_in_line: "no_blank s \<Longrightarrow> list_all in_line s"
  by (auto simp: no_blank_def list_all_iff in_line_def isspace_def)

context jansson
begin

lemma holds_header_line:
  assumes "holds X ob (header_map X hs)" and "header_ok nv"
  shows "holds X (header_line X (fst nv @ '': '' @ snd nv) ob) (header_map X (hs @ [nv]))"
proof -
  obtain n v where nv: "nv = (n, v)" by (cases nv)
  have ok: "ascii n" "list_all (\<lambda>c. c \<noteq> CHR '':'') n" "ascii v" "v = [] \<or> \<not> isspace (hd v)"
    using assms(2) by (auto simp: header_ok_def nv list_all_iff)
  have "skip_space ('' '' @ v) = v" using ok(4) by (cases v) (auto simp: isspace_def)
  then have "header_line X (n @ '': '' @ v) ob = set_string X ob (map tolower n) v"
    using ok by (simp add: header_line_def takeWhile_stop dropWhile_stop ascii_cstr ascii_tolower)
  moreover have "(header_map X hs)(map tolower n := json_string X v) = header_map X (hs @ [(n, v)])"
    by (auto simp: header_map_def)
  ultimately show ?thesis
    using holds_set_ascii [OF assms(1) ascii_tolower [OF ok(1)] ok(3)] by (simp add: nv)
qed

lemma holds_header_lines:
  assumes "list_all header_ok hs" and "holds X ob (header_map X hs0)"
  shows "holds X (header_lines X (concat (map show_header hs) @ crlf @ body) ob) (header_map X (hs0 @ hs))"
  using assms
proof (induction hs arbitrary: ob hs0)
  case Nil
  have "takeWhile in_line (crlf @ body) = []" by (simp add: crlf_def in_line_def)
  with Nil show ?case by (simp add: header_lines.simps)
next
  case (Cons nv hs)
  let ?l = "fst nv @ '': '' @ snd nv" and ?rest = "concat (map show_header hs) @ crlf @ body"
  have "header_ok nv" using Cons.prems(1) by simp
  then have l: "list_all in_line ?l" by (simp add: header_ok_def list_all_conj) (simp add: in_line_def)
  have e: "concat (map show_header (nv # hs)) @ crlf @ body = ?l @ crlf @ ?rest" by (simp add: show_header_def)
  have "header_lines X (?l @ crlf @ ?rest) ob = header_lines X ?rest (header_line X ?l ob)"
    unfolding header_lines.simps [of X "?l @ crlf @ ?rest"] line_crlf [OF l] next_line_crlf [OF l] by simp
  then show ?case
    using Cons.IH [OF _ holds_header_line [OF Cons.prems(2)]] Cons.prems(1) unfolding e by simp
qed

lemma holds_request_line:
  assumes "word_text a" and "word_text b" and "word_text c"
  shows "\<exists>ob. parse_http_request_line X (a @ '' '' @ b @ '' '' @ c) (json_object X) = Some ob
    \<and> holds X ob (Map.empty(''method'' := json_string X a, ''uri'' := json_string X b, ''version'' := json_string X c))"
proof -
  have w: "takeWhile (\<lambda>c. \<not> isspace c) (v @ '' '' @ r) = v" "dropWhile (\<lambda>c. \<not> isspace c) (v @ '' '' @ r) = '' '' @ r"
    "takeWhile (\<lambda>c. \<not> isspace c) v = v" "skip_space ('' '' @ v @ s) = v @ s" "skip_space ('' '' @ v) = v"
    if "word_text v" for v r s
    using that takeWhile_stop [of "\<lambda>c. \<not> isspace c" v "[]"]
    by (auto simp: word_text_def no_blank_def takeWhile_stop dropWhile_stop isspace_def neq_Nil_conv)
  have ok: "ascii a" "ascii b" "ascii c" "a \<noteq> []" "b \<noteq> []" "c \<noteq> []" using assms by (simp_all add: word_text_def)
  have "parse_http_request_line X (a @ '' '' @ b @ '' '' @ c) (json_object X)
      = Some (set_string X (set_string X (set_string X (json_object X) ''method'' a) ''uri'' b) ''version'' c)"
    unfolding parse_http_request_line_def Let_def w [OF assms(1)] w [OF assms(2)] w [OF assms(3)]
    using ok by (simp add: set_nonempty_def)
  then show ?thesis
    using holds_set_ascii [OF holds_set_ascii [OF holds_set_ascii [OF holds_object _ ok(1)] _ ok(2)] _ ok(3),
        of "''method''" "''uri''" "''version''"]
    by (auto simp: byte_def)
qed

lemma http_request_object:
  assumes "request_ok r"
  shows "\<exists>ob hd. nblex_parse_http_payload X (show_request r) True = Some ob
    \<and> json_object_get X ob ''method'' = json_string X (h_method r)
    \<and> json_object_get X ob ''uri'' = json_string X (h_uri r)
    \<and> json_object_get X ob ''version'' = json_string X (h_version r)
    \<and> json_object_get X ob ''headers'' = Some hd \<and> json_object_get X hd = header_map X (h_headers r)"
proof -
  let ?line = "h_method r @ '' '' @ h_uri r @ '' '' @ h_version r"
  let ?rest = "concat (map show_header (h_headers r)) @ crlf @ h_body r"
  have ok: "word_text (h_method r)" "word_text (h_uri r)" "word_text (h_version r)" "list_all header_ok (h_headers r)"
    using assms by (simp_all add: request_ok_def)
  have l: "list_all in_line ?line" "ascii ?line"
    using ok(1-3) no_blank_in_line by (simp_all add: word_text_def in_line_def byte_def)
  have s: "show_request r = ?line @ crlf @ ?rest" by (simp add: show_request_def)
  obtain h0 where h0: "parse_http_request_line X ?line (json_object X) = Some h0"
    "holds X h0 (Map.empty(''method'' := json_string X (h_method r), ''uri'' := json_string X (h_uri r),
       ''version'' := json_string X (h_version r)))"
    using holds_request_line [OF ok(1-3)] by blast
  define hd where "hd = header_lines X ?rest (json_object X)"
  have "header_map X [] = Map.empty" by (auto simp: header_map_def)
  then have hd: "holds X hd (header_map X (h_headers r))"
    using holds_header_lines [OF ok(4), of "json_object X" "[]"] holds_object by (simp add: hd_def)
  have p: "nblex_parse_http_payload X (show_request r) True = Some (obj_set_new X h0 ''headers'' (Some hd))"
    unfolding nblex_parse_http_payload_def s Let_def line_crlf [OF l(1)] next_line_crlf [OF l(1)] ascii_cstr [OF l(2)] if_True h0(1)
    by (simp add: parse_http_headers_def hd_def)
  have "ascii ''headers''" by (simp add: byte_def)
  then have "json_object_get X (obj_set_new X h0 ''headers'' (Some hd)) k = ((Map.empty(''method'' := json_string X (h_method r),
       ''uri'' := json_string X (h_uri r), ''version'' := json_string X (h_version r)))(''headers'' \<mapsto> hd)) k" for k
    using holds_get [OF holds_set_new [OF h0(2)]] by simp
  then show ?thesis using p hd by (auto simp: holds_def)
qed

end

section \<open>Properties\<close>

text \<open>C35: Parsing the text of a request gives back its method, its URI and its version, and an object with
  exactly its headers, under their names in lower case and with the last value of each name; the body is
  ignored.\<close>

theorem http_request_roundtrip:
  assumes "jansson X" and "request_ok r"
  shows "\<exists>ob hd. nblex_parse_http_payload X (show_request r) True = Some ob
    \<and> json_object_get X ob ''method'' = json_string X (h_method r)
    \<and> json_object_get X ob ''uri'' = json_string X (h_uri r)
    \<and> json_object_get X ob ''version'' = json_string X (h_version r)
    \<and> json_object_get X ob ''headers'' = Some hd \<and> json_object_get X hd = header_map X (h_headers r)"
  by (rule jansson.http_request_object [OF assms])

theorem http_request_roundtrip_witness:
  "let X = tree_ext (\<lambda>_. None) (\<lambda>_. None) (\<lambda>_. True) (\<lambda>_ _. 0) (\<lambda>_. 0);
       r = \<lparr>h_method = ''GET'', h_uri = ''/index'', h_version = ''HTTP/1.1'',
            h_headers = [(''Host'', ''a''), (''Accept'', ''text/html''), (''HOST'', ''b'')], h_body = ''x: y''\<rparr>
   in \<exists>ob hd. nblex_parse_http_payload X (show_request r) True = Some ob
        \<and> json_object_get X ob ''headers'' = Some hd
        \<and> json_object_get X hd ''host'' = Some (JStr ''b'') \<and> json_object_get X hd ''x'' = None"
proof -
  let ?X = "tree_ext (\<lambda>_. None) (\<lambda>_. None) (\<lambda>_. True) (\<lambda>_ _. 0) (\<lambda>_. 0)"
  let ?r = "\<lparr>h_method = ''GET'', h_uri = ''/index'', h_version = ''HTTP/1.1'',
            h_headers = [(''Host'', ''a''), (''Accept'', ''text/html''), (''HOST'', ''b'')], h_body = ''x: y''\<rparr>"
  have 1: "request_ok ?r" by code_simp
  have 2: "header_map ?X (h_headers ?r) ''host'' = Some (JStr ''b'')" "header_map ?X (h_headers ?r) ''x'' = None"
    by code_simp+
  show ?thesis using http_request_roundtrip [OF tree.jansson_axioms 1] 2 unfolding Let_def by metis
qed

end
