(* ===== verification/Dns_Parser.thy ===== *)
theory Dns_Parser
  imports Log_Parsers
begin

text \<open>
  The DNS dissector (\<open>parsers/dns_parser.c\<close>).

  A packet is the list of its bytes and an offset a natural number. A read outside the packet is
  undefined behaviour (\<open>UB\<close>). The loop over the labels of a name follows compression pointers without a
  limit, so a call may not return: that is the value \<open>None\<close> of type \<open>'a outcome option\<close>.
  \<open>N6\<close> is \<open>inet_ntop\<close> on the 16 bytes of an IPv6 address.
\<close>

type_synonym u8 = "8 word"
type_synonym u16 = "16 word"
type_synonym 'a run = "'a outcome option"

text \<open>Sequential composition.\<close>

definition bind_run :: "'a run \<Rightarrow> ('a \<Rightarrow> 'b run) \<Rightarrow> 'b run" where
  "bind_run r f = (case r of None \<Rightarrow> None | Some UB \<Rightarrow> Some UB | Some (Ok a) \<Rightarrow> f a)"

abbreviation return_run :: "'a \<Rightarrow> 'a run" where
  "return_run a \<equiv> Some (Ok a)"

lemma bind_run_simps [simp]:
  "bind_run None f = None" "bind_run (Some UB) f = Some UB" "bind_run (Some (Ok a)) f = f a"
  by (simp_all add: bind_run_def)

section \<open>Reading the packet\<close>

text \<open>\<open>n\<close> bytes at an offset, and the fields in network byte order.\<close>

definition bytes_at :: "u8 list \<Rightarrow> nat \<Rightarrow> nat \<Rightarrow> u8 list outcome" where
  "bytes_at packet off n = (if off + n \<le> length packet then Ok (take n (drop off packet)) else UB)"

fun be_value :: "u8 list \<Rightarrow> nat" where
  "be_value [] = 0"
| "be_value (b # bs) = unat b * 256 ^ length bs + be_value bs"

definition field_at :: "u8 list \<Rightarrow> nat \<Rightarrow> nat \<Rightarrow> nat outcome" where
  "field_at packet off n = bind_outcome (bytes_at packet off n) (\<lambda>bs. Ok (be_value bs))"

definition chars_of :: "u8 list \<Rightarrow> string" where
  "chars_of bs = map (\<lambda>b. char_of (unat b)) bs"

section \<open>Names\<close>

text \<open>The loop: the offset, the bytes written to \<open>name\<close> (255 at most) and the offset after the first
  pointer.\<close>

definition dns_limit :: nat where
  "dns_limit = 255"

partial_function (option) dns_name_loop ::
  "u8 list \<Rightarrow> nat \<Rightarrow> u8 list \<Rightarrow> nat option \<Rightarrow> (nat \<times> u8 list \<times> nat option) run" where
  "dns_name_loop packet off name jump =
     (if length packet \<le> off then return_run (off, name, jump)
      else
        let b = packet ! off; len = unat b; off1 = off + 1 in
        if len = 0 then return_run (off1, name, jump)
        else if 192 \<le> len then
          (if length packet \<le> off1 then Some UB
           else dns_name_loop packet ((len - 192) * 256 + unat (packet ! off1)) name
             (case jump of None \<Rightarrow> Some (off1 + 1) | Some j \<Rightarrow> Some j))
        else if dns_limit \<le> length name + len + 1 then return_run (off1, name, jump)
        else if length packet < off1 + len then Some UB
        else dns_name_loop packet (off1 + len)
          (name @ (if name = [] then [] else [46]) @ take len (drop off1 packet)) jump)"

text \<open>The name (\<open>None\<close> for NULL) and the offset after it.\<close>

definition extract_dns_name :: "u8 list \<Rightarrow> nat \<Rightarrow> (string option \<times> nat) run" where
  "extract_dns_name packet off =
     bind_run (dns_name_loop packet off [] None) (\<lambda>(off1, name, jump).
       return_run (if name = [] then None else Some (cstr (chars_of name)),
                   case jump of None \<Rightarrow> off1 | Some j \<Rightarrow> j))"

section \<open>Sections\<close>

definition set_number :: "'j ext \<Rightarrow> 'j \<Rightarrow> string \<Rightarrow> nat \<Rightarrow> 'j" where
  "set_number X ob k n = obj_set_new X ob k (Some (json_integer X (word_of_nat n)))"

text \<open>One question; the object, or \<open>None\<close> when there is no name.\<close>

definition dns_question :: "'j ext \<Rightarrow> u8 list \<Rightarrow> nat \<Rightarrow> ('j option \<times> nat) run" where
  "dns_question X packet off =
     bind_run (extract_dns_name packet off) (\<lambda>(name, off1). case name of
       None \<Rightarrow> return_run (None, off1)
     | Some n \<Rightarrow>
         bind_run (Some (field_at packet off1 2)) (\<lambda>qtype.
         bind_run (Some (field_at packet (off1 + 2) 2)) (\<lambda>qclass.
           return_run (Some (set_number X (set_number X (set_string X (json_object X) ''name'' n)
             ''type'' qtype) ''class'' qclass), off1 + 4))))"

text \<open>The loop over a section: \<open>limit\<close> is the offset at which it stops.\<close>

primrec dns_section ::
  "(nat \<Rightarrow> ('j option \<times> nat) run) \<Rightarrow> 'j ext \<Rightarrow> nat \<Rightarrow> nat \<Rightarrow> nat \<Rightarrow> 'j \<Rightarrow> ('j option \<times> nat) run" where
  "dns_section item X limit 0 off arr = return_run (Some arr, off)"
| "dns_section item X limit (Suc count) off arr =
     (if limit \<le> off then return_run (Some arr, off)
      else bind_run (item off) (\<lambda>(j, off1). case j of
          None \<Rightarrow> return_run (None, off1)
        | Some v \<Rightarrow> dns_section item X limit count off1 (json_array_append X arr v)))"

definition parse_dns_questions :: "'j ext \<Rightarrow> u8 list \<Rightarrow> nat \<Rightarrow> nat \<Rightarrow> ('j option \<times> nat) run" where
  "parse_dns_questions X packet off qdcount =
     dns_section (dns_question X packet) X (length packet - 4) qdcount off (json_array X)"

definition ipv4_text :: "u8 list \<Rightarrow> string" where
  "ipv4_text bs = concat (map (\<lambda>i. (if i = 0 then '''' else ''.'') @ dec_of_int (uint (bs ! i))) [0..<length bs])"

text \<open>The member for the data of a record.\<close>

definition dns_rdata ::
  "(u8 list \<Rightarrow> string) \<Rightarrow> 'j ext \<Rightarrow> u8 list \<Rightarrow> nat \<Rightarrow> nat \<Rightarrow> nat \<Rightarrow> 'j \<Rightarrow> 'j run" where
  "dns_rdata N6 X packet off rtype rdlength record =
     (if length packet < off + rdlength then return_run record
      else if rtype = 1 then
        (if rdlength = 4 then
           bind_run (Some (bytes_at packet off 4)) (\<lambda>bs. return_run (set_string X record ''address'' (ipv4_text bs)))
         else return_run record)
      else if rtype = 28 then
        (if rdlength = 16 then
           bind_run (Some (bytes_at packet off 16)) (\<lambda>bs. return_run (set_string X record ''address'' (N6 bs)))
         else return_run record)
      else if rtype = 5 then
        bind_run (extract_dns_name packet off) (\<lambda>(cname, _).
          return_run (case cname of None \<Rightarrow> record | Some c \<Rightarrow> set_string X record ''cname'' c))
      else if rtype = 2 \<or> rtype = 12 then
        bind_run (extract_dns_name packet off) (\<lambda>(target, _).
          return_run (case target of None \<Rightarrow> record | Some t \<Rightarrow> set_string X record ''target'' t))
      else return_run record)"

text \<open>\<open>sizeof(dns_rr_t)\<close>: the structure has two bytes of padding at its end.\<close>

definition sizeof_dns_rr :: nat where
  "sizeof_dns_rr = 12"

definition dns_rr :: "(u8 list \<Rightarrow> string) \<Rightarrow> 'j ext \<Rightarrow> u8 list \<Rightarrow> nat \<Rightarrow> ('j option \<times> nat) run" where
  "dns_rr N6 X packet off =
     bind_run (extract_dns_name packet off) (\<lambda>(name, off1). case name of
       None \<Rightarrow> return_run (None, off1)
     | Some n \<Rightarrow>
         bind_run (Some (field_at packet off1 2)) (\<lambda>rtype.
         bind_run (Some (field_at packet (off1 + 2) 2)) (\<lambda>rclass.
         bind_run (Some (field_at packet (off1 + 4) 4)) (\<lambda>ttl.
         bind_run (Some (field_at packet (off1 + 8) 2)) (\<lambda>rdlength.
           let r1 = set_string X (json_object X) ''name'' n;
               r2 = set_number X r1 ''type'' rtype;
               r3 = set_number X r2 ''class'' rclass;
               r4 = set_number X r3 ''ttl'' ttl;
               r5 = set_number X r4 ''rdlength'' rdlength;
               off2 = off1 + sizeof_dns_rr
           in bind_run (dns_rdata N6 X packet off2 rtype rdlength r5) (\<lambda>record.
                return_run (Some record, off2 + rdlength)))))))"

definition parse_dns_rrs :: "(u8 list \<Rightarrow> string) \<Rightarrow> 'j ext \<Rightarrow> u8 list \<Rightarrow> nat \<Rightarrow> nat \<Rightarrow> ('j option \<times> nat) run" where
  "parse_dns_rrs N6 X packet off count =
     dns_section (dns_rr N6 X packet) X (length packet - sizeof_dns_rr) count off (json_array X)"

section \<open>The payload\<close>

definition set_flag :: "'j ext \<Rightarrow> 'j \<Rightarrow> string \<Rightarrow> nat \<Rightarrow> nat \<Rightarrow> 'j" where
  "set_flag X ob k flags i = obj_set_new X ob k (Some (json_boolean X (bit flags i)))"

text \<open>The members of the header.\<close>

definition dns_header :: "'j ext \<Rightarrow> u8 list \<Rightarrow> 'j" where
  "dns_header X data =
     (let f = (\<lambda>i. be_value (take 2 (drop i data))); flags = f 2;
          d1 = set_number X (json_object X) ''id'' (f 0);
          d2 = set_flag X d1 ''qr'' flags 15;
          d3 = set_number X d2 ''opcode'' (flags div 2 ^ 11 mod 16);
          d4 = set_flag X d3 ''aa'' flags 10;
          d5 = set_flag X d4 ''tc'' flags 9;
          d6 = set_flag X d5 ''rd'' flags 8;
          d7 = set_flag X d6 ''ra'' flags 7;
          d8 = set_number X d7 ''rcode'' (flags mod 16);
          d9 = set_number X d8 ''qdcount'' (f 4);
          d10 = set_number X d9 ''ancount'' (f 6);
          d11 = set_number X d10 ''nscount'' (f 8)
      in set_number X d11 ''arcount'' (f 10))"

text \<open>A section of the payload, when its count is positive.\<close>

definition add_section ::
  "'j ext \<Rightarrow> string \<Rightarrow> nat \<Rightarrow> (nat \<Rightarrow> nat \<Rightarrow> ('j option \<times> nat) run) \<Rightarrow> 'j \<times> nat \<Rightarrow> ('j \<times> nat) run" where
  "add_section X k count parse st = (case st of (dns, off) \<Rightarrow>
     if count = 0 then return_run (dns, off)
     else bind_run (parse off count) (\<lambda>(s, off1).
       return_run (case s of None \<Rightarrow> dns | Some v \<Rightarrow> obj_set_new X dns k (Some v), off1)))"

definition nblex_parse_dns_payload :: "(u8 list \<Rightarrow> string) \<Rightarrow> 'j ext \<Rightarrow> u8 list \<Rightarrow> 'j option run" where
  "nblex_parse_dns_payload N6 X data =
     (if length data < 12 then return_run None
      else
        let f = (\<lambda>i. be_value (take 2 (drop i data))); rrs = parse_dns_rrs N6 X data in
        bind_run (add_section X ''questions'' (f 4) (parse_dns_questions X data) (dns_header X data, 12)) (\<lambda>s1.
        bind_run (add_section X ''answers'' (f 6) rrs s1) (\<lambda>s2.
        bind_run (add_section X ''authorities'' (f 8) rrs s2) (\<lambda>s3.
        bind_run (add_section X ''additionals'' (f 10) rrs s3) (\<lambda>(dns, _). return_run (Some dns))))))"

end
