(* ===== verification/Pcap_Input.thy ===== *)
theory Pcap_Input
  imports World Dns_Parser
begin

text \<open>
  The network input (\<open>input/pcap_input.c\<close>): dissecting a captured packet, and the lifecycle of the input.

  A packet is the list of its \<open>caplen\<close> captured bytes; reading behind them is undefined behaviour. What
  libpcap and libuv return is a record of arguments. The layout of the structures and the size of
  \<open>struct icmp\<close> are those of Linux.
\<close>

section \<open>Dissecting a packet\<close>

record pcap_pkthdr =
  ts_sec :: int
  ts_usec :: int
  caplen :: u32
  pkt_len :: u32

definition DLT_EN10MB :: int where
  "DLT_EN10MB = 1"

definition hex_digit :: "nat \<Rightarrow> char" where
  "hex_digit n = (if n < 10 then char_of (48 + n) else char_of (87 + n))"

text \<open>\<open>%02x\<close>, and six of them with colons.\<close>

definition hex_byte :: "u8 \<Rightarrow> string" where
  "hex_byte b = [hex_digit (unat b div 16), hex_digit (unat b mod 16)]"

fun mac_text :: "u8 list \<Rightarrow> string" where
  "mac_text [] = []"
| "mac_text [b] = hex_byte b"
| "mac_text (b # bs) = hex_byte b @ '':'' @ mac_text bs"

text \<open>A field inside bytes that were read as one structure.\<close>

definition part :: "u8 list \<Rightarrow> nat \<Rightarrow> nat \<Rightarrow> nat" where
  "part bs off n = be_value (take n (drop off bs))"

definition dissect_tcp :: "'j ext \<Rightarrow> u8 list \<Rightarrow> nat \<Rightarrow> 'j \<Rightarrow> 'j outcome" where
  "dissect_tcp X packet pos event = bind_outcome (bytes_at packet pos 20) (\<lambda>tcp.
     let flags = part tcp 13 1;
         e0 = set_string X event ''protocol'' ''tcp'';
         e1 = set_number X e0 ''tcp_src_port'' (part tcp 0 2);
         e2 = set_number X e1 ''tcp_dst_port'' (part tcp 2 2);
         e3 = set_number X e2 ''tcp_seq'' (part tcp 4 4);
         e4 = set_number X e3 ''tcp_ack'' (part tcp 8 4);
         e5 = set_flag X e4 ''tcp_flags_fin'' flags 0;
         e6 = set_flag X e5 ''tcp_flags_syn'' flags 1;
         e7 = set_flag X e6 ''tcp_flags_rst'' flags 2;
         e8 = set_flag X e7 ''tcp_flags_psh'' flags 3;
         e9 = set_flag X e8 ''tcp_flags_ack'' flags 4;
         e10 = set_flag X e9 ''tcp_flags_urg'' flags 5;
         e11 = set_flag X e10 ''tcp_flags_ece'' flags 6;
         e12 = set_flag X e11 ''tcp_flags_cwr'' flags 7;
         e13 = set_number X e12 ''tcp_window'' (part tcp 14 2);
         e14 = set_number X e13 ''tcp_checksum'' (part tcp 16 2)
     in Ok (set_number X e14 ''tcp_urgent'' (part tcp 18 2)))"

definition dissect_udp :: "'j ext \<Rightarrow> u8 list \<Rightarrow> nat \<Rightarrow> 'j \<Rightarrow> 'j outcome" where
  "dissect_udp X packet pos event = bind_outcome (bytes_at packet pos 8) (\<lambda>udp.
     let e0 = set_string X event ''protocol'' ''udp'';
         e1 = set_number X e0 ''udp_src_port'' (part udp 0 2);
         e2 = set_number X e1 ''udp_dst_port'' (part udp 2 2);
         e3 = set_number X e2 ''udp_length'' (part udp 4 2)
     in Ok (set_number X e3 ''udp_checksum'' (part udp 6 2)))"

definition dissect_icmp :: "'j ext \<Rightarrow> u8 list \<Rightarrow> nat \<Rightarrow> 'j \<Rightarrow> 'j outcome" where
  "dissect_icmp X packet pos event = bind_outcome (bytes_at packet pos 4) (\<lambda>icmp.
     let e0 = set_string X event ''protocol'' ''icmp'';
         e1 = set_number X e0 ''icmp_type'' (part icmp 0 1);
         e2 = set_number X e1 ''icmp_code'' (part icmp 1 1)
     in Ok (set_number X e2 ''icmp_checksum'' (part icmp 2 2)))"

text \<open>The transport layer: \<open>remaining\<close> is a \<open>size_t\<close> that may have wrapped around.\<close>

definition dissect_transport :: "'j ext \<Rightarrow> u8 list \<Rightarrow> nat \<Rightarrow> u64 \<Rightarrow> nat \<Rightarrow> 'j \<Rightarrow> 'j outcome" where
  "dissect_transport X packet pos remaining ip_p event =
     (if ip_p = 6 then (if 20 \<le> remaining then dissect_tcp X packet pos event else Ok event)
      else if ip_p = 17 then (if 8 \<le> remaining then dissect_udp X packet pos event else Ok event)
      else if ip_p = 1 then (if 28 \<le> remaining then dissect_icmp X packet pos event else Ok event)
      else Ok event)"

text \<open>The IP header at \<open>pos\<close>.\<close>

definition dissect_ip :: "'j ext \<Rightarrow> u8 list \<Rightarrow> nat \<Rightarrow> u64 \<Rightarrow> 'j \<Rightarrow> 'j outcome" where
  "dissect_ip X packet pos remaining event = bind_outcome (bytes_at packet pos 20) (\<lambda>ip.
     let e1 = set_number X event ''ip_version'' (part ip 0 1 div 16);
         e2 = set_string X e1 ''ip_src'' (ipv4_text (take 4 (drop 12 ip)));
         e3 = set_string X e2 ''ip_dst'' (ipv4_text (take 4 (drop 16 ip)));
         e4 = set_number X e3 ''ip_protocol'' (part ip 9 1);
         e5 = set_number X e4 ''ip_ttl'' (part ip 8 1);
         e6 = set_number X e5 ''ip_length'' (part ip 2 2);
         ip_header_len = part ip 0 1 mod 16 * 4
     in dissect_transport X packet (pos + ip_header_len) (remaining - of_nat ip_header_len) (part ip 9 1) e6)"

definition dissect_ethernet :: "'j ext \<Rightarrow> u8 list \<Rightarrow> u32 \<Rightarrow> 'j \<Rightarrow> 'j outcome" where
  "dissect_ethernet X packet clen event = bind_outcome (bytes_at packet 0 14) (\<lambda>eth.
     let e1 = set_string X event ''ethernet_src'' (mac_text (take 6 (drop 6 eth)));
         e2 = set_string X e1 ''ethernet_dst'' (mac_text (take 6 eth));
         e3 = set_number X e2 ''ethernet_type'' (part eth 12 2);
         remaining = ucast clen - 14
     in if part eth 12 2 = 2048 \<and> 20 \<le> remaining then dissect_ip X packet 14 remaining e3 else Ok e3)"

text \<open>The basic information on a packet.\<close>

definition packet_info :: "'j ext \<Rightarrow> string \<Rightarrow> pcap_pkthdr \<Rightarrow> 'j" where
  "packet_info X iface header =
     (let e1 = obj_set_new X (json_object X) ''timestamp''
            (json_real X (f64_add (f64_of_int (ts_sec header)) (f64_div (f64_of_int (ts_usec header)) (f64_of_int 1000000))));
          e2 = set_number X e1 ''length'' (unat (pkt_len header));
          e3 = set_number X e2 ''captured_length'' (unat (caplen header))
      in set_string X e3 ''interface'' iface)"

definition packet_data :: "'j ext \<Rightarrow> string \<Rightarrow> int \<Rightarrow> pcap_pkthdr \<Rightarrow> u8 list \<Rightarrow> 'j outcome" where
  "packet_data X iface datalink header packet =
     (if datalink = DLT_EN10MB then dissect_ethernet X packet (caplen header) (packet_info X iface header)
      else Ok (packet_info X iface header))"

section \<open>The input\<close>

record pcap_input =
  pc_interface :: string
  pc_handle :: bool
  pc_fd :: int
  pc_datalink :: int
  pc_capturing :: bool
  pc_polling :: bool
  pc_bpf :: "string option"
  pc_packets_captured :: u64
  pc_packets_dropped :: u64

text \<open>Up to the emission; the handler frees the event once more after it.\<close>

definition packet_handler ::
  "'j ext \<Rightarrow> ('j, 'x) handlers \<Rightarrow> nblex_input \<Rightarrow> pcap_input \<Rightarrow> pcap_pkthdr \<times> u8 list \<Rightarrow> ('j, 'x) world_scheme \<Rightarrow>
   ('j, 'x) world_scheme outcome" where
  "packet_handler X H i data hp w = (case hp of (header, packet) \<Rightarrow>
     case nblex_timestamp_now X w of (now, w1) \<Rightarrow>
     bind_outcome (packet_data X (pc_interface data) (pc_datalink data) header packet) (\<lambda>d.
       nblex_event_emit X H ((nblex_event_new now NBLEX_EVENT_NETWORK (Some i))\<lparr>ev_data := Some d\<rparr>) w1))"

fun handle_packets ::
  "'j ext \<Rightarrow> ('j, 'x) handlers \<Rightarrow> nblex_input \<Rightarrow> pcap_input \<Rightarrow> (pcap_pkthdr \<times> u8 list) list \<Rightarrow> ('j, 'x) world_scheme \<Rightarrow>
   ('j, 'x) world_scheme outcome" where
  "handle_packets X H i data [] w = Ok w"
| "handle_packets X H i data (hp # hps) w =
     bind_outcome (packet_handler X H i data hp w) (handle_packets X H i data hps)"

text \<open>\<open>packets\<close> are those that \<open>pcap_dispatch\<close> passes to the handler (at most 10) before it returns \<open>count\<close>.\<close>

definition on_pcap_readable ::
  "'j ext \<Rightarrow> ('j, 'x) handlers \<Rightarrow> nblex_input \<Rightarrow> int \<Rightarrow> bool \<Rightarrow> (pcap_pkthdr \<times> u8 list) list \<Rightarrow> int \<Rightarrow> pcap_input \<Rightarrow>
   ('j, 'x) world_scheme \<Rightarrow> (pcap_input \<times> ('j, 'x) world_scheme) outcome" where
  "on_pcap_readable X H i status readable packets count data w =
     (if status < 0 \<or> \<not> readable then Ok (data, w)
      else bind_outcome (handle_packets X H i data packets w) (\<lambda>w1.
        Ok (if count < 0 then data\<lparr>pc_polling := False, pc_capturing := False\<rparr>
            else if 0 < count then data\<lparr>pc_packets_captured := pc_packets_captured data + word_of_int count\<rparr>
            else data, w1)))"

text \<open>The input is not added to the world.\<close>

definition nblex_input_pcap_new :: "string option \<Rightarrow> (nblex_input \<times> pcap_input) option" where
  "nblex_input_pcap_new iface = (case iface of
      None \<Rightarrow> None
    | Some s \<Rightarrow> Some ((nblex_input_new NBLEX_INPUT_PCAP)\<lparr>in_vtable := Some ''pcap''\<rparr>,
        \<lparr>pc_interface = s, pc_handle = False, pc_fd = 0, pc_datalink = 0, pc_capturing = False, pc_polling = False,
         pc_bpf = None, pc_packets_captured = 0, pc_packets_dropped = 0\<rparr>))"

record pcap_calls =
  open_live :: bool
  datalink :: int
  setnonblock :: int
  compile :: int
  setfilter :: int
  selectable_fd :: int
  poll_init :: int
  poll_start :: int

definition pcap_input_start :: "pcap_calls \<Rightarrow> nblex_input \<Rightarrow> pcap_input \<Rightarrow> (int \<times> pcap_input) outcome" where
  "pcap_input_start r i data =
     (if \<not> open_live r then Ok (- 1, data\<lparr>pc_handle := False\<rparr>)
      else
        let d1 = data\<lparr>pc_handle := True, pc_datalink := datalink r\<rparr> in
        if setnonblock r \<noteq> 0 then Ok (- 1, d1\<lparr>pc_handle := False\<rparr>)
        else bind_outcome (case in_filter i of None \<Rightarrow> Ok None | Some f \<Rightarrow> nblex_filter_to_bpf f) (\<lambda>bpf.
          let d2 = (if bpf \<noteq> None \<and> compile r \<noteq> - 1 \<and> setfilter r \<noteq> - 1 then d1\<lparr>pc_bpf := bpf\<rparr> else d1);
              d3 = d2\<lparr>pc_fd := selectable_fd r\<rparr>
          in Ok (if selectable_fd r < 0 \<or> poll_init r \<noteq> 0 \<or> poll_start r \<noteq> 0 then (- 1, d3\<lparr>pc_handle := False\<rparr>)
                 else (0, d3\<lparr>pc_polling := True, pc_capturing := True\<rparr>))))"

definition pcap_input_stop :: "pcap_input \<Rightarrow> int \<times> pcap_input" where
  "pcap_input_stop data =
     (0, (if pc_capturing data then data\<lparr>pc_polling := False, pc_capturing := False\<rparr> else data)\<lparr>pc_handle := False\<rparr>)"

end
