(* ===== verification/Dns_Props.thy ===== *)
theory Dns_Props
  imports Dns_Parser Nginx_Props
begin

text \<open>
  The DNS dissector: names in wire format, with and without compression; a name that points to itself;
  and the data of resource records.
\<close>

section \<open>Names in wire format\<close>

definition encode_label :: "u8 list \<Rightarrow> u8 list" where
  "encode_label l = word_of_nat (length l) # l"

definition encode_labels :: "u8 list list \<Rightarrow> u8 list" where
  "encode_labels ls = concat (map encode_label ls)"

definition label_ok :: "u8 list \<Rightarrow> bool" where
  "label_ok l \<longleftrightarrow> l \<noteq> [] \<and> length l \<le> 63 \<and> list_all (\<lambda>b. b \<noteq> 0) l"

text \<open>The labels with dots between them, behind the name so far.\<close>

definition join_dots :: "u8 list \<Rightarrow> u8 list list \<Rightarrow> u8 list" where
  "join_dots name ls = foldl (\<lambda>n l. n @ (if n = [] then [] else [46]) @ l) name ls"

definition dotted :: "u8 list list \<Rightarrow> string" where
  "dotted ls = chars_of (join_dots [] ls)"

lemma dns_name_step:
  assumes "packet = pre @ encode_label l @ rest" and "label_ok l" and "length name + length l + 1 < dns_limit"
  shows "dns_name_loop packet (length pre) name jump =
    dns_name_loop packet (length pre + length (encode_label l)) (name @ (if name = [] then [] else [46]) @ l) jump"
proof -
  have len: "0 < length l" "length l \<le> 63" using assms(2) by (simp_all add: label_ok_def)
  then have "unat (word_of_nat (length l) :: u8) = length l" by (simp add: unat_of_nat)
  then have b: "unat (packet ! length pre) = length l" "length packet = length pre + Suc (length l) + length rest"
    "take (length l) (drop (length pre + 1) packet) = l"
    unfolding assms(1) encode_label_def by simp_all
  show ?thesis
    using len assms(3) b(2)
    by (subst dns_name_loop.simps, simp add: b(1) b(3) Let_def encode_label_def not_le del: One_nat_def) simp
qed

lemma dns_name_labels:
  assumes "packet = pre @ encode_labels ls @ rest" and "list_all label_ok ls"
    and "length name + length (encode_labels ls) < dns_limit"
  shows "dns_name_loop packet (length pre) name jump =
    dns_name_loop packet (length pre + length (encode_labels ls)) (join_dots name ls) jump"
  using assms
proof (induction ls arbitrary: pre name)
  case Nil
  then show ?case by (simp add: encode_labels_def join_dots_def)
next
  case (Cons l ls)
  let ?name = "name @ (if name = [] then [] else [46]) @ l"
  have p: "packet = pre @ encode_label l @ encode_labels ls @ rest" "packet = (pre @ encode_label l) @ encode_labels ls @ rest"
    using Cons.prems(1) by (simp_all add: encode_labels_def)
  have len: "length name + Suc (length l) + length (encode_labels ls) < dns_limit"
    using Cons.prems(3) by (simp add: encode_labels_def encode_label_def)
  have "dns_name_loop packet (length pre) name jump = dns_name_loop packet (length (pre @ encode_label l)) ?name jump"
    using dns_name_step [OF p(1)] Cons.prems(2) len by simp
  also have "\<dots> = dns_name_loop packet (length (pre @ encode_label l) + length (encode_labels ls)) (join_dots ?name ls) jump"
    using Cons.prems(2) len by (intro Cons.IH [OF p(2)]) auto
  finally show ?case by (simp add: encode_labels_def join_dots_def add.assoc)
qed

lemma dns_name_end:
  assumes "packet = pre @ 0 # rest"
  shows "dns_name_loop packet (length pre) name jump = return_run (Suc (length pre), name, jump)"
  using assms by (subst dns_name_loop.simps) simp

lemma dns_name_plain:
  assumes "packet = pre @ encode_labels ls @ 0 # rest" and "list_all label_ok ls"
    and "length name + length (encode_labels ls) < dns_limit"
  shows "dns_name_loop packet (length pre) name jump =
    return_run (length pre + length (encode_labels ls) + 1, join_dots name ls, jump)"
  using dns_name_labels [OF assms] dns_name_end [of packet "pre @ encode_labels ls" rest] assms(1) by simp

lemma dns_name_pointer:
  assumes "packet = pre @ p # q # rest" and "192 \<le> unat p"
  shows "dns_name_loop packet (length pre) name None =
    dns_name_loop packet ((unat p - 192) * 256 + unat q) name (Some (length pre + 2))"
  using assms by (subst dns_name_loop.simps) (simp add: nth_append)

lemma join_dots_nonzero: "list_all (\<lambda>b. b \<noteq> 0) name \<Longrightarrow> list_all label_ok ls \<Longrightarrow> list_all (\<lambda>b. b \<noteq> 0) (join_dots name ls)"
  by (induction ls arbitrary: name) (auto simp: join_dots_def label_ok_def)

lemma join_dots_nonempty: "list_all label_ok ls \<Longrightarrow> name \<noteq> [] \<or> ls \<noteq> [] \<Longrightarrow> join_dots name ls \<noteq> []"
  by (induction ls arbitrary: name) (auto simp: join_dots_def label_ok_def)

lemma join_dots_length: "length (join_dots name ls) \<le> length name + length (encode_labels ls)"
proof (induction ls arbitrary: name)
  case (Cons l ls)
  show ?case using Cons.IH [of "name @ (if name = [] then [] else [46]) @ l"]
    by (auto simp: join_dots_def encode_labels_def encode_label_def split: if_splits)
qed (simp add: join_dots_def)

lemma cstr_dotted:
  assumes "list_all label_ok ls"
  shows "cstr (dotted ls) = dotted ls"
proof -
  have "\<forall>b \<in> set (join_dots [] ls). char_of (unat b) \<noteq> NUL"
  proof
    fix b assume "b \<in> set (join_dots [] ls)"
    then have "b \<noteq> 0" using join_dots_nonzero [of "[]" ls] assms by (auto simp: list_all_iff)
    then have "unat b \<noteq> 0" "unat b < 256" using unsigned_less [of b, where ?'a = nat] by (simp_all add: unat_eq_zero)
    then show "char_of (unat b) \<noteq> NUL" by (simp add: NUL_def char_of_eq_iff take_bit_eq_mod)
  qed
  then show ?thesis unfolding cstr_def dotted_def chars_of_def takeWhile_eq_all_conv by auto
qed

text \<open>A name followed by its end, and a name followed by a pointer to such a name.\<close>

lemma extract_plain:
  assumes "packet = pre @ encode_labels ls @ 0 # rest" and "list_all label_ok ls" and "ls \<noteq> []"
    and "length (encode_labels ls) < dns_limit"
  shows "extract_dns_name packet (length pre) = return_run (Some (dotted ls), length pre + length (encode_labels ls) + 1)"
  using dns_name_plain [OF assms(1,2), of "[]" None] assms(4) join_dots_nonempty [of ls "[]"] assms(2,3)
    cstr_dotted [OF assms(2)] by (simp add: extract_dns_name_def dotted_def)

lemma extract_compressed:
  assumes p: "packet = pre @ encode_labels ls @ p # q # rest" "192 \<le> unat p"
    and t: "packet = pre' @ encode_labels ls' @ 0 # rest'" "length pre' = (unat p - 192) * 256 + unat q"
    and ok: "list_all label_ok (ls @ ls')" "ls @ ls' \<noteq> []" "length (encode_labels (ls @ ls')) < dns_limit"
  shows "extract_dns_name packet (length pre) =
    return_run (Some (dotted (ls @ ls')), length pre + length (encode_labels ls) + 2)"
proof -
  have enc: "encode_labels (ls @ ls') = encode_labels ls @ encode_labels ls'" by (simp add: encode_labels_def)
  have join: "join_dots [] (ls @ ls') = join_dots (join_dots [] ls) ls'" by (simp add: join_dots_def)
  have "dns_name_loop packet (length pre) [] None =
      dns_name_loop packet (length (pre @ encode_labels ls)) (join_dots [] ls) None"
    using dns_name_labels [OF p(1)] ok enc by simp
  also have "\<dots> = dns_name_loop packet (length pre') (join_dots [] ls) (Some (length (pre @ encode_labels ls) + 2))"
    using dns_name_pointer [of packet "pre @ encode_labels ls" p q rest] p t(2) by simp
  also have "\<dots> = return_run (length pre' + length (encode_labels ls') + 1, join_dots [] (ls @ ls'),
      Some (length (pre @ encode_labels ls) + 2))"
    unfolding join using dns_name_plain [OF t(1)] ok join_dots_length [of "[]" ls] enc by simp
  finally show ?thesis
    using join_dots_nonempty [of "ls @ ls'" "[]"] ok(1,2) cstr_dotted [OF ok(1)]
    by (simp add: extract_dns_name_def dotted_def)
qed

text \<open>C32: A name in wire format is read back: labels up to a zero byte give the dotted name and the offset
  after the zero byte; labels followed by a compression pointer to another name give the concatenation of
  the two and the offset after the pointer.\<close>

theorem dns_name_roundtrip:
  assumes "packet = pre @ encode_labels ls @ p # q # rest" and "list_all label_ok (ls @ ls')" and "ls @ ls' \<noteq> []"
    and "length (encode_labels (ls @ ls')) < dns_limit"
    and "p = 0 \<and> ls' = [] \<and> next = 1 \<or> 192 \<le> unat p \<and> next = 2
      \<and> (\<exists>pre' rest'. packet = pre' @ encode_labels ls' @ 0 # rest' \<and> length pre' = (unat p - 192) * 256 + unat q)"
  shows "extract_dns_name packet (length pre) =
    return_run (Some (dotted (ls @ ls')), length pre + length (encode_labels ls) + next)"
  using assms(5)
proof
  assume "p = 0 \<and> ls' = [] \<and> next = 1"
  then show ?thesis using extract_plain [of packet pre ls "q # rest"] assms(1-4) by simp
next
  assume "192 \<le> unat p \<and> next = 2
    \<and> (\<exists>pre' rest'. packet = pre' @ encode_labels ls' @ 0 # rest' \<and> length pre' = (unat p - 192) * 256 + unat q)"
  then show ?thesis using extract_compressed [OF assms(1) _ _ _ assms(2-4)] by auto
qed

theorem dns_name_roundtrip_witness:
  "extract_dns_name [3, 110, 101, 116, 0, 1, 97, 192, 0, 255] 5 = return_run (Some ''a.net'', 9)"
proof -
  let ?packet = "[3, 110, 101, 116, 0, 1, 97, 192, 0, 255] :: u8 list"
  have 1: "?packet = [3, 110, 101, 116, 0] @ encode_labels [[97]] @ 192 # 0 # [255]" by code_simp
  have 2: "list_all label_ok ([[97]] @ [[110, 101, 116]])" "[[97 :: u8]] @ [[110, 101, 116]] \<noteq> []"
    "length (encode_labels ([[97]] @ [[110, 101, 116]])) < dns_limit" by code_simp+
  have "?packet = [] @ encode_labels [[110, 101, 116]] @ 0 # [1, 97, 192, 0, 255]"
    "length ([] :: u8 list) = (unat (192 :: u8) - 192) * 256 + unat (0 :: u8)" "192 \<le> unat (192 :: u8)" by code_simp+
  then have "extract_dns_name ?packet (length [3, 110, 101, 116, 0 :: u8]) =
      return_run (Some (dotted ([[97]] @ [[110, 101, 116]])), length [3, 110, 101, 116, 0 :: u8] + length (encode_labels [[97]]) + 2)"
    using dns_name_roundtrip [OF 1 2, of 2] by blast
  moreover have "length [3, 110, 101, 116, 0 :: u8] = 5" "dotted ([[97]] @ [[110, 101, 116]]) = ''a.net''" "length (encode_labels [[97]]) = 2" by code_simp+
  ultimately show ?thesis by (simp only: numeral_plus_numeral) simp
qed

section \<open>A name that points to itself\<close>

definition self_pointer :: "u8 list \<Rightarrow> nat \<Rightarrow> bool" where
  "self_pointer packet off \<longleftrightarrow> off + 1 < length packet \<and> 192 \<le> unat (packet ! off)
     \<and> (unat (packet ! off) - 192) * 256 + unat (packet ! (off + 1)) = off"

lemma dns_name_returns: "dns_name_loop packet off name jump = Some y \<Longrightarrow> \<not> self_pointer packet off"
proof (rule dns_name_loop.raw_induct [where P = "\<lambda>packet off _ _ _. \<not> self_pointer packet off"])
  fix f :: "u8 list \<Rightarrow> nat \<Rightarrow> u8 list \<Rightarrow> nat option \<Rightarrow> (nat \<times> u8 list \<times> nat option) run" and packet off name jump y
  assume 1: "\<And>packet off name jump y. f packet off name jump = Some y \<Longrightarrow> \<not> self_pointer packet off"
    and 2: "(if length packet \<le> off then return_run (off, name, jump)
      else
        let b = packet ! off; len = unat b; off1 = off + 1 in
        if len = 0 then return_run (off1, name, jump)
        else if 192 \<le> len then
          (if length packet \<le> off1 then Some UB
           else f packet ((len - 192) * 256 + unat (packet ! off1)) name
             (case jump of None \<Rightarrow> Some (off1 + 1) | Some j \<Rightarrow> Some j))
        else if dns_limit \<le> length name + len + 1 then return_run (off1, name, jump)
        else if length packet < off1 + len then Some UB
        else f packet (off1 + len)
          (name @ (if name = [] then [] else [46]) @ take len (drop off1 packet)) jump) = Some y"
  show "\<not> self_pointer packet off"
  proof
    assume s: "self_pointer packet off"
    then have "\<exists>j. f packet off name j = Some y"
      using 2 by (auto simp: self_pointer_def Let_def)
    with 1 s show False by blast
  qed
qed

lemma extract_self_pointer: "self_pointer packet off \<Longrightarrow> extract_dns_name packet off = None"
  using dns_name_returns [of packet off "[]" None] by (cases "dns_name_loop packet off [] None") (auto simp: extract_dns_name_def)

text \<open>A packet of at least 17 bytes with a positive question count whose first name is a pointer to itself
  makes the dissector loop forever.\<close>

theorem dns_pointer_loops:
  assumes "17 \<le> length data" and "be_value (take 2 (drop 4 data)) \<noteq> 0"
    and "data ! 12 = 192" and "data ! 13 = 12"
  shows "nblex_parse_dns_payload N6 X data = None"
proof -
  have "unat (data ! 12) = 192" "unat (data ! 13) = 12" unfolding assms(3,4) by simp_all
  then have "self_pointer data 12" using assms(1) by (simp add: self_pointer_def)
  then have e: "extract_dns_name data 12 = None" by (rule extract_self_pointer)
  obtain n where n: "be_value (take 2 (drop 4 data)) = Suc n" using assms(2) not0_implies_Suc by blast
  have "parse_dns_questions X data 12 (Suc n) = None"
    using assms(1) e by (simp add: parse_dns_questions_def dns_question_def)
  then show ?thesis
    using assms(1) n by (simp add: nblex_parse_dns_payload_def add_section_def Let_def)
qed

theorem dns_pointer_loops_witness:
  "nblex_parse_dns_payload (\<lambda>_. []) (tree_ext (\<lambda>_. None) (\<lambda>_. None) (\<lambda>_. True) (\<lambda>_ _. 0) (\<lambda>_. 0))
     [0, 1, 1, 0, 0, 1, 0, 0, 0, 0, 0, 0, 192, 12, 0, 1, 0, 1] = None"
  by (rule dns_pointer_loops) code_simp+

section \<open>The data of a record\<close>

text \<open>An address record in wire format.\<close>

definition encode_a :: "u8 list list \<Rightarrow> u8 list \<Rightarrow> u8 list \<Rightarrow> u8 list" where
  "encode_a ls ttl addr = encode_labels ls @ [0, 0, 1, 0, 1] @ ttl @ [0, 4] @ addr"

lemma field_at_append:
  assumes "packet = pre @ bs @ rest" and "off = length pre" and "length bs = n"
  shows "field_at packet off n = Ok (be_value bs)"
  using assms by (simp add: field_at_def bytes_at_def)

lemma ipv4_text_ascii:
  "ascii (ipv4_text [a, b, c, d])"
proof -
  have "ascii (dec_of_int (uint w))" for w :: u8
    using dec_of_pos_digits [of "uint w"] by (auto simp: ascii_def dec_of_int_def list_all_iff isdigit_def)
  then show ?thesis by (simp add: ipv4_text_def upt_rec byte_def)
qed

context jansson
begin

lemma dns_rr_address:
  assumes p: "packet = pre @ encode_a ls ttl [a, b, c, d] @ e # f # rest"
    and ls: "list_all label_ok ls" "ls \<noteq> []" "length (encode_labels ls) < dns_limit" and ttl: "length ttl = 4"
  shows "\<exists>r. dns_rr N6 X packet (length pre)
        = return_run (Some r, length (pre @ encode_a ls ttl [a, b, c, d]) + 2)
      \<and> json_object_get X r ''address'' = json_string X (ipv4_text [c, d, e, f])"
proof -
  let ?off = "length pre + length (encode_labels ls) + 1"
  have q: "packet = pre @ encode_labels ls @ 0 # ([0, 1, 0, 1] @ ttl @ [0, 4, a, b, c, d, e, f] @ rest)"
    using p by (simp add: encode_a_def)
  have name: "extract_dns_name packet (length pre) = return_run (Some (dotted ls), ?off)"
    by (rule extract_plain [OF q ls])
  have 1: "field_at packet ?off 2 = Ok 1"
    by (subst field_at_append [where pre = "pre @ encode_labels ls @ [0]" and bs = "[0, 1]"]) (simp_all add: q)
  have 2: "field_at packet (?off + 2) 2 = Ok 1"
    by (subst field_at_append [where pre = "pre @ encode_labels ls @ [0, 0, 1]" and bs = "[0, 1]"]) (simp_all add: q)
  have 3: "field_at packet (?off + 4) 4 = Ok (be_value ttl)"
    by (rule field_at_append [where pre = "pre @ encode_labels ls @ [0, 0, 1, 0, 1]"]) (simp_all add: q ttl)
  have 4: "field_at packet (?off + 8) 2 = Ok 4"
    by (subst field_at_append [where pre = "pre @ encode_labels ls @ [0, 0, 1, 0, 1] @ ttl" and bs = "[0, 4]"])
      (simp_all add: q ttl)
  have 5: "bytes_at packet (?off + 12) 4 = Ok [c, d, e, f]"
    by (simp add: bytes_at_def q ttl)
  have len: "\<not> length packet < ?off + 12 + 4" by (simp add: q ttl)
  define r5 where "r5 = set_number X (set_number X (set_number X (set_number X (set_string X (json_object X)
      ''name'' (dotted ls)) ''type'' 1) ''class'' 1) ''ttl'' (be_value ttl)) ''rdlength'' 4"
  have t: "json_typeof X r5 = JSON_OBJECT"
    by (simp add: r5_def set_number_def set_string_def typeof_object)
  have "ascii ''address''" by (simp add: byte_def)
  moreover obtain j where j: "json_string X (ipv4_text [c, d, e, f]) = Some j"
    using string_ascii [OF ipv4_text_ascii] by blast
  ultimately have g: "json_object_get X (set_string X r5 ''address'' (ipv4_text [c, d, e, f])) ''address'' = Some j"
    using obj_set_new_get [OF t] by (simp add: set_string_def)
  have "dns_rr N6 X packet (length pre) =
      return_run (Some (set_string X r5 ''address'' (ipv4_text [c, d, e, f])), ?off + 12 + 4)"
    unfolding dns_rr_def name bind_run_simps split option.case 1 2 3 4 Let_def sizeof_dns_rr_def r5_def [symmetric]
    using len 5 by (simp add: dns_rdata_def)
  then show ?thesis using g j ttl by (simp add: encode_a_def)
qed

end

text \<open>C34: The data of an address record is read two bytes too late, behind the padding of the structure: the
  address holds the last two bytes of the record's own and the two bytes after the record, and the next record is
  looked for two bytes behind the end of this one.\<close>

theorem dns_address_misread:
  assumes "jansson X" and "packet = pre @ encode_a ls ttl [a, b, c, d] @ e # f # rest"
    and "list_all label_ok ls" and "ls \<noteq> []" and "length (encode_labels ls) < dns_limit" and "length ttl = 4"
  shows "\<exists>r. dns_rr N6 X packet (length pre)
        = return_run (Some r, length (pre @ encode_a ls ttl [a, b, c, d]) + 2)
      \<and> json_object_get X r ''address'' = json_string X (ipv4_text [c, d, e, f])"
  by (rule jansson.dns_rr_address [OF assms])

theorem dns_address_misread_witness:
  "let X = tree_ext (\<lambda>_. None) (\<lambda>_. None) (\<lambda>_. True) (\<lambda>_ _. 0) (\<lambda>_. 0);
       packet = encode_a [[97]] [0, 0, 0, 60] [10, 0, 0, 1] @ [192, 168]
   in \<exists>r n. dns_rr (\<lambda>_. []) X packet 0 = return_run (Some r, n)
        \<and> json_object_get X r ''address'' = Some (JStr ''0.1.192.168'')"
proof -
  let ?X = "tree_ext (\<lambda>_. None) (\<lambda>_. None) (\<lambda>_. True) (\<lambda>_ _. 0) (\<lambda>_. 0)"
  let ?packet = "encode_a [[97]] [0, 0, 0, 60] [10, 0, 0, 1] @ [192, 168]"
  have 1: "?packet = [] @ encode_a [[97]] [0, 0, 0, 60] [10, 0, 0, 1] @ 192 # 168 # []" by simp
  have 2: "list_all label_ok [[97]]" "[[97 :: u8]] \<noteq> []" "length (encode_labels [[97]]) < dns_limit"
    "length [0, 0, 0, 60 :: u8] = 4" by code_simp+
  have "json_string ?X (ipv4_text [0, 1, 192, 168]) = Some (JStr ''0.1.192.168'')" by code_simp
  then show ?thesis
    using dns_address_misread [OF tree.jansson_axioms 1 2, of "\<lambda>_. []"] unfolding Let_def by fastforce
qed

section \<open>Termination\<close>

text \<open>Where two bytes lead if a name is read at them: not only at a compression pointer of the packet, since the dissector also
  enters the data of records at offsets where no name is meant (\<open>dns_address_misread\<close>).\<close>

definition next_pointer :: "u8 list \<Rightarrow> nat \<Rightarrow> nat option" where
  "next_pointer packet off =
     (if off + 1 < length packet \<and> 192 \<le> unat (packet ! off)
      then Some ((unat (packet ! off) - 192) * 256 + unat (packet ! (off + 1))) else None)"

primrec follow :: "u8 list \<Rightarrow> nat \<Rightarrow> nat \<Rightarrow> nat option" where
  "follow packet 0 off = Some off"
| "follow packet (Suc n) off = Option.bind (next_pointer packet off) (follow packet n)"

definition chains_end :: "u8 list \<Rightarrow> bool" where
  "chains_end packet \<longleftrightarrow> (\<forall>off. \<exists>n. follow packet n off = None)"

lemma chains_end_bounded:
  assumes "list_all (\<lambda>off. follow packet (length packet) off = None) [0..<length packet]"
  shows "chains_end packet"
  unfolding chains_end_def
proof
  fix off
  show "\<exists>n. follow packet n off = None"
  proof (cases "off < length packet")
    case False
    then have "follow packet (Suc 0) off = None" by (simp add: next_pointer_def)
    then show ?thesis by blast
  qed (use assms in \<open>auto simp: list_all_iff\<close>)
qed

text \<open>The length of a chain that ends.\<close>

definition chain_length :: "u8 list \<Rightarrow> nat \<Rightarrow> nat" where
  "chain_length packet off = (LEAST n. follow packet n off = None)"

lemma chain_length_less:
  assumes "chains_end packet" and "next_pointer packet off = Some target"
  shows "chain_length packet target < chain_length packet off"
proof -
  have "follow packet (chain_length packet off) off = None"
    using assms(1) unfolding chains_end_def chain_length_def
    by (intro LeastI_ex [where P = "\<lambda>n. follow packet n off = None"]) blast
  then obtain n where n: "chain_length packet off = Suc n" "follow packet n target = None"
    using assms(2) by (cases "chain_length packet off") auto
  have "chain_length packet target \<le> n"
    unfolding chain_length_def by (rule Least_le) (rule n(2))
  then show ?thesis using n(1) by simp
qed

text \<open>If the name returns, the chain at its offset ends.\<close>

lemma dns_name_loop_chain:
  "dns_name_loop packet off name jump = Some y \<Longrightarrow> \<exists>n. follow packet n off = None"
proof (rule dns_name_loop.raw_induct [where P = "\<lambda>packet off _ _ _. \<exists>n. follow packet n off = None"])
  fix f :: "u8 list \<Rightarrow> nat \<Rightarrow> u8 list \<Rightarrow> nat option \<Rightarrow> (nat \<times> u8 list \<times> nat option) run" and packet off name jump y
  assume 1: "\<And>packet off name jump y. f packet off name jump = Some y \<Longrightarrow> \<exists>n. follow packet n off = None"
    and 2: "(if length packet \<le> off then return_run (off, name, jump)
      else
        let b = packet ! off; len = unat b; off1 = off + 1 in
        if len = 0 then return_run (off1, name, jump)
        else if 192 \<le> len then
          (if length packet \<le> off1 then Some UB
           else f packet ((len - 192) * 256 + unat (packet ! off1)) name
             (case jump of None \<Rightarrow> Some (off1 + 1) | Some j \<Rightarrow> Some j))
        else if dns_limit \<le> length name + len + 1 then return_run (off1, name, jump)
        else if length packet < off1 + len then Some UB
        else f packet (off1 + len)
          (name @ (if name = [] then [] else [46]) @ take len (drop off1 packet)) jump) = Some y"
  show "\<exists>n. follow packet n off = None"
  proof (cases "next_pointer packet off")
    case None
    then have "follow packet (Suc 0) off = None" by simp
    then show ?thesis by blast
  next
    case (Some target)
    then have p: "off + 1 < length packet" "192 \<le> unat (packet ! off)"
      "target = (unat (packet ! off) - 192) * 256 + unat (packet ! (off + 1))"
      by (auto simp: next_pointer_def split: if_splits)
    then have "\<exists>j. f packet target name j = Some y" using 2 by (auto simp: Let_def)
    then obtain n where "follow packet n target = None" using 1 by blast
    then have "follow packet (Suc n) off = None" using Some by simp
    then show ?thesis by blast
  qed
qed

definition returns :: "'a run \<Rightarrow> bool" where
  "returns r \<longleftrightarrow> r \<noteq> None"

lemma returns_Some [simp]: "returns (Some x)"
  by (simp add: returns_def)

lemma bind_run_returns: "returns r \<Longrightarrow> (\<And>a. returns (f a)) \<Longrightarrow> returns (bind_run r f)"
  by (auto simp: returns_def bind_run_def split: outcome.split)

text \<open>A label makes the name longer, a pointer makes the chain shorter.\<close>

lemma dns_name_loop_returns:
  assumes "chains_end packet"
  shows "returns (dns_name_loop packet off name jump)"
proof (induction "(dns_limit - length name, chain_length packet off)" arbitrary: off name jump
    rule: wf_induct_rule [OF wf_lex_prod [OF wf_less_than wf_less_than]])
  case (1 off name jump)
  let ?len = "unat (packet ! off)" and ?off1 = "off + 1"
  let ?ptr = "(?len - 192) * 256 + unat (packet ! ?off1)"
  let ?name = "name @ (if name = [] then [] else [46]) @ take ?len (drop ?off1 packet)"
  have pointer: "returns (dns_name_loop packet ?ptr name j)" if "192 \<le> ?len" "?off1 < length packet" for j
    using chain_length_less [OF assms, of off ?ptr] that by (intro 1) (simp add: next_pointer_def)
  have label: "returns (dns_name_loop packet (?off1 + ?len) ?name jump)"
    if "?len \<noteq> 0" "length name + ?len + 1 < dns_limit" "?off1 + ?len \<le> length packet"
  proof -
    have "length name < length ?name" "length name < dns_limit" using that by auto
    then show ?thesis by (intro 1) (simp del: length_append add: diff_less_mono2)
  qed
  show ?case
    using pointer label by (subst dns_name_loop.simps) (auto simp: Let_def not_le not_less)
qed

lemma extract_dns_name_returns: "chains_end packet \<Longrightarrow> returns (extract_dns_name packet off)"
  unfolding extract_dns_name_def by (intro bind_run_returns dns_name_loop_returns) (auto split: prod.split)

lemma dns_section_returns: "(\<And>off. returns (item off)) \<Longrightarrow> returns (dns_section item X limit count off arr)"
proof (induction count arbitrary: off arr)
  case (Suc count)
  then show ?case by (auto intro!: bind_run_returns split: prod.split option.split)
qed simp

lemma dns_question_returns: "chains_end packet \<Longrightarrow> returns (dns_question X packet off)"
  unfolding dns_question_def by (auto intro!: bind_run_returns extract_dns_name_returns split: prod.split option.split)

lemma dns_rdata_returns: "chains_end packet \<Longrightarrow> returns (dns_rdata N6 X packet off t n r)"
  unfolding dns_rdata_def by (auto intro!: bind_run_returns extract_dns_name_returns split: prod.split)

lemma dns_rr_returns: "chains_end packet \<Longrightarrow> returns (dns_rr N6 X packet off)"
  unfolding dns_rr_def Let_def
  by (auto intro!: bind_run_returns extract_dns_name_returns dns_rdata_returns split: prod.split option.split)

lemma add_section_returns: "(\<And>off n. returns (parse off n)) \<Longrightarrow> returns (add_section X k count parse st)"
  unfolding add_section_def by (auto intro!: bind_run_returns split: prod.split)

text \<open>C33: Reading a name returns at every offset of a packet exactly when every chain of pointers in it ends: no two bytes that
  can be read as a pointer lead, over others, back to themselves. For such a packet the dissector returns. All pairs of bytes
  count, whether or not the packet means them as a compression pointer, because the dissector can enter the data of a record
  two bytes off its start (C34) and read a name in the middle of another one.\<close>

theorem dns_payload_terminates:
  "((\<forall>off. extract_dns_name data off \<noteq> None) \<longleftrightarrow> chains_end data) \<and>
   (chains_end data \<longrightarrow> nblex_parse_dns_payload N6 X data \<noteq> None)"
proof (intro conjI impI iffI)
  assume names: "\<forall>off. extract_dns_name data off \<noteq> None"
  show "chains_end data"
    unfolding chains_end_def
  proof
    fix off
    have "dns_name_loop data off [] None \<noteq> None"
      using spec [OF names, of off] by (cases "dns_name_loop data off [] None") (simp_all add: extract_dns_name_def)
    then show "\<exists>n. follow data n off = None" using dns_name_loop_chain by blast
  qed
next
  assume c: "chains_end data"
  show "\<forall>off. extract_dns_name data off \<noteq> None" using extract_dns_name_returns [OF c] by (simp add: returns_def)
  have "returns (nblex_parse_dns_payload N6 X data)"
    unfolding nblex_parse_dns_payload_def Let_def parse_dns_questions_def parse_dns_rrs_def
    by (auto intro!: bind_run_returns add_section_returns dns_section_returns dns_question_returns dns_rr_returns c
        split: prod.split)
  then show "nblex_parse_dns_payload N6 X data \<noteq> None" by (simp add: returns_def)
qed

theorem dns_payload_terminates_witness:
  "nblex_parse_dns_payload (\<lambda>_. []) (tree_ext (\<lambda>_. None) (\<lambda>_. None) (\<lambda>_. True) (\<lambda>_ _. 0) (\<lambda>_. 0))
     [0, 1, 0, 0, 0, 1, 0, 0, 0, 0, 0, 0, 1, 97, 0, 0, 1, 0, 1, 192, 12] \<noteq> None"
proof -
  have "chains_end [0, 1, 0, 0, 0, 1, 0, 0, 0, 0, 0, 0, 1, 97, 0, 0, 1, 0, 1, 192, 12]"
    by (rule chains_end_bounded) code_simp
  then show ?thesis using dns_payload_terminates by blast
qed

end
