(* ===== verification/Pcap_Props.thy ===== *)
theory Pcap_Props
  imports Pcap_Input Dns_Props
begin

text \<open>
  The packet dissector: exactly which packets it reads behind their end, and that it reads back the
  fields of a TCP packet.
\<close>

section \<open>Reads behind the end of the packet\<close>

lemma bytes_at_UB: "bytes_at packet off n = UB \<longleftrightarrow> length packet < off + n"
  by (simp add: bytes_at_def not_le)

lemma bytes_at_Ok: "off + n \<le> length packet \<Longrightarrow> bytes_at packet off n = Ok (take n (drop off packet))"
  by (simp add: bytes_at_def)

lemma part_take_drop: "i + k \<le> n \<Longrightarrow> part (take n (drop off packet)) i k = part packet (off + i) k"
  by (simp add: part_def drop_take min_def add.commute)

lemma part_one_less: "part bs off 1 < 256"
proof -
  have "take 1 (drop off bs) = [] \<or> (\<exists>b. take 1 (drop off bs) = [b])"
    by (cases "drop off bs") auto
  then show ?thesis using unsigned_less [where ?'a = nat and ?'b = 8] by (auto simp: part_def)
qed

lemma dissect_transport_UB:
  "dissect_transport X packet pos remaining p event = UB \<longleftrightarrow>
    (p = 6 \<and> 20 \<le> remaining \<and> length packet < pos + 20) \<or> (p = 17 \<and> 8 \<le> remaining \<and> length packet < pos + 8)
    \<or> (p = 1 \<and> 28 \<le> remaining \<and> length packet < pos + 4)"
  by (auto simp: dissect_transport_def dissect_tcp_def dissect_udp_def dissect_icmp_def outcome_simps bytes_at_UB Let_def)

text \<open>What is left behind the IP header, as the code computes it.\<close>

lemma remaining_le:
  assumes "h \<le> n" and "n < 2 ^ 32" and "c < 256"
  shows "of_nat c \<le> (of_nat n - of_nat h :: u64) \<longleftrightarrow> c \<le> n - h"
proof -
  have e: "(of_nat n - of_nat h :: u64) = of_nat (n - h)" using assms(1) by simp
  show ?thesis unfolding e word_le_nat_alt using assms by (simp add: unat_of_nat del: of_nat_diff)
qed

lemma remaining_wraps:
  assumes "n < h" and "h \<le> 60" and "c < 256"
  shows "of_nat c \<le> (of_nat n - of_nat h :: u64)"
proof -
  have "(of_nat (2 ^ 64) :: u64) = 0" by simp
  then have e: "(of_nat n - of_nat h :: u64) = of_nat (2 ^ 64 - (h - n))"
    using assms(1,2) by simp
  show ?thesis unfolding e word_le_nat_alt using assms by (simp add: unat_of_nat del: of_nat_diff)
qed


lemma transport_overread:
  fixes remaining :: u64
  assumes "h \<le> 60" and "34 \<le> n" and "n < 2 ^ 32" and "remaining = of_nat (n - 14) - of_nat h"
  shows "(p = 6 \<and> 20 \<le> remaining \<and> n < 14 + h + 20) \<or> (p = 17 \<and> 8 \<le> remaining \<and> n < 14 + h + 8)
      \<or> (p = 1 \<and> 28 \<le> remaining \<and> n < 14 + h + 4) \<longleftrightarrow> p \<in> {1, 6, 17 :: nat} \<and> n < 14 + h"
proof (cases "n < 14 + h")
  case True
  then have "n - 14 < h" using assms(2) by simp
  then have "20 \<le> remaining" "8 \<le> remaining" "28 \<le> remaining"
    using remaining_wraps [of "n - 14" h 20] remaining_wraps [of "n - 14" h 8] remaining_wraps [of "n - 14" h 28] assms(1,4)
    by simp_all
  with True show ?thesis by auto
next
  case False
  then have "h \<le> n - 14" "n - 14 < 2 ^ 32" using assms(3) by simp_all
  then have "20 \<le> remaining \<longleftrightarrow> 20 \<le> n - 14 - h" "8 \<le> remaining \<longleftrightarrow> 8 \<le> n - 14 - h"
    "28 \<le> remaining \<longleftrightarrow> 28 \<le> n - 14 - h"
    using remaining_le [of h "n - 14" 20] remaining_le [of h "n - 14" 8] remaining_le [of h "n - 14" 28] assms(4)
    by simp_all
  with False show ?thesis by auto
qed

lemma dissect_ip_UB:
  assumes "length packet < 2 ^ 32" and "34 \<le> length packet"
  shows "dissect_ip X packet 14 (of_nat (length packet - 14)) event = UB \<longleftrightarrow>
    part packet 23 1 \<in> {1, 6, 17} \<and> length packet < 14 + part packet 14 1 mod 16 * 4"
proof -
  define h where "h = part packet 14 1 mod 16 * 4"
  have ip: "bytes_at packet 14 20 = Ok (take 20 (drop 14 packet))" using assms(2) by (simp add: bytes_at_Ok)
  have p: "part (take 20 (drop 14 packet)) 9 1 = part packet 23 1"
    "part (take 20 (drop 14 packet)) 0 1 mod 16 * 4 = h"
    by (simp_all add: part_take_drop h_def)
  have h: "h \<le> 60" unfolding h_def by presburger
  show ?thesis
    unfolding dissect_ip_def ip p bind_outcome.simps Let_def dissect_transport_UB h_def [symmetric]
    by (rule transport_overread [OF h assms(2,1) refl])
qed

text \<open>C31: On an Ethernet interface the packet handler reads behind the captured bytes exactly when fewer than 14
  bytes were captured, or when the header length of an IP packet with TCP, UDP or ICMP exceeds what was captured:
  the count of the remaining bytes then wraps around and passes every test of its size.\<close>

theorem packet_overread_iff:
  assumes "length packet < 2 ^ 32" and "caplen header = of_nat (length packet)"
  shows "packet_data X iface DLT_EN10MB header packet = UB \<longleftrightarrow>
    length packet < 14
    \<or> (34 \<le> length packet \<and> part packet 12 2 = 2048 \<and> part packet 23 1 \<in> {1, 6, 17}
       \<and> length packet < 14 + part packet 14 1 mod 16 * 4)"
proof (cases "length packet < 14")
  case True
  then show ?thesis by (simp add: packet_data_def dissect_ethernet_def bytes_at_def)
next
  case False
  let ?rem = "ucast (of_nat (length packet) :: u32) - 14 :: u64"
  have u: "(ucast (of_nat (length packet) :: u32) :: u64) = of_nat (length packet)"
    using assms(1) by (simp add: unsigned_of_nat take_bit_nat_eq_self)
  have rem: "?rem = of_nat (length packet - 14)" using u False by simp
  have eth: "bytes_at packet 0 14 = Ok (take 14 (drop 0 packet))" using False by (simp add: bytes_at_Ok)
  have ty: "part (take 14 (drop 0 packet)) 12 2 = part packet 12 2"
    using part_take_drop [of 12 2 14 0 packet] by simp
  have "20 \<le> (of_nat (length packet - 14) :: u64) \<longleftrightarrow> 34 \<le> length packet"
    using remaining_le [of 0 "length packet - 14" 20] assms(1) by auto
  then show ?thesis
    using False dissect_ip_UB [OF assms(1), of X]
    unfolding packet_data_def dissect_ethernet_def eth assms(2) Let_def bind_outcome.simps ty rem by auto
qed

theorem packet_overread_iff_witness:
  "packet_data (tree_ext (\<lambda>_. None) (\<lambda>_. None) (\<lambda>_. True) (\<lambda>_ _. 0) (\<lambda>_. 0)) ''eth0'' DLT_EN10MB
     \<lparr>ts_sec = 0, ts_usec = 0, caplen = 34, pkt_len = 34\<rparr>
     [0, 0, 0, 0, 0, 0, 0, 0, 0, 0, 0, 0, 8, 0, 79, 0, 0, 0, 0, 0, 0, 0, 0, 6, 0, 0, 0, 0, 0, 0, 0, 0, 0, 0] = UB"
proof -
  let ?packet = "[0, 0, 0, 0, 0, 0, 0, 0, 0, 0, 0, 0, 8, 0, 79, 0, 0, 0, 0, 0, 0, 0, 0, 6, 0, 0, 0, 0, 0, 0, 0, 0, 0, 0] :: u8 list"
  have "length ?packet < 2 ^ 32" "34 \<le> length ?packet" "(34 :: u32) = of_nat (length ?packet)" by simp_all
  moreover have "part ?packet 12 2 = 2048" "part ?packet 23 1 = 6" "part ?packet 14 1 = 79"
    by (simp_all add: part_def)
  ultimately show ?thesis
    using packet_overread_iff [of ?packet "\<lparr>ts_sec = 0, ts_usec = 0, caplen = 34, pkt_len = 34\<rparr>"] by simp
qed

section \<open>The fields of a TCP packet\<close>

record tcp_frame =
  t_dst :: "u8 list"
  t_src :: "u8 list"
  t_tos :: u8
  t_iplen :: u16
  t_ident :: "u8 list"
  t_ttl :: u8
  t_ipsum :: "u8 list"
  t_saddr :: "u8 list"
  t_daddr :: "u8 list"
  t_options :: "u8 list"
  t_sport :: u16
  t_dport :: u16
  t_seq :: u32
  t_ack :: u32
  t_offset :: u8
  t_flags :: u8
  t_window :: u16
  t_sum :: u16
  t_urgent :: u16
  t_payload :: "u8 list"

definition be16 :: "u16 \<Rightarrow> u8 list" where
  "be16 w = [ucast (drop_bit 8 w), ucast w]"

definition be32 :: "u32 \<Rightarrow> u8 list" where
  "be32 w = [ucast (drop_bit 24 w), ucast (drop_bit 16 w), ucast (drop_bit 8 w), ucast w]"

text \<open>Ethernet header, IP header with options, TCP header and the rest.\<close>

definition ether_bytes :: "tcp_frame \<Rightarrow> u8 list" where
  "ether_bytes f = t_dst f @ t_src f @ be16 2048"

definition ip_bytes :: "tcp_frame \<Rightarrow> u8 list" where
  "ip_bytes f = [of_nat (64 + 5 + length (t_options f) div 4), t_tos f] @ be16 (t_iplen f) @ t_ident f
     @ [t_ttl f, 6] @ t_ipsum f @ t_saddr f @ t_daddr f"

definition tcp_bytes :: "tcp_frame \<Rightarrow> u8 list" where
  "tcp_bytes f = be16 (t_sport f) @ be16 (t_dport f) @ be32 (t_seq f) @ be32 (t_ack f)
     @ [t_offset f, t_flags f] @ be16 (t_window f) @ be16 (t_sum f) @ be16 (t_urgent f)"

definition frame_bytes :: "tcp_frame \<Rightarrow> u8 list" where
  "frame_bytes f = ether_bytes f @ ip_bytes f @ t_options f @ tcp_bytes f @ t_payload f"

definition frame_ok :: "tcp_frame \<Rightarrow> bool" where
  "frame_ok f \<longleftrightarrow> length (t_dst f) = 6 \<and> length (t_src f) = 6 \<and> length (t_ident f) = 4 \<and> length (t_ipsum f) = 2
     \<and> length (t_saddr f) = 4 \<and> length (t_daddr f) = 4 \<and> length (t_options f) mod 4 = 0 \<and> length (t_options f) \<le> 40
     \<and> length (frame_bytes f) < 2 ^ 32"

lemma unat_byte: "unat (ucast (drop_bit n w) :: u8) = unat w div 2 ^ n mod 256" for w :: "'a::len word"
  by (simp add: unsigned_ucast_eq unat_drop_bit_eq) (simp add: drop_bit_eq_div take_bit_eq_mod)

lemma be_value_be16: "be_value (be16 w) = unat w"
proof -
  have "unat w < 2 ^ 16" using unsigned_less [of w, where ?'a = nat] by simp
  then show ?thesis using unat_byte [of 8 w] unat_byte [of 0 w] by (simp add: be16_def)
qed

lemma four_bytes:
  fixes n :: nat
  assumes "n < 2 ^ 32"
  shows "n div 2 ^ 24 mod 256 * 256 ^ 3 + (n div 2 ^ 16 mod 256 * 256 ^ 2 + (n div 2 ^ 8 mod 256 * 256 + n mod 256)) = n"
proof -
  have p: "(2 :: nat) ^ 24 = 16777216" "(2 :: nat) ^ 16 = 65536" "(2 :: nat) ^ 8 = 256"
    "(256 :: nat) ^ 3 = 16777216" "(256 :: nat) ^ 2 = 65536" by simp_all
  have "n div 16777216 mod 256 = n div 16777216" using assms by (simp add: less_mult_imp_div_less)
  moreover have "n = 256 * (n div 256) + n mod 256" by simp
  moreover have "n div 256 = 256 * (n div 65536) + n div 256 mod 256"
    using mult_div_mod_eq [of 256 "n div 256"] by (simp flip: div_mult2_eq)
  moreover have "n div 65536 = 256 * (n div 16777216) + n div 65536 mod 256"
    using mult_div_mod_eq [of 256 "n div 65536"] by (simp flip: div_mult2_eq)
  ultimately show ?thesis unfolding p by linarith
qed

lemma be_value_be32: "be_value (be32 w) = unat w"
proof -
  have "unat w < 2 ^ 32" using unsigned_less [of w, where ?'a = nat] by simp
  from four_bytes [OF this] show ?thesis
    using unat_byte [of 24 w] unat_byte [of 16 w] unat_byte [of 8 w] unat_byte [of 0 w] by (simp add: be32_def)
qed

text \<open>The members of an object, the last one set first.\<close>

definition has_members :: "'j ext \<Rightarrow> 'j \<Rightarrow> (string \<times> 'j option) list \<Rightarrow> bool" where
  "has_members X ob kvs \<longleftrightarrow> holds X ob (\<lambda>k. Option.bind (map_of kvs k) id)"

context jansson
begin

lemma members_empty: "has_members X (json_object X) []"
  using holds_object by (simp add: has_members_def)

lemma members_set:
  assumes "has_members X ob kvs" and "ascii k" and "vo = Some v"
  shows "has_members X (obj_set_new X ob k vo) ((k, vo) # kvs)"
proof -
  have "(\<lambda>k. Option.bind (map_of kvs k) id)(k \<mapsto> v) = (\<lambda>k'. Option.bind (map_of ((k, vo) # kvs) k') id)"
    using assms(3) by auto
  with holds_set_new [OF assms(1) [unfolded has_members_def] assms(2), of v] show ?thesis
    using assms(3) by (simp add: has_members_def)
qed

lemma members_number:
  "has_members X ob kvs \<Longrightarrow> ascii k \<Longrightarrow>
   has_members X (set_number X ob k n) ((k, Some (json_integer X (word_of_nat n))) # kvs)"
  unfolding set_number_def by (rule members_set) simp_all

lemma members_flag:
  "has_members X ob kvs \<Longrightarrow> ascii k \<Longrightarrow>
   has_members X (set_flag X ob k flags i) ((k, Some (json_boolean X (bit flags i))) # kvs)"
  unfolding set_flag_def by (rule members_set) simp_all

lemma members_string:
  "has_members X ob kvs \<Longrightarrow> ascii k \<Longrightarrow> ascii v \<Longrightarrow> has_members X (set_string X ob k v) ((k, json_string X v) # kvs)"
  unfolding set_string_def using string_ascii members_set by blast

lemmas members_intros = members_number members_flag members_string members_empty

end

text \<open>The members of the packet information, for a time stamp that is a number.\<close>

definition packet_time :: "pcap_pkthdr \<Rightarrow> f64" where
  "packet_time header = f64_add (f64_of_int (ts_sec header)) (f64_div (f64_of_int (ts_usec header)) (f64_of_int 1000000))"

definition info_members :: "'j ext \<Rightarrow> string \<Rightarrow> pcap_pkthdr \<Rightarrow> (string \<times> 'j option) list" where
  "info_members X iface header =
     [(''interface'', json_string X iface), (''captured_length'', Some (json_integer X (word_of_nat (unat (caplen header))))),
      (''length'', Some (json_integer X (word_of_nat (unat (pkt_len header))))), (''timestamp'', json_real X (packet_time header))]"

text \<open>The members the three layers add, the last one first.\<close>

definition tcp_members :: "'j ext \<Rightarrow> tcp_frame \<Rightarrow> (string \<times> 'j option) list" where
  "tcp_members X f =
     (let num = (\<lambda>n. Some (json_integer X (word_of_nat n))); flag = (\<lambda>i. Some (json_boolean X (bit (t_flags f) i))) in
      [(''tcp_urgent'', num (unat (t_urgent f))), (''tcp_checksum'', num (unat (t_sum f))),
       (''tcp_window'', num (unat (t_window f))), (''tcp_flags_cwr'', flag 7), (''tcp_flags_ece'', flag 6),
       (''tcp_flags_urg'', flag 5), (''tcp_flags_ack'', flag 4), (''tcp_flags_psh'', flag 3), (''tcp_flags_rst'', flag 2),
       (''tcp_flags_syn'', flag 1), (''tcp_flags_fin'', flag 0), (''tcp_ack'', num (unat (t_ack f))),
       (''tcp_seq'', num (unat (t_seq f))), (''tcp_dst_port'', num (unat (t_dport f))),
       (''tcp_src_port'', num (unat (t_sport f))), (''protocol'', json_string X ''tcp'')])"

definition ip_members :: "'j ext \<Rightarrow> tcp_frame \<Rightarrow> (string \<times> 'j option) list" where
  "ip_members X f =
     (let num = (\<lambda>n. Some (json_integer X (word_of_nat n))) in
      [(''ip_length'', num (unat (t_iplen f))), (''ip_ttl'', num (unat (t_ttl f))), (''ip_protocol'', num 6),
       (''ip_dst'', json_string X (ipv4_text (t_daddr f))), (''ip_src'', json_string X (ipv4_text (t_saddr f))),
       (''ip_version'', num 4)])"

definition ether_members :: "'j ext \<Rightarrow> tcp_frame \<Rightarrow> (string \<times> 'j option) list" where
  "ether_members X f =
     [(''ethernet_type'', Some (json_integer X (word_of_nat 2048))), (''ethernet_dst'', json_string X (mac_text (t_dst f))),
      (''ethernet_src'', json_string X (mac_text (t_src f)))]"

lemma bytes_at_append:
  assumes "packet = pre @ bs @ rest" and "off = length pre" and "length bs = n"
  shows "bytes_at packet off n = Ok bs"
  using assms by (simp add: bytes_at_def)

lemma be_lengths [simp]: "length (be16 w) = 2" "length (be32 v) = 4"
  by (simp_all add: be16_def be32_def)

lemma part_bytes:
  "length pre = off \<Longrightarrow> length bs = n \<Longrightarrow> part (pre @ bs @ rest) off n = be_value bs"
  by (simp add: part_def)

context jansson
begin

lemma tcp_layer:
  assumes "packet = pre @ tcp_bytes f @ rest" and "pos = length pre" and "has_members X ob kvs"
  shows "\<exists>ob'. dissect_tcp X packet pos ob = Ok ob' \<and> has_members X ob' (tcp_members X f @ kvs)"
proof -
  have tcp: "bytes_at packet pos 20 = Ok (tcp_bytes f)"
    by (rule bytes_at_append [OF assms(1,2)]) (simp add: tcp_bytes_def)
  have "part (tcp_bytes f) 0 2 = unat (t_sport f)" "part (tcp_bytes f) 2 2 = unat (t_dport f)"
    "part (tcp_bytes f) 4 4 = unat (t_seq f)" "part (tcp_bytes f) 8 4 = unat (t_ack f)"
    "part (tcp_bytes f) 13 1 = unat (t_flags f)" "part (tcp_bytes f) 14 2 = unat (t_window f)"
    "part (tcp_bytes f) 16 2 = unat (t_sum f)" "part (tcp_bytes f) 18 2 = unat (t_urgent f)"
    by (simp_all add: part_def tcp_bytes_def be_value_be16 be_value_be32)
  note parts = this
  have b: "bit (unat (t_flags f)) i = bit (t_flags f) i" for i by (simp add: bit_unsigned_iff)
  show ?thesis
    unfolding dissect_tcp_def tcp bind_outcome.simps Let_def parts tcp_members_def append.simps b [symmetric]
    by (rule exI, rule conjI, rule refl, (rule members_intros assms(3))+) (simp_all add: byte_def)
qed

lemma ip_layer:
  assumes "packet = pre @ ip_bytes f @ t_options f @ tcp_bytes f @ rest" and "length pre = 14" and "frame_ok f"
    and "has_members X ob kvs" and "length packet < 2 ^ 32"
  shows "\<exists>ob'. dissect_ip X packet 14 (of_nat (length packet - 14)) ob = Ok ob'
    \<and> has_members X ob' (tcp_members X f @ ip_members X f @ kvs)"
proof -
  have ok: "length (t_ident f) = 4" "length (t_ipsum f) = 2" "length (t_saddr f) = 4" "length (t_daddr f) = 4"
    "length (t_options f) mod 4 = 0" "length (t_options f) \<le> 40"
    using assms(3) by (simp_all add: frame_ok_def)
  have len: "length (ip_bytes f) = 20" "length (tcp_bytes f) = 20" by (simp_all add: ip_bytes_def tcp_bytes_def ok)
  have ip: "bytes_at packet 14 20 = Ok (ip_bytes f)"
    by (rule bytes_at_append [OF assms(1)]) (simp_all add: assms(2) len)
  define o4 where "o4 = length (t_options f) div 4"
  have o4: "length (t_options f) = 4 * o4" "o4 \<le> 10" using ok(5,6) by (auto simp: o4_def)
  have "unat (word_of_nat (69 + o4) :: u8) = 69 + o4" unfolding unat_of_nat using o4(2) by simp
  then have w: "unat (69 + word_of_nat o4 :: u8) = 69 + o4" by simp
  have parts: "part (ip_bytes f) 0 1 = 69 + o4" "part (ip_bytes f) 9 1 = 6" "part (ip_bytes f) 8 1 = unat (t_ttl f)"
    "part (ip_bytes f) 2 2 = unat (t_iplen f)" "take 4 (drop 12 (ip_bytes f)) = t_saddr f"
    "take 4 (drop 16 (ip_bytes f)) = t_daddr f"
    using o4 ok by (simp_all add: part_def ip_bytes_def be_value_be16 w flip: o4_def)
  have d: "(69 + o4) div 16 = 4" using o4(2) by (intro div_nat_eqI) simp_all
  then have "(69 + o4) mod 16 = 5 + o4" using minus_div_mult_eq_mod [of "69 + o4" 16] by simp
  with d o4(1) have nib: "(69 + o4) div 16 = 4" "(69 + o4) mod 16 * 4 = 20 + length (t_options f)" by simp_all
  have str: "ascii (ipv4_text (t_saddr f))" "ascii (ipv4_text (t_daddr f))"
    using ok(3,4) ipv4_text_ascii by (auto simp: numeral_eq_Suc length_Suc_conv)
  let ?pos = "14 + (20 + length (t_options f))"
  let ?rem = "of_nat (length packet - 14) - of_nat (20 + length (t_options f)) :: u64"
  have n: "20 + length (t_options f) \<le> length packet - 14" "20 \<le> length packet - 14 - (20 + length (t_options f))"
    using assms(1,2) len by simp_all
  then have r: "20 \<le> ?rem" using remaining_le [of "20 + length (t_options f)" "length packet - 14" 20] assms(5) by simp
  have p: "packet = (pre @ ip_bytes f @ t_options f) @ tcp_bytes f @ rest" "?pos = length (pre @ ip_bytes f @ t_options f)"
    using assms(1,2) len by simp_all
  have tr: "\<exists>ob'. dissect_transport X packet ?pos ?rem 6 event = Ok ob' \<and> has_members X ob' (tcp_members X f @ kvs')"
    if "has_members X event kvs'" for event kvs'
    using tcp_layer [OF p that] r by (simp add: dissect_transport_def)
  show ?thesis
    unfolding dissect_ip_def ip bind_outcome.simps Let_def parts nib
    by (rule tr, unfold ip_members_def Let_def append.simps, (rule members_intros assms(4) str)+) (simp_all add: byte_def str)
qed

lemma hex_byte_ascii: "ascii (hex_byte b)"
proof -
  have "list_all (\<lambda>n. 0 < byte (hex_digit n) \<and> byte (hex_digit n) < 128) [0..<16]" by code_simp
  then have "0 < byte (hex_digit n) \<and> byte (hex_digit n) < 128" if "n < 16" for n
    using that by (simp add: list_all_iff)
  then show ?thesis using unsigned_less [of b, where ?'a = nat] by (simp add: hex_byte_def less_mult_imp_div_less)
qed

lemma mac_text_ascii: "ascii (mac_text bs)"
  by (induction bs rule: mac_text.induct) (simp_all add: hex_byte_ascii byte_def)

lemma info_layer:
  assumes "ascii iface" and "f64_finite (packet_time header)"
  shows "has_members X (packet_info X iface header) (info_members X iface header)"
proof -
  obtain j where j: "json_real X (packet_time header) = Some j" using real_some [OF assms(2)] by blast
  have t: "has_members X (obj_set_new X (json_object X) ''timestamp'' (json_real X (packet_time header)))
      [(''timestamp'', json_real X (packet_time header))]"
    by (rule members_set [OF members_empty _ j]) (simp add: byte_def)
  show ?thesis
    unfolding packet_info_def Let_def info_members_def packet_time_def [symmetric]
    by ((rule members_intros t)+) (simp_all add: byte_def assms(1))
qed

lemma tcp_packet_members:
  assumes "frame_ok f" and "caplen header = of_nat (length (frame_bytes f))" and "ascii iface"
    and "f64_finite (packet_time header)"
  shows "\<exists>ob. packet_data X iface DLT_EN10MB header (frame_bytes f) = Ok ob
    \<and> has_members X ob (tcp_members X f @ ip_members X f @ ether_members X f @ info_members X iface header)"
proof -
  let ?packet = "frame_bytes f"
  have ok: "length (t_dst f) = 6" "length (t_src f) = 6" "length ?packet < 2 ^ 32"
    using assms(1) by (simp_all add: frame_ok_def)
  have len: "length (ether_bytes f) = 14" by (simp add: ether_bytes_def ok)
  have p: "?packet = ether_bytes f @ ip_bytes f @ t_options f @ tcp_bytes f @ t_payload f" by (simp add: frame_bytes_def)
  have eth: "bytes_at ?packet 0 14 = Ok (ether_bytes f)"
    by (rule bytes_at_append [where pre = "[]"]) (simp_all add: len p)
  have parts: "take 6 (drop 6 (ether_bytes f)) = t_src f" "take 6 (ether_bytes f) = t_dst f"
    "part (ether_bytes f) 12 2 = 2048"
    by (simp_all add: ether_bytes_def ok part_def be_value_be16)
  have "34 \<le> length ?packet" using len assms(1) by (simp add: p ip_bytes_def frame_ok_def)
  then have rem: "ucast (caplen header) - 14 = (of_nat (length ?packet - 14) :: u64)"
    unfolding assms(2) using ok(3) by (simp add: unsigned_of_nat take_bit_nat_eq_self)
  have "20 \<le> (of_nat (length ?packet - 14) :: u64)"
    using remaining_le [of 0 "length ?packet - 14" 20] ok(3) \<open>34 \<le> length ?packet\<close> by auto
  note big = this
  have e: "has_members X (set_number X (set_string X (set_string X (packet_info X iface header) ''ethernet_src'' (mac_text (t_src f)))
      ''ethernet_dst'' (mac_text (t_dst f))) ''ethernet_type'' 2048) (ether_members X f @ info_members X iface header)"
    unfolding ether_members_def append.simps
    by ((rule members_intros info_layer [OF assms(3,4)])+) (simp_all add: byte_def mac_text_ascii)
  show ?thesis
    using ip_layer [OF p len assms(1) e ok(3)] big
    unfolding packet_data_def dissect_ethernet_def eth bind_outcome.simps Let_def parts rem by simp
qed

end

text \<open>C30: From the captured bytes of a TCP packet, with or without IP options, the packet handler reads back the
  addresses, the ports, the sequence numbers, the flags and every other field it shows, and adds the information
  on the capture and nothing else.\<close>

theorem tcp_packet_fields:
  assumes "jansson X" and "frame_ok f" and "caplen header = of_nat (length (frame_bytes f))" and "ascii iface"
    and "f64_finite (packet_time header)"
  shows "\<exists>ob. packet_data X iface DLT_EN10MB header (frame_bytes f) = Ok ob
    \<and> has_members X ob (tcp_members X f @ ip_members X f @ ether_members X f @ info_members X iface header)"
  by (rule jansson.tcp_packet_members [OF assms])

theorem tcp_packet_fields_witness:
  "let X = tree_ext (\<lambda>_. None) (\<lambda>_. None) (\<lambda>_. True) (\<lambda>_ _. 0) (\<lambda>_. 0);
       f = \<lparr>t_dst = [1, 2, 3, 4, 5, 6], t_src = [7, 8, 9, 10, 11, 12], t_tos = 0, t_iplen = 44, t_ident = [0, 1, 0, 0],
            t_ttl = 64, t_ipsum = [0, 0], t_saddr = [10, 0, 0, 1], t_daddr = [10, 0, 0, 2], t_options = [1, 1, 1, 0],
            t_sport = 40, t_dport = 22, t_seq = 100, t_ack = 0, t_offset = 80, t_flags = 2, t_window = 64,
            t_sum = 0, t_urgent = 0, t_payload = []\<rparr>
   in \<exists>ob. packet_data X ''eth0'' DLT_EN10MB \<lparr>ts_sec = 0, ts_usec = 0, caplen = 58, pkt_len = 58\<rparr> (frame_bytes f) = Ok ob
        \<and> json_object_get X ob ''tcp_dst_port'' = Some (JInt 22) \<and> json_object_get X ob ''tcp_flags_syn'' = Some JTrue
        \<and> json_object_get X ob ''ip_src'' = Some (JStr ''10.0.0.1'')"
proof -
  let ?X = "tree_ext (\<lambda>_. None) (\<lambda>_. None) (\<lambda>_. True) (\<lambda>_ _. 0) (\<lambda>_. 0)"
  let ?f = "\<lparr>t_dst = [1, 2, 3, 4, 5, 6], t_src = [7, 8, 9, 10, 11, 12], t_tos = 0, t_iplen = 44, t_ident = [0, 1, 0, 0],
            t_ttl = 64, t_ipsum = [0, 0], t_saddr = [10, 0, 0, 1], t_daddr = [10, 0, 0, 2], t_options = [1, 1, 1, 0],
            t_sport = 40, t_dport = 22, t_seq = 100, t_ack = 0, t_offset = 80, t_flags = 2, t_window = 64,
            t_sum = 0, t_urgent = 0, t_payload = []\<rparr>"
  let ?h = "\<lparr>ts_sec = 0, ts_usec = 0, caplen = 58, pkt_len = 58\<rparr>"
  have l: "length (frame_bytes ?f) = 58" by (simp add: frame_bytes_def ether_bytes_def ip_bytes_def tcp_bytes_def)
  then have 1: "frame_ok ?f" "caplen ?h = of_nat (length (frame_bytes ?f))" by (simp_all add: frame_ok_def)
  have 2: "ascii ''eth0''" "f64_finite (packet_time ?h)" by code_simp+
  let ?m = "map_of (tcp_members ?X ?f @ ip_members ?X ?f @ ether_members ?X ?f @ info_members ?X ''eth0'' ?h)"
  have "ipv4_text [10, 0, 0, 1] = ''10.0.0.1''" "bit (2 :: u8) 1" "utf8_ok (map byte ''10.0.0.1'')" by code_simp+
  then have 3: "Option.bind (?m ''tcp_dst_port'') id = Some (JInt 22)" "Option.bind (?m ''tcp_flags_syn'') id = Some JTrue"
    "Option.bind (?m ''ip_src'') id = Some (JStr ''10.0.0.1'')"
    by (simp_all add: tcp_members_def ip_members_def Let_def)
  show ?thesis
    using tcp_packet_fields [OF tree.jansson_axioms 1 2] 3 unfolding Let_def has_members_def holds_def
    by fastforce
qed

end
