(* ===== verification/File_Output.thy ===== *)
theory File_Output
  imports File_Input
begin

text \<open>
  The file output with its rotation (\<open>output/file_output.c\<close>).

  The module touches one directory, that of its file: the file system is the list of the entries of that
  directory in the order of \<open>readdir\<close>, by name, with modification times and contents. What the system
  decides is a record of arguments: the time, the formatted time stamp, which files can be removed,
  whether the file can be reopened, and how many bytes can still be written. \<open>qsort\<close> may order equal elements as
  it likes; it is the argument \<open>Q\<close>, and the lemmas use that it sorts. Paths are shorter than the
  buffers the code copies them to.
\<close>

section \<open>State\<close>

record file_entry =
  fe_mtime :: int
  fe_bytes :: string

type_synonym directory = "(string \<times> file_entry) list"

record file_output =
  fo_file :: bool
  fo_path :: string
  fo_format :: string
  rotation_max_size :: int
  rotation_max_age :: int
  rotation_max_count :: int
  last_rotation :: int
  current_size :: int

record os_calls =
  os_now :: int
  os_stamp :: "int \<Rightarrow> string"
  os_unlink :: "string \<Rightarrow> bool"
  os_open :: bool
  os_room :: nat

type_synonym rotated_sorter = "(string \<times> int) list \<Rightarrow> (string \<times> int) list"

section \<open>Opening\<close>

text \<open>\<open>fopen(path, "a")\<close> creates the file.\<close>

definition open_append :: "os_calls \<Rightarrow> string \<Rightarrow> directory \<Rightarrow> directory" where
  "open_append s name dir =
     (if map_of dir name = None then dir @ [(name, \<lparr>fe_mtime = os_now s, fe_bytes = []\<rparr>)] else dir)"

definition nblex_file_output_new ::
  "os_calls \<Rightarrow> string option \<Rightarrow> string option \<Rightarrow> directory \<Rightarrow> file_output option \<times> directory" where
  "nblex_file_output_new s path format dir = (case path of
      None \<Rightarrow> (None, dir)
    | Some p \<Rightarrow>
        if \<not> os_open s then (None, dir)
        else (Some \<lparr>fo_file = True, fo_path = p, fo_format = (case format of None \<Rightarrow> ''json'' | Some f \<Rightarrow> f),
                rotation_max_size = 100, rotation_max_age = 7, rotation_max_count = 10,
                last_rotation = os_now s, current_size = 0\<rparr>,
              open_append s (basename p) dir))"

definition nblex_file_output_set_rotation :: "int \<Rightarrow> int \<Rightarrow> int \<Rightarrow> file_output \<Rightarrow> file_output" where
  "nblex_file_output_set_rotation max_size_mb max_age_days max_count out = out\<lparr>
     rotation_max_size := max_size_mb, rotation_max_age := max_age_days, rotation_max_count := max_count\<rparr>"

section \<open>Rotation\<close>

text \<open>A name that starts with the base name, a dot and something like a time stamp.\<close>

definition rotated_name :: "string \<Rightarrow> string \<Rightarrow> bool" where
  "rotated_name base name \<longleftrightarrow> starts_with base name \<and> deref (drop (length base) name) = CHR ''.''
     \<and> 15 \<le> length (drop (length base + 1) name) \<and> drop (length base + 1) name ! 8 = CHR ''_''"

definition compare_rotated_files :: "string \<times> int \<Rightarrow> string \<times> int \<Rightarrow> int" where
  "compare_rotated_files fa fb = (if snd fb < snd fa then - 1 else if snd fa < snd fb then 1 else 0)"

definition rotated_files :: "string \<Rightarrow> directory \<Rightarrow> (string \<times> int) list" where
  "rotated_files base dir = map (\<lambda>(n, e). (n, fe_mtime e)) (filter (\<lambda>(n, _). rotated_name base n) dir)"

definition remove_files :: "string list \<Rightarrow> directory \<Rightarrow> directory" where
  "remove_files ns dir = filter (\<lambda>(n, _). n \<notin> set ns) dir"

definition cleanup_old_rotated_files :: "rotated_sorter \<Rightarrow> os_calls \<Rightarrow> file_output \<Rightarrow> directory \<Rightarrow> directory" where
  "cleanup_old_rotated_files Q s out dir =
     (let base = basename (fo_path out); files = rotated_files base dir; k = nat (rotation_max_count out)
      in if rotation_max_count out \<le> 0 then dir
         else if k < length files then remove_files (filter (os_unlink s) (map fst (drop k (Q files)))) dir
         else dir)"

text \<open>\<open>rename(path, rotated_path)\<close>, in the same directory.\<close>

definition rename_file :: "string \<Rightarrow> string \<Rightarrow> directory \<Rightarrow> directory" where
  "rename_file old new dir = (case map_of dir old of
      None \<Rightarrow> dir
    | Some e \<Rightarrow> filter (\<lambda>(n, _). n \<noteq> old \<and> n \<noteq> new) dir @ [(new, e)])"

text \<open>The test; the product of the age is computed in \<open>int\<close>.\<close>

definition should_rotate :: "os_calls \<Rightarrow> file_output \<Rightarrow> directory \<Rightarrow> bool outcome" where
  "should_rotate s out dir =
     (let bytes = (case map_of dir (basename (fo_path out)) of None \<Rightarrow> 0 | Some e \<Rightarrow> int (length (fe_bytes e)));
          by_size = 0 < rotation_max_size out \<and> rotation_max_size out \<le> bytes div (1024 * 1024)
      in if 0 < rotation_max_age out then
           (if 2 ^ 31 \<le> rotation_max_age out * 24 * 60 * 60 then UB
            else Ok (by_size \<or> rotation_max_age out * 24 * 60 * 60 \<le> os_now s - last_rotation out))
         else Ok by_size)"

definition rotate_file_if_needed ::
  "rotated_sorter \<Rightarrow> os_calls \<Rightarrow> file_output \<Rightarrow> directory \<Rightarrow> (int \<times> file_output \<times> directory) outcome" where
  "rotate_file_if_needed Q s out dir =
     (if \<not> fo_file out then Ok (0, out, dir)
      else bind_outcome (should_rotate s out dir) (\<lambda>rotate.
        if \<not> rotate then Ok (0, out, dir)
        else
          let base = basename (fo_path out);
              dir1 = rename_file base (base @ ''.'' @ os_stamp s (os_now s)) dir;
              dir2 = cleanup_old_rotated_files Q s out dir1
          in if \<not> os_open s then Ok (- 1, out\<lparr>fo_file := False\<rparr>, dir2)
             else Ok (0, out\<lparr>last_rotation := os_now s, current_size := 0\<rparr>, open_append s base dir2)))"

section \<open>Writing\<close>

definition append_bytes :: "os_calls \<Rightarrow> string \<Rightarrow> string \<Rightarrow> directory \<Rightarrow> directory" where
  "append_bytes s name bytes dir = map (\<lambda>(n, e).
     (n, if n = name then e\<lparr>fe_mtime := os_now s, fe_bytes := fe_bytes e @ bytes\<rparr> else e)) dir"

definition nblex_file_output_write ::
  "rotated_sorter \<Rightarrow> os_calls \<Rightarrow> 'j ext \<Rightarrow> file_output \<Rightarrow> 'j event option \<Rightarrow> directory \<Rightarrow>
   (int \<times> file_output \<times> directory) outcome" where
  "nblex_file_output_write Q s X out event dir =
     (if \<not> fo_file out \<or> event = None then Ok (- 1, out, dir)
      else bind_outcome (rotate_file_if_needed Q s out dir) (\<lambda>(rc, out1, dir1).
        if rc \<noteq> 0 then Ok (- 1, out1, dir1)
        else (case nblex_event_to_json_string X (the event) of
            None \<Rightarrow> Ok (- 1, out1, dir1)
          | Some json_str \<Rightarrow>
              let name = basename (fo_path out1); len = length json_str;
                  written = take (os_room s) (json_str @ [newline])
              in if os_room s < len + 1 then Ok (- 1, out1, append_bytes s name written dir1)
                 else Ok (0, out1\<lparr>current_size := current_size out1 + int len + 1\<rparr>, append_bytes s name written dir1))))"

end
