(* ===== verification/File_Output_Props.thy ===== *)
theory File_Output_Props
  imports File_Output "HOL-Library.Multiset"
begin

text \<open>
  Rotation keeps the newest rotated files, a limited number of them, and touches no other file; a write
  appends one line.
\<close>

section \<open>What the code relies on in \<open>qsort\<close>\<close>

lemma compare_rotated_le: "compare_rotated_files a b \<le> 0 \<longleftrightarrow> snd b \<le> snd a"
  by (simp add: compare_rotated_files_def)

locale rotated_qsort =
  fixes Q :: rotated_sorter
  assumes qsort_mset: "mset (Q xs) = mset xs"
    and qsort_sorted: "sorted_wrt (\<lambda>a b. compare_rotated_files a b \<le> 0) (Q xs)"
begin

lemma set_Q [simp]: "set (Q xs) = set xs"
  using qsort_mset [of xs] by (metis mset_eq_setD)

lemma length_Q [simp]: "length (Q xs) = length xs"
  using qsort_mset [of xs] by (metis mset_eq_length)

lemma kept_newer:
  assumes "a \<in> set (take k (Q xs))" and "b \<in> set (drop k (Q xs))"
  shows "snd b \<le> snd a"
proof -
  have "sorted_wrt (\<lambda>a b. snd b \<le> snd a) (take k (Q xs) @ drop k (Q xs))"
    using qsort_sorted [of xs] unfolding compare_rotated_le append_take_drop_id .
  with assms show ?thesis unfolding sorted_wrt_append by blast
qed

end

text \<open>Insertion sort is such a function.\<close>

fun insert_newest :: "string \<times> int \<Rightarrow> (string \<times> int) list \<Rightarrow> (string \<times> int) list" where
  "insert_newest a [] = [a]"
| "insert_newest a (b # bs) = (if snd b \<le> snd a then a # b # bs else b # insert_newest a bs)"

definition insertion_qsort :: rotated_sorter where
  "insertion_qsort xs = foldr insert_newest xs []"

lemma insert_newest_mset [simp]: "mset (insert_newest a bs) = add_mset a (mset bs)"
  by (induction bs) auto

lemma insert_newest_sorted:
  "sorted_wrt (\<lambda>a b. snd b \<le> snd a) bs \<Longrightarrow> sorted_wrt (\<lambda>a b. snd b \<le> snd a) (insert_newest a bs)"
proof (induction bs)
  case (Cons b bs)
  have "set (insert_newest a bs) = insert a (set bs)"
    using insert_newest_mset [of a bs] by (metis set_mset_add_mset_insert set_mset_mset)
  with Cons show ?case by auto
qed simp

interpretation insertion: rotated_qsort insertion_qsort
proof
  show "mset (insertion_qsort xs) = mset xs" for xs
    by (induction xs) (simp_all add: insertion_qsort_def)
  show "sorted_wrt (\<lambda>a b. compare_rotated_files a b \<le> 0) (insertion_qsort xs)" for xs
    unfolding compare_rotated_le
    by (induction xs) (simp_all add: insertion_qsort_def insert_newest_sorted)
qed

section \<open>Retention\<close>

definition rotated_entries :: "string \<Rightarrow> directory \<Rightarrow> directory" where
  "rotated_entries base dir = filter (\<lambda>(n, _). rotated_name base n) dir"

lemma rotated_files_entries: "rotated_files base dir = map (\<lambda>(n, e). (n, fe_mtime e)) (rotated_entries base dir)"
  by (simp add: rotated_files_def rotated_entries_def)

lemma rotated_files_names: "map fst (rotated_files base dir) = map fst (rotated_entries base dir)"
  by (auto simp: rotated_files_entries)

lemma length_filter_names:
  assumes "distinct (map fst xs)" and "D \<subseteq> fst ` set xs"
  shows "length (filter (\<lambda>(n, _). n \<notin> D) xs) = length xs - card D"
proof -
  have "length (filter (\<lambda>(n, _). n \<notin> D) xs) = length (filter (\<lambda>n. n \<notin> D) (map fst xs))"
    by (simp add: filter_map comp_def case_prod_unfold)
  also have "\<dots> = card (set (map fst xs) - D)"
    using assms(1) by (subst distinct_card [symmetric]) (auto simp: set_diff_eq)
  also have "\<dots> = card (set (map fst xs)) - card D"
    using assms(2) by (intro card_Diff_subset) (auto intro: finite_subset)
  also have "card (set (map fst xs)) = length xs" using distinct_card [OF assms(1)] by simp
  finally show ?thesis .
qed

context rotated_qsort
begin

lemma cleanup_retention:
  assumes "distinct (map fst dir)" and "0 < rotation_max_count out" and "\<And>n. os_unlink s n"
  defines "base \<equiv> basename (fo_path out)"
  defines "dir' \<equiv> cleanup_old_rotated_files Q s out dir"
  shows "length (rotated_entries base dir') = min (nat (rotation_max_count out)) (length (rotated_entries base dir))"
    and "filter (\<lambda>(n, _). \<not> rotated_name base n) dir' = filter (\<lambda>(n, _). \<not> rotated_name base n) dir"
    and "set dir' \<subseteq> set dir"
    and "\<forall>(n, e) \<in> set (rotated_entries base dir'). \<forall>(n', e') \<in> set dir - set dir'. fe_mtime e' \<le> fe_mtime e"
proof -
  let ?k = "nat (rotation_max_count out)" and ?R = "rotated_entries base dir" and ?f = "\<lambda>(n, e). (n, fe_mtime e)"
  define del where "del = (if ?k < length ?R then map fst (drop ?k (Q (rotated_files base dir))) else [])"
  have u: "filter (os_unlink s) ns = ns" for ns using assms(3) by simp
  have len: "length (rotated_files base dir) = length ?R" by (simp add: rotated_files_entries)
  have dir': "dir' = remove_files del dir"
    using assms(2) unfolding dir'_def cleanup_old_rotated_files_def Let_def base_def [symmetric] u len
    by (simp add: del_def remove_files_def)
  have dR: "distinct (map fst ?R)"
    unfolding rotated_entries_def using assms(1) by (simp add: distinct_map_filter)
  have dQ: "distinct (map fst (Q (rotated_files base dir)))"
    using dR mset_map [of fst "Q (rotated_files base dir)"] mset_map [of fst "rotated_files base dir"] qsort_mset
    by (metis mset_eq_imp_distinct_iff rotated_files_names)
  have del_R: "set del \<subseteq> fst ` set ?R"
    unfolding del_def by (force dest!: in_set_dropD simp: rotated_files_entries)
  show sub: "set dir' \<subseteq> set dir" by (auto simp: dir' remove_files_def)
  have other: "n \<notin> set del" if "\<not> rotated_name base n" for n
    using that del_R by (auto simp: rotated_entries_def)
  show "filter (\<lambda>(n, _). \<not> rotated_name base n) dir' = filter (\<lambda>(n, _). \<not> rotated_name base n) dir"
    unfolding dir' remove_files_def filter_filter by (rule filter_cong) (use other in auto)
  have kept: "rotated_entries base dir' = filter (\<lambda>(n, _). n \<notin> set del) ?R"
    unfolding dir' remove_files_def rotated_entries_def filter_filter by (rule filter_cong) auto
  have "distinct del" unfolding del_def using dQ by (simp add: drop_map [symmetric])
  then have "card (set del) = (if ?k < length ?R then length ?R - ?k else 0)"
    by (simp add: distinct_card) (simp add: del_def len)
  then show "length (rotated_entries base dir') = min ?k (length ?R)"
    unfolding kept using length_filter_names [OF dR del_R] by (simp add: min_def split: if_splits)
  show "\<forall>(n, e) \<in> set (rotated_entries base dir'). \<forall>(n', e') \<in> set dir - set dir'. fe_mtime e' \<le> fe_mtime e"
  proof clarify
    fix n e n' e'
    assume n: "(n, e) \<in> set (rotated_entries base dir')" and n': "(n', e') \<in> set dir" "(n', e') \<notin> set dir'"
    let ?Q = "Q (rotated_files base dir)"
    have d: "n' \<in> set del" using n' by (auto simp: dir' remove_files_def)
    then have k: "del = map fst (drop ?k ?Q)" by (auto simp: del_def split: if_splits)
    then obtain t where t: "(n', t) \<in> set (drop ?k ?Q)" using d by auto
    then have "(n', t) \<in> set (rotated_files base dir)" by (metis in_set_dropD set_Q)
    then obtain e'' where e'': "(n', e'') \<in> set dir" "t = fe_mtime e''"
      by (auto simp: rotated_files_entries rotated_entries_def)
    have "e'' = e'" using e''(1) n'(1) assms(1) by (meson eq_key_imp_eq_value)
    moreover have "(n, fe_mtime e) \<in> set ?Q" using n by (force simp: kept rotated_files_entries)
    then have "(n, fe_mtime e) \<in> set (take ?k ?Q)"
      using n k by (metis (no_types, lifting) Un_iff append_take_drop_id case_prodD fst_conv image_eqI kept mem_Collect_eq set_append set_filter set_map)
    ultimately show "fe_mtime e' \<le> fe_mtime e" using kept_newer [OF _ t] e''(2) by fastforce
  qed
qed

end

text \<open>C36: After the cleanup at most the maximal number of rotated files is left, and exactly that number if there
  were more; every deleted file is a rotated one and at most as new as every rotated file that is kept; all
  other files are untouched.\<close>

theorem rotation_retention:
  assumes "rotated_qsort Q" and "distinct (map fst dir)" and "0 < rotation_max_count out" and "\<And>n. os_unlink s n"
  shows "let base = basename (fo_path out); dir' = cleanup_old_rotated_files Q s out dir in
    length (rotated_entries base dir') = min (nat (rotation_max_count out)) (length (rotated_entries base dir))
    \<and> filter (\<lambda>(n, _). \<not> rotated_name base n) dir' = filter (\<lambda>(n, _). \<not> rotated_name base n) dir
    \<and> set dir' \<subseteq> set dir
    \<and> (\<forall>(n, e) \<in> set (rotated_entries base dir'). \<forall>(n', e') \<in> set dir - set dir'. fe_mtime e' \<le> fe_mtime e)"
  using rotated_qsort.cleanup_retention [OF assms] unfolding Let_def by blast

theorem rotation_retention_witness:
  "let s = \<lparr>os_now = 0, os_stamp = \<lambda>_. ''20250101_000000'', os_unlink = \<lambda>_. True, os_open = True, os_room = 0\<rparr>;
       out = nblex_file_output_set_rotation 100 7 1 (the (fst (nblex_file_output_new s (Some ''/var/x.log'') None [])));
       e = (\<lambda>t. \<lparr>fe_mtime = t, fe_bytes = []\<rparr>);
       dir = [(''x.log'', e 9), (''x.log.20250101_000000'', e 5), (''x.log.20250102_000000'', e 6), (''y'', e 1)]
   in length (rotated_entries ''x.log'' (cleanup_old_rotated_files insertion_qsort s out dir)) = 1
      \<and> cleanup_old_rotated_files insertion_qsort s out dir = [(''x.log'', e 9), (''x.log.20250102_000000'', e 6), (''y'', e 1)]"
proof -
  let ?s = "\<lparr>os_now = 0, os_stamp = \<lambda>_. ''20250101_000000'', os_unlink = \<lambda>_. True, os_open = True, os_room = 0\<rparr>"
  let ?out = "nblex_file_output_set_rotation 100 7 1 (the (fst (nblex_file_output_new ?s (Some ''/var/x.log'') None [])))"
  let ?e = "\<lambda>t. \<lparr>fe_mtime = t, fe_bytes = []\<rparr>"
  let ?dir = "[(''x.log'', ?e 9), (''x.log.20250101_000000'', ?e 5), (''x.log.20250102_000000'', ?e 6), (''y'', ?e 1)]"
  have 1: "distinct (map fst ?dir)" "0 < rotation_max_count ?out" by code_simp+
  have 2: "basename (fo_path ?out) = ''x.log''" "nat (rotation_max_count ?out) = 1"
    "length (rotated_entries ''x.log'' ?dir) = 2" by code_simp+
  have "cleanup_old_rotated_files insertion_qsort ?s ?out ?dir = [(''x.log'', ?e 9), (''x.log.20250102_000000'', ?e 6), (''y'', ?e 1)]"
    by code_simp
  then show ?thesis
    using rotation_retention [OF insertion.rotated_qsort_axioms 1, of ?s] 2 unfolding Let_def by simp
qed

end
