(* ===== verification/Metrics_Output.thy ===== *)
theory Metrics_Output
  imports Events
begin

text \<open>
  The metrics output (\<open>output/metrics_output.c\<close>): counters of events and the metrics of aggregation results, written in
  the text format of Prometheus.

  The file is its contents; every flush writes from the start of the file and does not truncate it. The
  times are arguments, and so is \<open>B\<close>, the size of a serialised value (\<open>json_dumpb\<close>). Copying a JSON value is the
  identity. The array \<open>events_by_input\<close> is never used and left out.
\<close>

section \<open>State\<close>

record 'j aggregation_metric =
  metric_name :: string
  metric_labels :: "'j option"
  metric_value :: f64

record 'j metrics_output =
  mo_file :: string
  mo_path :: string
  mo_format :: string
  last_flush :: int
  flush_interval :: int
  events_total :: u64
  events_by_type :: "u64 list"
  bytes_processed :: u64
  mo_correlations_found :: u64
  aggregation_metrics :: "'j aggregation_metric list"

definition NBLEX_EVENT_MAX :: nat where
  "NBLEX_EVENT_MAX = 4"

fun event_type_index :: "nblex_event_type \<Rightarrow> nat" where
  "event_type_index NBLEX_EVENT_LOG = 0"
| "event_type_index NBLEX_EVENT_NETWORK = 1"
| "event_type_index NBLEX_EVENT_CORRELATION = 2"
| "event_type_index NBLEX_EVENT_ERROR = 3"

definition nblex_metrics_output_new :: "int \<Rightarrow> string option \<Rightarrow> string option \<Rightarrow> bool \<Rightarrow> 'j metrics_output option" where
  "nblex_metrics_output_new now path format opened = (case path of
      None \<Rightarrow> None
    | Some p \<Rightarrow> if \<not> opened then None else Some \<lparr>mo_file = [], mo_path = p,
        mo_format = (case format of None \<Rightarrow> ''prometheus'' | Some f \<Rightarrow> f), last_flush = now, flush_interval = 60,
        events_total = 0, events_by_type = replicate NBLEX_EVENT_MAX 0, bytes_processed = 0, mo_correlations_found = 0,
        aggregation_metrics = []\<rparr>)"

definition nblex_metrics_output_set_flush_interval :: "int \<Rightarrow> 'j metrics_output \<Rightarrow> 'j metrics_output" where
  "nblex_metrics_output_set_flush_interval seconds out = (if seconds \<le> 0 then out else out\<lparr>flush_interval := seconds\<rparr>)"

section \<open>Flushing\<close>

abbreviation metrics_quote :: string where
  "metrics_quote \<equiv> [CHR 0x22]"

abbreviation line_end :: string where
  "line_end \<equiv> [CHR 0x0A]"

definition label_value :: "'j ext \<Rightarrow> 'j \<Rightarrow> string option" where
  "label_value X v = (if json_typeof X v = JSON_STRING then Some (json_string_value X v) else None)"

text \<open>The size the code allocates and the text it writes; a text that does not fit is undefined behaviour.\<close>

definition labels_size :: "'j ext \<Rightarrow> (string \<times> 'j) list \<Rightarrow> nat" where
  "labels_size X kvs = 2 + sum_list (map (\<lambda>(k, v). case label_value X v of
      None \<Rightarrow> 0 | Some s \<Rightarrow> length k + length s + 5) kvs)"

definition label_text :: "'j ext \<Rightarrow> string \<times> 'j \<Rightarrow> string" where
  "label_text X kv = (case kv of (k, v) \<Rightarrow>
     k @ ''='' @ metrics_quote @ (case label_value X v of None \<Rightarrow> '''' | Some s \<Rightarrow> s) @ metrics_quote)"

fun join_labels :: "string list \<Rightarrow> string" where
  "join_labels [] = []"
| "join_labels [l] = l"
| "join_labels (l # ls) = l @ '','' @ join_labels ls"

definition format_prometheus_labels :: "'j ext \<Rightarrow> 'j option \<Rightarrow> string outcome" where
  "format_prometheus_labels X labels = (case labels of
      None \<Rightarrow> Ok ''''
    | Some l \<Rightarrow>
        if json_typeof X l \<noteq> JSON_OBJECT then Ok ''''
        else
          let kvs = json_object_items X l; text = ''{'' @ join_labels (map (label_text X) kvs) @ ''}''
          in if labels_size X kvs < length text + 1 then UB else Ok text)"

definition metric_line :: "'j ext \<Rightarrow> 'j aggregation_metric \<Rightarrow> string outcome" where
  "metric_line X m = bind_outcome (format_prometheus_labels X (metric_labels m)) (\<lambda>labels_str.
     let start = ''nblex_aggregation{metric='' @ metrics_quote @ metric_name m @ metrics_quote;
         rest = ''} '' @ fmt_f 6 (metric_value m) @ line_end
     in Ok (if 2 < length labels_str then start @ '','' @ tl labels_str @ rest else start @ rest))"

fun metric_lines :: "'j ext \<Rightarrow> 'j aggregation_metric list \<Rightarrow> string outcome" where
  "metric_lines X [] = Ok ''''"
| "metric_lines X (m # ms) = bind_outcome (metric_line X m) (\<lambda>l. bind_outcome (metric_lines X ms) (\<lambda>ls. Ok (l @ ls)))"

definition type_names :: "string list" where
  "type_names = [''unknown'', ''log'', ''network'', ''correlation'']"

definition type_lines :: "u64 list \<Rightarrow> string" where
  "type_lines counts = concat (map (\<lambda>i. if 0 < counts ! i then
      ''nblex_events_by_type{type='' @ metrics_quote @ type_names ! i @ metrics_quote @ ''} '' @ dec_of_int (uint (counts ! i)) @ line_end
      else '''') [0..<min NBLEX_EVENT_MAX 4])"

definition help_lines :: "string \<Rightarrow> string \<Rightarrow> string \<Rightarrow> string" where
  "help_lines name help kind = ''# HELP '' @ name @ '' '' @ help @ line_end @ ''# TYPE '' @ name @ '' '' @ kind @ line_end"

definition counter_lines :: "string \<Rightarrow> string \<Rightarrow> u64 \<Rightarrow> string" where
  "counter_lines name help n = help_lines name help ''counter'' @ name @ '' '' @ dec_of_int (uint n) @ line_end"

definition prometheus_text :: "'j ext \<Rightarrow> 'j metrics_output \<Rightarrow> string outcome" where
  "prometheus_text X out =
     bind_outcome (if aggregation_metrics out = [] then Ok ''''
       else bind_outcome (metric_lines X (aggregation_metrics out)) (\<lambda>ls.
         Ok (help_lines ''nblex_aggregation'' ''Aggregation metrics from nQL queries'' ''gauge'' @ ls))) (\<lambda>aggs.
     Ok (counter_lines ''nblex_events_total'' ''Total number of events processed'' (events_total out)
       @ help_lines ''nblex_events_by_type'' ''Events by type'' ''counter'' @ type_lines (events_by_type out)
       @ counter_lines ''nblex_bytes_processed'' ''Total bytes processed'' (bytes_processed out)
       @ counter_lines ''nblex_correlations_found'' ''Total correlations found'' (mo_correlations_found out)
       @ aggs))"

text \<open>Writing from the start of the file: what is behind the new text stays.\<close>

definition overwrite :: "string \<Rightarrow> string \<Rightarrow> string" where
  "overwrite text old = text @ drop (length text) old"

definition nblex_metrics_output_flush :: "'j ext \<Rightarrow> int \<Rightarrow> 'j metrics_output \<Rightarrow> (int \<times> 'j metrics_output) outcome" where
  "nblex_metrics_output_flush X now out =
     bind_outcome (if mo_format out = ''prometheus'' then prometheus_text X out else Ok '''') (\<lambda>text.
       Ok (0, out\<lparr>mo_file := overwrite text (mo_file out), last_flush := now, aggregation_metrics := []\<rparr>))"

text \<open>What the file holds at the end: freeing flushes once more.\<close>

definition nblex_metrics_output_free :: "'j ext \<Rightarrow> int \<Rightarrow> 'j metrics_output \<Rightarrow> string outcome" where
  "nblex_metrics_output_free X now out = bind_outcome (nblex_metrics_output_flush X now out) (\<lambda>(_, out1). Ok (mo_file out1))"

section \<open>Counting an event\<close>

definition metric_number :: "'j ext \<Rightarrow> 'j \<Rightarrow> f64 option" where
  "metric_number X v = (case json_typeof X v of
      JSON_INTEGER \<Rightarrow> Some (f64_of_int (sint (json_integer_value X v)))
    | JSON_REAL \<Rightarrow> Some (json_real_value X v)
    | _ \<Rightarrow> None)"

definition is_object :: "'j ext \<Rightarrow> 'j option \<Rightarrow> bool" where
  "is_object X v \<longleftrightarrow> (case v of None \<Rightarrow> False | Some j \<Rightarrow> json_typeof X j = JSON_OBJECT)"

text \<open>The entries for the metrics of an aggregation result; each is put in front of the list.\<close>

definition new_metrics :: "'j ext \<Rightarrow> 'j \<Rightarrow> 'j aggregation_metric list" where
  "new_metrics X data =
     (case json_object_get X data ''nql_result_type'' of
        None \<Rightarrow> []
      | Some t \<Rightarrow>
          if json_typeof X t = JSON_STRING \<and> json_string_value X t = ''aggregation'' then
            (let metrics = json_object_get X data ''metrics''; group = json_object_get X data ''group''
             in if is_object X metrics then
                  rev (List.map_filter (\<lambda>(k, v). map_option (\<lambda>x. \<lparr>metric_name = k,
                    metric_labels = (if is_object X group then group else None), metric_value = x\<rparr>) (metric_number X v))
                    (json_object_items X (the metrics)))
                else [])
          else [])"

definition count_event :: "('j \<Rightarrow> u64) \<Rightarrow> 'j ext \<Rightarrow> 'j event \<Rightarrow> 'j metrics_output \<Rightarrow> 'j metrics_output" where
  "count_event B X ev out =
     (let i = event_type_index (ev_type ev);
          o1 = out\<lparr>events_total := events_total out + 1,
            events_by_type := (events_by_type out)[i := events_by_type out ! i + 1]\<rparr>;
          o2 = (case ev_data ev of None \<Rightarrow> o1 | Some d \<Rightarrow> o1\<lparr>bytes_processed := bytes_processed o1 + B d\<rparr>);
          o3 = (if ev_type ev = NBLEX_EVENT_CORRELATION
                then o2\<lparr>mo_correlations_found := mo_correlations_found o2 + 1\<rparr> else o2)
      in case ev_data ev of None \<Rightarrow> o3
         | Some d \<Rightarrow> o3\<lparr>aggregation_metrics := new_metrics X d @ aggregation_metrics o3\<rparr>)"

definition nblex_metrics_output_write ::
  "('j \<Rightarrow> u64) \<Rightarrow> 'j ext \<Rightarrow> int \<Rightarrow> 'j event option \<Rightarrow> 'j metrics_output \<Rightarrow> (int \<times> 'j metrics_output) outcome" where
  "nblex_metrics_output_write B X now event out = (case event of
      None \<Rightarrow> Ok (- 1, out)
    | Some ev \<Rightarrow>
        let out1 = count_event B X ev out
        in if flush_interval out1 \<le> now - last_flush out1 then nblex_metrics_output_flush X now out1 else Ok (0, out1))"

end
