(* ===== verification/Metrics_Props.thy ===== *)
theory Metrics_Props
  imports Metrics_Output
begin

text \<open>
  The counters of the metrics output count the events; the lines of cleared aggregation metrics stay in the
  file.
\<close>

section \<open>Counters\<close>

text \<open>What can happen to an output between its creation and its end, with the events written so far.\<close>

inductive metrics_run :: "('j \<Rightarrow> u64) \<Rightarrow> 'j ext \<Rightarrow> 'j event list \<Rightarrow> 'j metrics_output \<Rightarrow> bool" for B X where
  created: "nblex_metrics_output_new now path format opened = Some out \<Longrightarrow> metrics_run B X [] out"
| written: "metrics_run B X evs out \<Longrightarrow> nblex_metrics_output_write B X now (Some ev) out = Ok (rc, out') \<Longrightarrow>
    metrics_run B X (evs @ [ev]) out'"
| interval: "metrics_run B X evs out \<Longrightarrow> metrics_run B X evs (nblex_metrics_output_set_flush_interval s out)"
| flushed: "metrics_run B X evs out \<Longrightarrow> nblex_metrics_output_flush X now out = Ok (rc, out') \<Longrightarrow> metrics_run B X evs out'"

definition count_type :: "nblex_event_type \<Rightarrow> 'j event list \<Rightarrow> u64" where
  "count_type t evs = of_nat (length (filter (\<lambda>e. ev_type e = t) evs))"

definition counters_ok :: "'j event list \<Rightarrow> 'j metrics_output \<Rightarrow> bool" where
  "counters_ok evs out \<longleftrightarrow> events_total out = of_nat (length evs) \<and> length (events_by_type out) = 4
     \<and> (\<forall>t. events_by_type out ! event_type_index t = count_type t evs)
     \<and> mo_correlations_found out = count_type NBLEX_EVENT_CORRELATION evs"

lemma event_type_index_less [simp]: "event_type_index t < 4"
  by (cases t) simp_all

lemma event_type_index_inject [simp]: "event_type_index s = event_type_index t \<longleftrightarrow> s = t"
  by (cases s; cases t) simp_all

lemma count_type_snoc: "count_type t (evs @ [ev]) = count_type t evs + (if ev_type ev = t then 1 else 0)"
  by (simp add: count_type_def)

text \<open>The fields the two operations leave alone.\<close>

lemma flush_counters:
  assumes "nblex_metrics_output_flush X now out = Ok (rc, out')"
  shows "counters_ok evs out' = counters_ok evs out"
  using assms by (auto simp: nblex_metrics_output_flush_def outcome_simps counters_ok_def)

lemma count_event_counters:
  assumes "counters_ok evs out"
  shows "counters_ok (evs @ [ev]) (count_event B X ev out)"
proof -
  let ?out = "count_event B X ev out"
  have f: "events_total ?out = events_total out + 1"
    "events_by_type ?out = (events_by_type out)[event_type_index (ev_type ev) := events_by_type out ! event_type_index (ev_type ev) + 1]"
    "mo_correlations_found ?out = mo_correlations_found out + (if ev_type ev = NBLEX_EVENT_CORRELATION then 1 else 0)"
    by (simp_all add: count_event_def Let_def split: option.split)
  show ?thesis
    using assms by (simp add: counters_ok_def f count_type_snoc nth_list_update)
qed

lemma metrics_run_counters: "metrics_run B X evs out \<Longrightarrow> counters_ok evs out"
proof (induction rule: metrics_run.induct)
  case (created now path format opened out)
  then show ?case
    by (auto simp: nblex_metrics_output_new_def counters_ok_def count_type_def NBLEX_EVENT_MAX_def split: option.splits if_splits)
next
  case (written evs out now ev rc out')
  then show ?case
    using count_event_counters [OF written.IH, of ev B X] flush_counters [of X now "count_event B X ev out" rc out' "evs @ [ev]"]
    by (auto simp: nblex_metrics_output_write_def Let_def split: if_splits)
next
  case (interval evs out s)
  then show ?case by (simp add: nblex_metrics_output_set_flush_interval_def counters_ok_def)
next
  case (flushed evs out now rc out')
  then show ?case using flush_counters by blast
qed

text \<open>C37: Whatever is written and flushed, the total counts all events, the counter of each type counts the events of
  that type, and the number of correlations is that of the correlation events.\<close>

theorem metrics_count_events:
  assumes "metrics_run B X evs out"
  shows "events_total out = of_nat (length evs)
    \<and> (\<forall>t. events_by_type out ! event_type_index t = of_nat (length (filter (\<lambda>e. ev_type e = t) evs)))
    \<and> mo_correlations_found out = of_nat (length (filter (\<lambda>e. ev_type e = NBLEX_EVENT_CORRELATION) evs))"
  using metrics_run_counters [OF assms] by (simp add: counters_ok_def count_type_def)

theorem metrics_count_events_witness:
  "let X = tree_ext (\<lambda>_. None) (\<lambda>_. None) (\<lambda>_. True) (\<lambda>_ _. 0) (\<lambda>_. 0);
       ev = nblex_event_new 5 NBLEX_EVENT_NETWORK None
   in \<exists>out. metrics_run (\<lambda>_. 1) X [ev] out \<and> events_by_type out ! 1 = 1"
proof -
  let ?X = "tree_ext (\<lambda>_. None) (\<lambda>_. None) (\<lambda>_. True) (\<lambda>_ _. 0) (\<lambda>_. 0)"
  let ?ev = "nblex_event_new 5 NBLEX_EVENT_NETWORK None :: jtree event"
  obtain out where new: "nblex_metrics_output_new 0 (Some ''m'') None True = Some (out :: jtree metrics_output)"
    by (simp add: nblex_metrics_output_new_def)
  have i: "last_flush out = 0" "flush_interval out = 60" using new by (auto simp: nblex_metrics_output_new_def)
  have "nblex_metrics_output_write (\<lambda>_. 1) ?X 3 (Some ?ev) out = Ok (0, count_event (\<lambda>_. 1) ?X ?ev out)"
    using i by (simp add: nblex_metrics_output_write_def count_event_def nblex_event_new_def Let_def)
  from metrics_run.written [OF metrics_run.created [OF new] this]
  have r: "metrics_run (\<lambda>_. 1) ?X [?ev] (count_event (\<lambda>_. 1) ?X ?ev out)" by simp
  have "events_by_type (count_event (\<lambda>_. 1) ?X ?ev out) ! event_type_index NBLEX_EVENT_NETWORK = 1"
    using metrics_count_events [OF r, THEN conjunct2, THEN conjunct1, rule_format, of NBLEX_EVENT_NETWORK]
    by (simp add: nblex_event_new_def)
  with r show ?thesis unfolding Let_def by (intro exI [of _ "count_event (\<lambda>_. 1) ?X ?ev out"]) simp
qed

section \<open>The file\<close>

lemma overwrite_prefix: "overwrite text (text @ rest) = text @ rest"
  by (simp add: overwrite_def)

text \<open>The part of the text that depends on the counters only.\<close>

definition counter_text :: "'j metrics_output \<Rightarrow> string" where
  "counter_text out = counter_lines ''nblex_events_total'' ''Total number of events processed'' (events_total out)
     @ help_lines ''nblex_events_by_type'' ''Events by type'' ''counter'' @ type_lines (events_by_type out)
     @ counter_lines ''nblex_bytes_processed'' ''Total bytes processed'' (bytes_processed out)
     @ counter_lines ''nblex_correlations_found'' ''Total correlations found'' (mo_correlations_found out)"

lemma prometheus_text_prefix: "prometheus_text X out = Ok text \<Longrightarrow> \<exists>aggs. text = counter_text out @ aggs"
  by (auto simp: prometheus_text_def counter_text_def outcome_simps)

lemma prometheus_text_counters: "aggregation_metrics out = [] \<Longrightarrow> prometheus_text X out = Ok (counter_text out)"
  by (simp add: prometheus_text_def counter_text_def)

text \<open>The lines of aggregation metrics never leave the file: the second of two flushes clears nothing, because it
  writes a shorter text over the first and does not truncate the file, so the metrics that the first flush cleared are
  still reported.\<close>

theorem metrics_stale_gauges:
  assumes "nblex_metrics_output_flush X now out = Ok (rc, out1)" and "nblex_metrics_output_flush X now' out1 = Ok (rc', out2)"
    and "mo_file out = []" and "mo_format out = ''prometheus''"
  shows "prometheus_text X out = Ok (mo_file out1) \<and> aggregation_metrics out1 = [] \<and> mo_file out2 = mo_file out1"
proof -
  obtain tx where tx: "prometheus_text X out = Ok tx"
    and o1: "out1 = out\<lparr>mo_file := tx, last_flush := now, aggregation_metrics := []\<rparr>"
    using assms(1,3,4) by (auto simp: nblex_metrics_output_flush_def outcome_simps overwrite_def)
  have base: "prometheus_text X out1 = Ok (counter_text out)" by (simp add: o1 prometheus_text_counters counter_text_def)
  obtain aggs where aggs: "tx = counter_text out @ aggs" using prometheus_text_prefix [OF tx] by blast
  have "mo_file out2 = overwrite (counter_text out) tx"
    using assms(2,4) base by (auto simp: nblex_metrics_output_flush_def outcome_simps o1)
  then show ?thesis using tx aggs by (simp add: o1 overwrite_prefix)
qed

lemma result_pair: "(case r of Ok (a, b) \<Rightarrow> P a b | UB \<Rightarrow> False) \<Longrightarrow> \<exists>a b. r = Ok (a, b) \<and> P a b"
  by (auto split: outcome.splits)

theorem metrics_stale_gauges_witness:
  "let X = tree_ext (\<lambda>_. None) (\<lambda>_. None) (\<lambda>_. True) (\<lambda>_ _. 0) (\<lambda>_. 0);
       m = \<lparr>metric_name = ''count'', metric_labels = None, metric_value = F_fin False 3 0\<rparr>;
       out = (the (nblex_metrics_output_new 0 (Some ''m'') None True) :: jtree metrics_output)\<lparr>aggregation_metrics := [m]\<rparr>
   in \<exists>out1 out2. nblex_metrics_output_flush X 60 out = Ok (0, out1) \<and> nblex_metrics_output_flush X 120 out1 = Ok (0, out2)
        \<and> aggregation_metrics out1 = [] \<and> mo_file out2 = mo_file out1"
proof -
  let ?X = "tree_ext (\<lambda>_. None) (\<lambda>_. None) (\<lambda>_. True) (\<lambda>_ _. 0) (\<lambda>_. 0)"
  let ?m = "\<lparr>metric_name = ''count'', metric_labels = None, metric_value = F_fin False 3 0\<rparr>"
  let ?out = "(the (nblex_metrics_output_new 0 (Some ''m'') None True) :: jtree metrics_output)\<lparr>aggregation_metrics := [?m]\<rparr>"
  have f: "mo_file ?out = []" "mo_format ?out = ''prometheus''" by (simp_all add: nblex_metrics_output_new_def)
  have "case nblex_metrics_output_flush ?X 60 ?out of
      Ok (rc, o1) \<Rightarrow> rc = 0 \<and>
        (case nblex_metrics_output_flush ?X 120 o1 of Ok (rc', o2) \<Rightarrow> rc' = 0 | UB \<Rightarrow> False)
    | UB \<Rightarrow> False" by code_simp
  from result_pair [OF this] obtain o1 where r1: "nblex_metrics_output_flush ?X 60 ?out = Ok (0, o1)"
    and c: "case nblex_metrics_output_flush ?X 120 o1 of Ok (rc', o2) \<Rightarrow> rc' = 0 | UB \<Rightarrow> False" by blast
  from result_pair [OF c] obtain o2 where r2: "nblex_metrics_output_flush ?X 120 o1 = Ok (0, o2)" by blast
  then show ?thesis using metrics_stale_gauges [OF r1 r2 f] r1 r2 unfolding Let_def by blast
qed

text \<open>A metric with labels ends in two closing braces, the one of the labels and the one of the line.\<close>

lemma metric_line_braces:
  assumes "metric_labels m = Some l" and "json_typeof X l = JSON_OBJECT" and "json_object_items X l = [(k, v)]"
    and "label_value X v = Some s"
  shows "metric_line X m = Ok (''nblex_aggregation{metric='' @ metrics_quote @ metric_name m @ metrics_quote @ '',''
    @ k @ ''='' @ metrics_quote @ s @ metrics_quote @ ''}} '' @ fmt_f 6 (metric_value m) @ line_end)"
  using assms by (simp add: metric_line_def format_prometheus_labels_def labels_size_def label_text_def Let_def)

end
