(* ===== verification/Regex_Parser.thy ===== *)
theory Regex_Parser
  imports Events Log_Parsers
begin

text \<open>
  The parser of log lines by a regular expression (\<open>parsers/regex_parser.c\<close>).

  pcre2 is two parameters: \<open>C\<close> says which patterns compile, and \<open>P\<close> gives the first \<open>rc\<close> pairs of offsets of a match of
  a pattern with a line (\<open>None\<close> for a negative \<open>rc\<close>). Pair 0 is the whole match, pair \<open>n\<close> is group \<open>n\<close>, and a group
  that took no part in the match has two equal offsets (\<open>PCRE2_UNSET\<close>). Memory is never exhausted.
\<close>

record regex_parser =
  rx_pattern :: string
  rx_field_names :: "string list"

type_synonym offset_pair = "u64 \<times> u64"
type_synonym regex_match = "string \<Rightarrow> string \<Rightarrow> offset_pair list option"

text \<open>The number of fields is the length of the list.\<close>

definition nblex_regex_parser_new ::
  "(string \<Rightarrow> bool) \<Rightarrow> string option \<Rightarrow> string list option \<Rightarrow> regex_parser option" where
  "nblex_regex_parser_new C pattern field_names =
     (case (pattern, field_names) of
        (Some p, Some ns) \<Rightarrow>
          if ns = [] then None
          else if C p then Some \<lparr>rx_pattern = p, rx_field_names = ns\<rparr>
          else None
      | _ \<Rightarrow> None)"

definition matched_text :: "string \<Rightarrow> offset_pair \<Rightarrow> string" where
  "matched_text line se = (case se of (s, e) \<Rightarrow> take (unat (e - s)) (drop (unat s) line))"

text \<open>The loop over the fields and the pairs of offsets.\<close>

fun regex_fields :: "'j ext \<Rightarrow> string \<Rightarrow> string list \<Rightarrow> offset_pair list \<Rightarrow> 'j \<Rightarrow> 'j option" where
  "regex_fields X line (n # ns) (se # ov) ob =
     (if fst se < snd se then
        Option.bind (set_or_fail X ob n (json_string X (cstr (matched_text line se)))) (regex_fields X line ns ov)
      else regex_fields X line ns ov ob)"
| "regex_fields X line ns ov ob = Some ob"

definition nblex_regex_parser_parse :: "regex_match \<Rightarrow> 'j ext \<Rightarrow> regex_parser \<Rightarrow> string \<Rightarrow> 'j option" where
  "nblex_regex_parser_parse P X parser line = (case P (rx_pattern parser) line of
      None \<Rightarrow> None
    | Some ovector \<Rightarrow> regex_fields X line (rx_field_names parser) ovector (json_object X))"

end
