(* ===== verification/Regex_Props.thy ===== *)
theory Regex_Props
  imports Regex_Parser
begin

text \<open>
  What the fields of a line parsed by a regular expression hold.
\<close>

context jansson
begin

lemma set_or_fail_ascii:
  assumes "json_typeof X ob = JSON_OBJECT" "ascii k" "ascii s"
  shows "\<exists>ob' v. set_or_fail X ob k (json_string X s) = Some ob' \<and> json_string X s = Some v \<and>
    json_typeof X ob' = JSON_OBJECT \<and> (\<forall>k'. json_object_get X ob' k' = (if k' = k then Some v else json_object_get X ob k'))"
proof -
  obtain v where v: "json_string X s = Some v" using string_ascii [OF assms(3)] by blast
  obtain ob' where "json_object_set X ob k v = Some ob'" using set_ascii [OF assms(1,2)] by blast
  then show ?thesis using assms(1) v set_typeof set_get by (auto simp: set_or_fail_def)
qed

lemma ascii_matched_text: "ascii line \<Longrightarrow> ascii (matched_text line se)"
  by (auto simp: matched_text_def ascii_def list_all_iff split: prod.split dest!: in_set_takeD in_set_dropD)

lemma regex_fields_get:
  assumes "json_typeof X ob = JSON_OBJECT" "list_all ascii ns" "distinct ns" "ascii line"
  shows "\<exists>ob'. regex_fields X line ns ov ob = Some ob' \<and>
    (\<forall>i < length ns. json_object_get X ob' (ns ! i) =
      (if i < length ov \<and> fst (ov ! i) < snd (ov ! i) then json_string X (matched_text line (ov ! i))
       else json_object_get X ob (ns ! i))) \<and>
    (\<forall>k. k \<notin> set ns \<longrightarrow> json_object_get X ob' k = json_object_get X ob k)"
  using assms
proof (induction ns arbitrary: ov ob)
  case (Cons n ns)
  show ?case
  proof (cases ov)
    case (Cons se ov')
    define ob1 where "ob1 = (if fst se < snd se then the (set_or_fail X ob n (json_string X (matched_text line se))) else ob)"
    obtain o1 v where o1: "set_or_fail X ob n (json_string X (matched_text line se)) = Some o1"
      "json_string X (matched_text line se) = Some v" "json_typeof X o1 = JSON_OBJECT"
      "\<And>k'. json_object_get X o1 k' = (if k' = n then Some v else json_object_get X ob k')"
      using set_or_fail_ascii [OF Cons.prems(1) _ ascii_matched_text [OF Cons.prems(4)], of n se] Cons.prems(2) by auto
    have ob1: "json_typeof X ob1 = JSON_OBJECT" "fst se < snd se \<Longrightarrow> ob1 = o1" "\<not> fst se < snd se \<Longrightarrow> ob1 = ob"
      using o1 Cons.prems(1) by (auto simp: ob1_def)
    have step: "regex_fields X line (n # ns) (se # ov') ob = regex_fields X line ns ov' ob1"
      using o1(1) ob1 by (simp add: ascii_cstr ascii_matched_text Cons.prems(4))
    obtain ob' where ob': "regex_fields X line ns ov' ob1 = Some ob'"
      "\<And>i. i < length ns \<Longrightarrow> json_object_get X ob' (ns ! i) =
        (if i < length ov' \<and> fst (ov' ! i) < snd (ov' ! i) then json_string X (matched_text line (ov' ! i))
         else json_object_get X ob1 (ns ! i))"
      "\<And>k. k \<notin> set ns \<Longrightarrow> json_object_get X ob' k = json_object_get X ob1 k"
      using Cons.IH [OF ob1(1), of ov'] Cons.prems by auto
    have same: "json_object_get X ob1 k = json_object_get X ob k" if "k \<noteq> n" for k
      using that ob1(2,3) o1(4) by (cases "fst se < snd se") auto
    have n: "json_object_get X ob' n = (if fst se < snd se then Some v else json_object_get X ob n)"
      using ob'(3) [of n] ob1(2,3) o1(4) Cons.prems(3) by auto
    have neq: "ns ! j \<noteq> n" if "j < length ns" for j using that Cons.prems(3) by auto
    show ?thesis
      using ob'(1,2,3) n o1(2) same neq Cons.prems(3) unfolding Cons step
      by (intro exI [of _ ob']) (auto simp: nth_Cons split: nat.splits)
  qed simp
qed simp

lemma regex_names_shifted:
  assumes "P (rx_pattern parser) line = Some ov" "list_all ascii (rx_field_names parser)" "distinct (rx_field_names parser)" "ascii line"
  shows "\<exists>ob. nblex_regex_parser_parse P X parser line = Some ob \<and>
    (\<forall>i < length (rx_field_names parser). json_object_get X ob (rx_field_names parser ! i) =
      (if i < length ov \<and> fst (ov ! i) < snd (ov ! i) then json_string X (matched_text line (ov ! i)) else None))"
  using regex_fields_get [OF typeof_object assms(2-4), of ov] assms(1)
  by (auto simp: nblex_regex_parser_parse_def get_empty)

end

text \<open>C40: the field number \<open>i\<close> (from 0) of a line that matches holds the text of pair \<open>i\<close> of the match, and nothing when that
  pair is empty. Pair 0 is the whole match, so with one name for each group the first name gets the whole match, every other
  name gets the group before its own, and the last group is in no field.\<close>

theorem regex_fields_shifted:
  assumes "jansson X" "P (rx_pattern parser) line = Some ov" "list_all ascii (rx_field_names parser)"
    "distinct (rx_field_names parser)" "ascii line"
  shows "\<exists>ob. nblex_regex_parser_parse P X parser line = Some ob \<and>
    (\<forall>i < length (rx_field_names parser). json_object_get X ob (rx_field_names parser ! i) =
      (if i < length ov \<and> fst (ov ! i) < snd (ov ! i) then json_string X (matched_text line (ov ! i)) else None))"
  using jansson.regex_names_shifted [OF assms(1), where P = P] assms(2-5) by blast

text \<open>The pattern \<open>(\w+) (\w+)\<close> with a name for each of its groups.\<close>

lemma regex_fields_shifted_witness:
  "\<exists>ob. nblex_regex_parser_parse (\<lambda>_ _. Some [(0, 5), (0, 2), (3, 5)]) (tree_ext (\<lambda>_. None) (\<lambda>_. None) (\<lambda>_. True) (\<lambda>_ _. 0) (\<lambda>_. 0))
      \<lparr>rx_pattern = ''(w+) (w+)'', rx_field_names = [''a'', ''b'']\<rparr> ''ab cd'' = Some ob \<and>
    json_object_get (tree_ext (\<lambda>_. None) (\<lambda>_. None) (\<lambda>_. True) (\<lambda>_ _. 0) (\<lambda>_. 0)) ob ''a'' = Some (JStr ''ab cd'') \<and>
    json_object_get (tree_ext (\<lambda>_. None) (\<lambda>_. None) (\<lambda>_. True) (\<lambda>_ _. 0) (\<lambda>_. 0)) ob ''b'' = Some (JStr ''ab'')"
  (is "\<exists>ob. nblex_regex_parser_parse ?P ?X ?R ?l = Some ob \<and> _")
proof -
  let ?ov = "[(0, 5), (0, 2), (3, 5)] :: (u64 \<times> u64) list"
  have "jansson ?X" by (rule tree.jansson_axioms)
  moreover have "?P (rx_pattern ?R) ?l = Some ?ov" by simp
  moreover have "list_all ascii (rx_field_names ?R)" "distinct (rx_field_names ?R)" "ascii ?l" by code_simp+
  ultimately obtain ob where "nblex_regex_parser_parse ?P ?X ?R ?l = Some ob" and
    get: "\<And>i. i < length (rx_field_names ?R) \<Longrightarrow> json_object_get ?X ob (rx_field_names ?R ! i) =
      (if i < length ?ov \<and> fst (?ov ! i) < snd (?ov ! i) then json_string ?X (matched_text ?l (?ov ! i)) else None)"
    using regex_fields_shifted [of ?X ?P ?R ?l ?ov] by blast
  moreover have "json_string ?X (matched_text ?l (0, 5)) = Some (JStr ?l)" "json_string ?X (matched_text ?l (0, 2)) = Some (JStr ''ab'')"
    by code_simp+
  ultimately show ?thesis using get [of 0] get [of 1] by auto
qed

end
