(* ===== verification/Config.thy ===== *)
theory Config
  imports File_Input Pcap_Input
begin

text \<open>
  The configuration file (\<open>core/config.c\<close>): the state machine over the events of the YAML parser, and applying a configuration to
  a world.

  libyaml is a parameter: the list of the events it delivers. A list that ends before the end of the
  stream stands for a parse error. \<open>current_input\<close> and \<open>current_output\<close> are indices into the arrays. Comparing a key
  that is NULL is undefined behaviour.
\<close>

section \<open>Data\<close>

record input_config =
  ic_name :: "string option"
  ic_type :: "string option"
  ic_path :: "string option"
  ic_interface :: "string option"
  ic_filter :: "string option"
  ic_format :: "string option"

record output_config =
  oc_name :: "string option"
  oc_type :: "string option"
  oc_path :: "string option"
  oc_url :: "string option"
  oc_format :: "string option"

record config =
  cf_version :: string
  cf_inputs :: "input_config list"
  cf_outputs :: "output_config list"
  correlation_enabled :: bool
  correlation_window_ms :: int
  worker_threads :: int
  buffer_size :: u64
  memory_limit :: u64

datatype yaml_event =
  YAML_STREAM_START_EVENT | YAML_DOCUMENT_START_EVENT | YAML_DOCUMENT_END_EVENT | YAML_STREAM_END_EVENT
| YAML_MAPPING_START_EVENT | YAML_MAPPING_END_EVENT | YAML_SEQUENCE_START_EVENT | YAML_SEQUENCE_END_EVENT
| YAML_SCALAR_EVENT string | YAML_ALIAS_EVENT

text \<open>The configuration that is built, and the local variables of the loop.\<close>

record yaml_state =
  ys_config :: config
  in_inputs :: bool
  in_outputs :: bool
  in_correlation :: bool
  in_performance :: bool
  in_logs :: bool
  in_network :: bool
  expecting_key :: bool
  current_key :: "string option"
  current_input :: "nat option"
  current_output :: "nat option"

definition empty_input :: input_config where
  "empty_input = \<lparr>ic_name = None, ic_type = None, ic_path = None, ic_interface = None, ic_filter = None, ic_format = None\<rparr>"

definition empty_output :: output_config where
  "empty_output = \<lparr>oc_name = None, oc_type = None, oc_path = None, oc_url = None, oc_format = None\<rparr>"

definition default_config :: config where
  "default_config = \<lparr>cf_version = ''1.0'', cf_inputs = [], cf_outputs = [], correlation_enabled = True,
     correlation_window_ms = 100, worker_threads = 4, buffer_size = 64 * 1024 * 1024, memory_limit = 1024 * 1024 * 1024\<rparr>"

definition initial_yaml :: yaml_state where
  "initial_yaml = \<lparr>ys_config = default_config, in_inputs = False, in_outputs = False, in_correlation = False,
     in_performance = False, in_logs = False, in_network = False, expecting_key = True, current_key = None,
     current_input = None, current_output = None\<rparr>"

section \<open>Values\<close>

definition set_input :: "string \<Rightarrow> string \<Rightarrow> input_config \<Rightarrow> input_config" where
  "set_input key v i =
     (if key = ''name'' then i\<lparr>ic_name := Some v\<rparr>
      else if key = ''type'' then i\<lparr>ic_type := Some v\<rparr>
      else if key = ''path'' then i\<lparr>ic_path := Some v\<rparr>
      else if key = ''interface'' then i\<lparr>ic_interface := Some v\<rparr>
      else if key = ''filter'' then i\<lparr>ic_filter := Some v\<rparr>
      else if key = ''format'' then i\<lparr>ic_format := Some v\<rparr>
      else i)"

definition set_output :: "string \<Rightarrow> string \<Rightarrow> output_config \<Rightarrow> output_config" where
  "set_output key v i =
     (if key = ''name'' then i\<lparr>oc_name := Some v\<rparr>
      else if key = ''type'' then i\<lparr>oc_type := Some v\<rparr>
      else if key = ''path'' then i\<lparr>oc_path := Some v\<rparr>
      else if key = ''url'' then i\<lparr>oc_url := Some v\<rparr>
      else if key = ''format'' then i\<lparr>oc_format := Some v\<rparr>
      else i)"

text \<open>A size with a unit, in \<open>size_t\<close>.\<close>

definition parse_size :: "string \<Rightarrow> u64" where
  "parse_size v =
     (let n = word_of_int (atoi v) in
      if strstr v ''GB'' then n * (1024 * 1024 * 1024)
      else if strstr v ''MB'' then n * (1024 * 1024)
      else if strstr v ''KB'' then n * 1024
      else n)"

definition set_correlation :: "string \<Rightarrow> string \<Rightarrow> config \<Rightarrow> config" where
  "set_correlation key v c =
     (if key = ''enabled'' then c\<lparr>correlation_enabled := (v = ''true'' \<or> v = ''1'')\<rparr>
      else if key = ''window_ms'' then c\<lparr>correlation_window_ms := atoi v\<rparr>
      else c)"

definition set_performance :: "string \<Rightarrow> string \<Rightarrow> config \<Rightarrow> config" where
  "set_performance key v c =
     (if key = ''worker_threads'' then c\<lparr>worker_threads := atoi v\<rparr>
      else if key = ''buffer_size'' then c\<lparr>buffer_size := parse_size v\<rparr>
      else if key = ''memory_limit'' then c\<lparr>memory_limit := parse_size v\<rparr>
      else c)"

definition update_nth :: "nat \<Rightarrow> ('a \<Rightarrow> 'a) \<Rightarrow> 'a list \<Rightarrow> 'a list outcome" where
  "update_nth i f xs = (if i < length xs then Ok (xs[i := f (xs ! i)]) else UB)"

text \<open>A value for a key.\<close>

definition store_value :: "string \<Rightarrow> string \<Rightarrow> yaml_state \<Rightarrow> config outcome" where
  "store_value key v s =
     (let c = ys_config s in
      if key = ''version'' then Ok (c\<lparr>cf_version := v\<rparr>)
      else case current_input s of
          Some i \<Rightarrow> bind_outcome (update_nth i (set_input key v) (cf_inputs c)) (\<lambda>xs. Ok (c\<lparr>cf_inputs := xs\<rparr>))
        | None \<Rightarrow> (case current_output s of
            Some i \<Rightarrow> bind_outcome (update_nth i (set_output key v) (cf_outputs c)) (\<lambda>xs. Ok (c\<lparr>cf_outputs := xs\<rparr>))
          | None \<Rightarrow> Ok (if in_correlation s then set_correlation key v c
                        else if in_performance s then set_performance key v c else c)))"

section \<open>The state machine\<close>

definition yaml_scalar :: "string \<Rightarrow> yaml_state \<Rightarrow> yaml_state outcome" where
  "yaml_scalar v s =
     (if expecting_key s then
        (let s1 = s\<lparr>current_key := Some v, expecting_key := False\<rparr>
         in Ok (if v = ''version'' then s1
                else if v = ''inputs'' then s1\<lparr>in_inputs := True\<rparr>
                else if v = ''outputs'' then s1\<lparr>in_outputs := True\<rparr>
                else if v = ''correlation'' then s1\<lparr>in_correlation := True\<rparr>
                else if v = ''performance'' then s1\<lparr>in_performance := True\<rparr>
                else s1))
      else (case current_key s of
          None \<Rightarrow> UB
        | Some key \<Rightarrow> bind_outcome (store_value key v s) (\<lambda>c.
            Ok (s\<lparr>ys_config := c, current_key := None, expecting_key := True\<rparr>))))"

definition yaml_mapping_start :: "yaml_state \<Rightarrow> yaml_state" where
  "yaml_mapping_start s =
     (let c = ys_config s;
          s1 = (if in_inputs s \<and> \<not> in_logs s \<and> \<not> in_network s then
                  s\<lparr>ys_config := c\<lparr>cf_inputs := cf_inputs c @ [empty_input]\<rparr>, current_input := Some (length (cf_inputs c))\<rparr>
                else if in_outputs s then
                  s\<lparr>ys_config := c\<lparr>cf_outputs := cf_outputs c @ [empty_output]\<rparr>, current_output := Some (length (cf_outputs c))\<rparr>
                else s)
      in s1\<lparr>expecting_key := True\<rparr>)"

definition yaml_mapping_end :: "yaml_state \<Rightarrow> yaml_state" where
  "yaml_mapping_end s = s\<lparr>in_logs := False, in_network := False, in_correlation := False, in_performance := False,
     current_input := None, current_output := None, expecting_key := True\<rparr>"

definition yaml_sequence_start :: "yaml_state \<Rightarrow> yaml_state" where
  "yaml_sequence_start s =
     (if current_key s = Some ''logs'' then s\<lparr>in_logs := True\<rparr>
      else if current_key s = Some ''network'' then s\<lparr>in_network := True\<rparr>
      else s)"

fun yaml_step :: "yaml_event \<Rightarrow> yaml_state \<Rightarrow> yaml_state outcome" where
  "yaml_step (YAML_SCALAR_EVENT v) s = yaml_scalar v s"
| "yaml_step YAML_MAPPING_START_EVENT s = Ok (yaml_mapping_start s)"
| "yaml_step YAML_MAPPING_END_EVENT s = Ok (yaml_mapping_end s)"
| "yaml_step YAML_SEQUENCE_START_EVENT s = Ok (yaml_sequence_start s)"
| "yaml_step ev s = Ok s"

text \<open>The loop over the events; \<open>None\<close> is a parse error.\<close>

fun yaml_loop :: "yaml_event list \<Rightarrow> yaml_state \<Rightarrow> config option outcome" where
  "yaml_loop [] s = Ok None"
| "yaml_loop (ev # evs) s = bind_outcome (yaml_step ev s) (\<lambda>s1.
     if ev = YAML_STREAM_END_EVENT then Ok (Some (ys_config s1)) else yaml_loop evs s1)"

text \<open>\<open>None\<close> for a file that cannot be opened.\<close>

definition nblex_config_load_yaml :: "yaml_event list option \<Rightarrow> config option outcome" where
  "nblex_config_load_yaml file = (case file of None \<Rightarrow> Ok None | Some evs \<Rightarrow> yaml_loop evs initial_yaml)"

section \<open>Reading a configuration\<close>

definition nblex_config_get_string :: "config \<Rightarrow> string \<Rightarrow> string option" where
  "nblex_config_get_string c key = (if key = ''version'' then Some (cf_version c) else None)"

definition nblex_config_get_int :: "config \<Rightarrow> string \<Rightarrow> int \<Rightarrow> int" where
  "nblex_config_get_int c key default_value =
     (if key = ''correlation.enabled'' then of_bool (correlation_enabled c)
      else if key = ''correlation.window_ms'' then correlation_window_ms c
      else if key = ''performance.worker_threads'' then worker_threads c
      else default_value)"

definition nblex_config_get_size :: "config \<Rightarrow> string \<Rightarrow> u64 \<Rightarrow> u64" where
  "nblex_config_get_size c key default_value =
     (if key = ''performance.buffer_size'' then buffer_size c
      else if key = ''performance.memory_limit'' then memory_limit c
      else default_value)"

section \<open>Applying a configuration\<close>

text \<open>The world, the data of the file inputs, and the network inputs, which are not in the world.\<close>

type_synonym ('j, 'x) set_up = "('j, 'x) world_scheme \<times> file_input list \<times> (nblex_input \<times> pcap_input) list"

text \<open>Changing the input that was added last, through its pointer.\<close>

definition update_last_input :: "(nblex_input \<Rightarrow> nblex_input) \<Rightarrow> ('j, 'x) world_scheme \<Rightarrow> ('j, 'x) world_scheme" where
  "update_last_input f w = w\<lparr>inputs := butlast (inputs w) @ [f (last (inputs w))]\<rparr>"

definition format_of_string :: "string \<Rightarrow> nblex_log_format option" where
  "format_of_string f =
     (if f = ''json'' then Some NBLEX_FORMAT_JSON
      else if f = ''logfmt'' then Some NBLEX_FORMAT_LOGFMT
      else if f = ''syslog'' then Some NBLEX_FORMAT_SYSLOG
      else if f = ''nginx'' then Some NBLEX_FORMAT_NGINX
      else None)"

definition configured_format :: "string option \<Rightarrow> string \<Rightarrow> nblex_log_format option" where
  "configured_format format path = (case format of
      Some f \<Rightarrow> format_of_string f
    | None \<Rightarrow> Some (nblex_detect_log_format (Some path)))"

definition apply_filter :: "'j ext \<Rightarrow> string option \<Rightarrow> nblex_input \<Rightarrow> nblex_input" where
  "apply_filter X flt i = (case flt of None \<Rightarrow> i | Some f \<Rightarrow> snd (nblex_input_set_filter X i (Some f)))"

definition apply_input :: "'j ext \<Rightarrow> input_config \<Rightarrow> ('j, 'x) set_up \<Rightarrow> ('j, 'x) set_up" where
  "apply_input X ic st = (case st of (w, files, pcaps) \<Rightarrow>
     if ic_type ic = None then st
     else if ic_type ic = Some ''file'' \<and> ic_path ic \<noteq> None then
       (case nblex_input_file_new (ic_path ic) w of
          (None, w1) \<Rightarrow> (w1, files, pcaps)
        | (Some (_, data), w1) \<Rightarrow>
            (update_last_input (\<lambda>i. apply_filter X (ic_filter ic)
               (case configured_format (ic_format ic) (the (ic_path ic)) of
                  None \<Rightarrow> i | Some f \<Rightarrow> snd (nblex_input_set_format i f))) w1, files @ [data], pcaps))
     else if ic_type ic = Some ''pcap'' \<and> ic_interface ic \<noteq> None then
       (case nblex_input_pcap_new (ic_interface ic) of
          None \<Rightarrow> st
        | Some (i, data) \<Rightarrow> (w, files, pcaps @ [(apply_filter X (ic_filter ic) i, data)]))
     else st)"

definition nblex_config_apply :: "'j ext \<Rightarrow> config \<Rightarrow> ('j, 'x) world_scheme \<Rightarrow> int \<times> ('j, 'x) set_up" where
  "nblex_config_apply X c w =
     (let w1 = (if correlation_enabled c then
                  w\<lparr>correlation := map_option (\<lambda>corr. snd (nblex_correlation_add_strategy corr NBLEX_CORR_TIME_BASED
                      (word_of_int (correlation_window_ms c)))) (correlation w)\<rparr>
                else w)
      in (0, fold (apply_input X) (cf_inputs c) (w1, [], [])))"

end
