(* ===== verification/Http_Output.thy ===== *)
theory Http_Output
  imports Events
begin

text \<open>
  The HTTP output (\<open>output/http_output.c\<close>).

  What the options of libcurl do is not modelled: the handle is the list of the options that have been set, in their
  order, and \<open>curl_easy_perform\<close> is a parameter \<open>perform\<close>, which is given that list. The pointer to the body is valid during the
  request only, and so is the last option of the list.
\<close>

datatype curl_option =
  CURLOPT_URL string
| CURLOPT_POST int
| CURLOPT_HTTPGET int
| CURLOPT_CUSTOMREQUEST "string option"
| CURLOPT_HTTPHEADER "string list"
| CURLOPT_TIMEOUT int
| CURLOPT_SSL_VERIFYPEER int
| CURLOPT_SSL_VERIFYHOST int
| CURLOPT_POSTFIELDS string
| CURLOPT_POSTFIELDSIZE nat

record http_output =
  ho_url :: string
  ho_method :: string
  ho_content_type :: string
  ho_user_agent :: string
  ho_timeout_seconds :: int
  ho_options :: "curl_option list"

text \<open>\<open>snprintf\<close> into 256 bytes.\<close>

definition header_text :: "string \<Rightarrow> string \<Rightarrow> string" where
  "header_text name v = take 255 (name @ '': '' @ v)"

definition curl_easy_setopt :: "curl_option list \<Rightarrow> http_output \<Rightarrow> http_output" where
  "curl_easy_setopt opts out = out\<lparr>ho_options := ho_options out @ opts\<rparr>"

text \<open>\<open>init\<close> says whether \<open>curl_easy_init\<close> gives a handle.\<close>

definition nblex_http_output_new :: "bool \<Rightarrow> string option \<Rightarrow> http_output option" where
  "nblex_http_output_new init url = (case url of
      None \<Rightarrow> None
    | Some u \<Rightarrow>
        if \<not> init then None
        else
          let out = \<lparr>ho_url = u, ho_method = ''POST'', ho_content_type = ''application/json'',
                ho_user_agent = ''nblex/1.0'', ho_timeout_seconds = 30, ho_options = []\<rparr>
          in Some (curl_easy_setopt
               [CURLOPT_URL u, CURLOPT_POST 1,
                CURLOPT_HTTPHEADER [header_text ''Content-Type'' (ho_content_type out), header_text ''User-Agent'' (ho_user_agent out)],
                CURLOPT_TIMEOUT (ho_timeout_seconds out), CURLOPT_SSL_VERIFYPEER 0, CURLOPT_SSL_VERIFYHOST 0] out))"

definition nblex_http_output_set_method :: "string option \<Rightarrow> http_output \<Rightarrow> http_output" where
  "nblex_http_output_set_method method out = (case method of
      None \<Rightarrow> out
    | Some m \<Rightarrow> curl_easy_setopt
        (if m = ''POST'' then [CURLOPT_POST 1, CURLOPT_HTTPGET 0, CURLOPT_CUSTOMREQUEST None]
         else if m = ''PUT'' then [CURLOPT_POST 0, CURLOPT_HTTPGET 0, CURLOPT_CUSTOMREQUEST (Some ''PUT'')]
         else [CURLOPT_POST 0, CURLOPT_HTTPGET 0, CURLOPT_CUSTOMREQUEST (Some m)]) (out\<lparr>ho_method := m\<rparr>))"

definition nblex_http_output_set_timeout :: "int \<Rightarrow> http_output \<Rightarrow> http_output" where
  "nblex_http_output_set_timeout timeout_seconds out =
     (if timeout_seconds \<le> 0 then out
      else curl_easy_setopt [CURLOPT_TIMEOUT timeout_seconds] (out\<lparr>ho_timeout_seconds := timeout_seconds\<rparr>))"

definition CURLE_OK :: int where
  "CURLE_OK = 0"

definition nblex_http_output_write ::
  "(curl_option list \<Rightarrow> int) \<Rightarrow> 'j ext \<Rightarrow> 'j event option \<Rightarrow> http_output \<Rightarrow> int \<times> http_output" where
  "nblex_http_output_write perform X event out = (case event of
      None \<Rightarrow> (- 1, out)
    | Some ev \<Rightarrow> (case nblex_event_to_json_string X ev of
        None \<Rightarrow> (- 1, out)
      | Some json_str \<Rightarrow>
          let out1 = curl_easy_setopt [CURLOPT_POSTFIELDS json_str, CURLOPT_POSTFIELDSIZE (length json_str)] out
          in (if perform (ho_options out1) \<noteq> CURLE_OK then - 1 else 0, out1)))"

end
