(* ===== verification/Program.thy ===== *)
theory Program
  imports Cli Config File_Output Http_Output Metrics_Output
begin

text \<open>
  The function \<open>main\<close> (\<open>cli/main.c\<close>): the options, the set-up of the inputs and of the output, and the start.

  \<open>getopt_long\<close> is the list of the options it delivers, each with its argument. What the operating system and the
  libraries say is the record \<open>environment\<close>. The lines written to standard output are kept, the text of the version and of
  the usage and everything on standard error are not. Every failure after the options ends the process with 1 (\<open>None\<close> below).
\<close>

section \<open>Options\<close>

record cli_options =
  log_path :: "string option"
  log_format :: "string option"
  network_iface :: "string option"
  opt_filter :: "string option"
  opt_query :: "string option"
  output_format :: string
  output_path :: "string option"
  output_url :: "string option"
  config_file :: "string option"

definition default_options :: cli_options where
  "default_options = \<lparr>log_path = None, log_format = None, network_iface = None, opt_filter = None, opt_query = None,
     output_format = ''json'', output_path = None, output_url = None, config_file = None\<rparr>"

text \<open>The loop over the options; on the left the exit code of a process that ends there.\<close>

fun parse_options :: "(char \<times> string) list \<Rightarrow> cli_options \<Rightarrow> int + cli_options" where
  "parse_options [] opts = Inr opts"
| "parse_options ((opt, optarg) # rest) opts =
     (if opt = CHR ''l'' then parse_options rest (opts\<lparr>log_path := Some optarg\<rparr>)
      else if opt = CHR ''F'' then parse_options rest (opts\<lparr>log_format := Some optarg\<rparr>)
      else if opt = CHR ''n'' then parse_options rest (opts\<lparr>network_iface := Some optarg\<rparr>)
      else if opt = CHR ''f'' then parse_options rest (opts\<lparr>opt_filter := Some optarg\<rparr>)
      else if opt = CHR ''q'' then parse_options rest (opts\<lparr>opt_query := Some optarg\<rparr>)
      else if opt = CHR ''o'' then parse_options rest (opts\<lparr>output_format := optarg\<rparr>)
      else if opt = CHR ''O'' then parse_options rest (opts\<lparr>output_path := Some optarg\<rparr>)
      else if opt = CHR ''U'' then parse_options rest (opts\<lparr>output_url := Some optarg\<rparr>)
      else if opt = CHR ''c'' then parse_options rest (opts\<lparr>config_file := Some optarg\<rparr>)
      else if opt = CHR ''v'' then Inl 0
      else if opt = CHR ''h'' then Inl 0
      else Inl 1)"

section \<open>The process\<close>

text \<open>The world, the data of the inputs, the three output modules, and the directory of the output file.\<close>

record 'j process =
  pr_world :: "'j cli_world"
  pr_files :: "file_input list"
  pr_pcaps :: "(nblex_input \<times> pcap_input) list"
  pr_file_output :: "file_output option"
  pr_http_output :: "http_output option"
  pr_metrics_output :: "'j metrics_output option"
  pr_directory :: directory

record environment =
  env_yaml :: "string \<Rightarrow> yaml_event list option"
  env_os :: os_calls
  env_directory :: directory
  env_curl :: bool
  env_metrics_file :: bool

definition say :: "string \<Rightarrow> ('j, 'x) cli_state \<Rightarrow> ('j, 'x) cli_state" where
  "say line w = w\<lparr>stdout := stdout w @ [line]\<rparr>"

definition say_setup :: "string \<Rightarrow> 'j process \<Rightarrow> 'j process" where
  "say_setup line p = p\<lparr>pr_world := say line (pr_world p)\<rparr>"

section \<open>Inputs\<close>

fun format_name :: "nblex_log_format \<Rightarrow> string" where
  "format_name NBLEX_FORMAT_JSON = ''json''"
| "format_name NBLEX_FORMAT_LOGFMT = ''logfmt''"
| "format_name NBLEX_FORMAT_SYSLOG = ''syslog''"
| "format_name NBLEX_FORMAT_NGINX = ''nginx''"
| "format_name NBLEX_FORMAT_REGEX = ''json''"

definition add_log_input :: "string option \<Rightarrow> string \<Rightarrow> 'j process \<Rightarrow> 'j process option" where
  "add_log_input format path p = (case nblex_input_file_new (Some path) (pr_world p) of
      (None, w) \<Rightarrow> None
    | (Some (_, data), w) \<Rightarrow> (case configured_format format path of
        None \<Rightarrow> None
      | Some f \<Rightarrow>
          let w1 = update_last_input (\<lambda>i. snd (nblex_input_set_format i f)) w
          in Some (p\<lparr>pr_world := say (''Monitoring logs: '' @ path @ '' (format: '' @ format_name f @ '')'') w1,
               pr_files := pr_files p @ [data]\<rparr>)))"

definition add_network_input :: "string \<Rightarrow> 'j process \<Rightarrow> 'j process option" where
  "add_network_input iface p = (case nblex_input_pcap_new (Some iface) of
      None \<Rightarrow> None
    | Some input \<Rightarrow> Some (say_setup (''Monitoring network: '' @ iface) (p\<lparr>pr_pcaps := pr_pcaps p @ [input]\<rparr>)))"

text \<open>The filter is set on the log input (the last of the world) and on the network input, where they exist.\<close>

definition filter_log_input :: "'j ext \<Rightarrow> string \<Rightarrow> 'j process \<Rightarrow> 'j process" where
  "filter_log_input X expr p = (case nblex_input_set_filter X (last (inputs (pr_world p))) (Some expr) of
      (rc, i) \<Rightarrow>
        let p1 = p\<lparr>pr_world := update_last_input (\<lambda>_. i) (pr_world p)\<rparr>
        in if rc \<noteq> 0 then p1 else say_setup (''Filter applied: '' @ expr) p1)"

definition filter_network_input :: "'j ext \<Rightarrow> string \<Rightarrow> 'j process \<Rightarrow> 'j process" where
  "filter_network_input X expr p =
     p\<lparr>pr_pcaps := map (\<lambda>(i, data). (snd (nblex_input_set_filter X i (Some expr)), data)) (pr_pcaps p)\<rparr>"

definition filter_inputs :: "'j ext \<Rightarrow> cli_options \<Rightarrow> 'j process \<Rightarrow> 'j process" where
  "filter_inputs X opts p = (case opt_filter opts of
      None \<Rightarrow> p
    | Some expr \<Rightarrow> filter_network_input X expr (if log_path opts = None then p else filter_log_input X expr p))"

definition command_line_inputs :: "'j ext \<Rightarrow> cli_options \<Rightarrow> 'j process \<Rightarrow> 'j process option" where
  "command_line_inputs X opts p =
     Option.bind (case log_path opts of None \<Rightarrow> Some p | Some path \<Rightarrow> add_log_input (log_format opts) path p) (\<lambda>p1.
     Option.bind (case network_iface opts of None \<Rightarrow> Some p1 | Some iface \<Rightarrow> add_network_input iface p1) (\<lambda>p2.
     Some (filter_inputs X opts p2)))"

text \<open>The configuration file replaces the inputs of the command line.\<close>

definition configured_inputs :: "environment \<Rightarrow> 'j ext \<Rightarrow> string \<Rightarrow> 'j process \<Rightarrow> 'j process option outcome" where
  "configured_inputs env X path p = bind_outcome (nblex_config_load_yaml (env_yaml env path)) (\<lambda>r. case r of
      None \<Rightarrow> Ok None
    | Some config \<Rightarrow>
        (case nblex_config_apply X config (say (''Loaded configuration from '' @ path) (pr_world p)) of
          (_, w, files, pcaps) \<Rightarrow> Ok (Some (p\<lparr>pr_world := w, pr_files := files, pr_pcaps := pcaps\<rparr>))))"

definition set_up_inputs :: "environment \<Rightarrow> 'j ext \<Rightarrow> cli_options \<Rightarrow> 'j process \<Rightarrow> 'j process option outcome" where
  "set_up_inputs env X opts p = (case config_file opts of
      None \<Rightarrow> Ok (command_line_inputs X opts p)
    | Some path \<Rightarrow> configured_inputs env X path p)"

section \<open>Output\<close>

text \<open>A module has been created: its pointer, the handler, and a line.\<close>

definition open_output :: "output_module \<Rightarrow> string \<Rightarrow> 'j process \<Rightarrow> 'j process" where
  "open_output m line p =
     (let w = pr_world p; w1 = w\<lparr>out_open := (out_open w)(m := True)\<rparr>
      in p\<lparr>pr_world := say line (snd (nblex_set_event_handler (Some (EVENT_HANDLER_MULTI, None)) w1))\<rparr>)"

definition open_file_output :: "environment \<Rightarrow> cli_options \<Rightarrow> 'j process \<Rightarrow> 'j process option" where
  "open_file_output env opts p = (case output_path opts of
      None \<Rightarrow> None
    | Some path \<Rightarrow> (case nblex_file_output_new (env_os env) (Some path) (Some ''json'') (pr_directory p) of
        (None, _) \<Rightarrow> None
      | (Some out, dir) \<Rightarrow>
          Some (open_output FILE_OUTPUT (''Writing to file: '' @ path) (p\<lparr>pr_file_output := Some out, pr_directory := dir\<rparr>))))"

definition open_http_output :: "environment \<Rightarrow> cli_options \<Rightarrow> 'j process \<Rightarrow> 'j process option" where
  "open_http_output env opts p = (case output_url opts of
      None \<Rightarrow> None
    | Some url \<Rightarrow> (case nblex_http_output_new (env_curl env) (Some url) of
        None \<Rightarrow> None
      | Some out \<Rightarrow> Some (open_output HTTP_OUTPUT (''Sending to URL: '' @ url) (p\<lparr>pr_http_output := Some out\<rparr>))))"

definition open_metrics_output :: "environment \<Rightarrow> cli_options \<Rightarrow> 'j process \<Rightarrow> 'j process option" where
  "open_metrics_output env opts p = (case output_path opts of
      None \<Rightarrow> None
    | Some path \<Rightarrow>
        (case nblex_metrics_output_new (os_now (env_os env)) (Some path) (Some ''prometheus'') (env_metrics_file env) of
          None \<Rightarrow> None
        | Some out \<Rightarrow> Some (open_output METRICS_OUTPUT (''Writing metrics to: '' @ path) (p\<lparr>pr_metrics_output := Some out\<rparr>))))"

definition open_json_output :: "cli_options \<Rightarrow> 'j process \<Rightarrow> 'j process" where
  "open_json_output opts p = (case opt_query opts of
      Some query \<Rightarrow> p\<lparr>pr_world := say (''Query: '' @ query)
        (snd (nblex_set_event_handler (Some (EVENT_HANDLER_QUERY, Some query)) (pr_world p)))\<rparr>
    | None \<Rightarrow> p\<lparr>pr_world := snd (nblex_set_event_handler (Some (EVENT_HANDLER_JSON, None)) (pr_world p))\<rparr>)"

definition set_up_output :: "environment \<Rightarrow> cli_options \<Rightarrow> 'j process \<Rightarrow> 'j process option" where
  "set_up_output env opts p =
     (if output_format opts = ''file'' then open_file_output env opts p
      else if output_format opts = ''http'' then open_http_output env opts p
      else if output_format opts = ''metrics'' then open_metrics_output env opts p
      else if output_format opts = ''json'' then Some (open_json_output opts p)
      else None)"

section \<open>The program\<close>

definition initial_process :: "environment \<Rightarrow> 'j process" where
  "initial_process env = \<lparr>pr_world = initial_program, pr_files = [], pr_pcaps = [], pr_file_output = None,
     pr_http_output = None, pr_metrics_output = None, pr_directory = env_directory env\<rparr>"

definition start_process :: "'j ext \<Rightarrow> (string \<Rightarrow> nblex_input \<Rightarrow> int) \<Rightarrow> 'j process \<Rightarrow> int + 'j process" where
  "start_process X V p = (case nblex_world_start X V (say ''Starting nblex...'' (pr_world p)) of
      (rc, w) \<Rightarrow>
        if rc \<noteq> 0 then Inl 1
        else Inr (p\<lparr>pr_world := say '''' (say ''Running... (Press Ctrl+C to stop)'' w)\<rparr>))"

text \<open>\<open>main\<close> until the event loop is entered: the exit code, or the process.\<close>

definition main_program ::
  "environment \<Rightarrow> 'j ext \<Rightarrow> (string \<Rightarrow> nblex_input \<Rightarrow> int) \<Rightarrow> (char \<times> string) list \<Rightarrow> (int + 'j process) outcome" where
  "main_program env X V argv = (case parse_options argv default_options of
      Inl rc \<Rightarrow> Ok (Inl rc)
    | Inr opts \<Rightarrow>
        if log_path opts = None \<and> network_iface opts = None \<and> config_file opts = None then Ok (Inl 1)
        else (case nblex_world_open initial_program of (rc, w) \<Rightarrow>
          if rc \<noteq> 0 then Ok (Inl 1)
          else bind_outcome (set_up_inputs env X opts ((initial_process env)\<lparr>pr_world := w\<rparr>)) (\<lambda>r.
            Ok (case Option.bind r (set_up_output env opts) of
                  None \<Rightarrow> Inl 1
                | Some p \<Rightarrow> start_process X V p))))"

text \<open>The event loop and the clean-up: the exit code is 0 whatever the loop returns, and the metrics are flushed once more (what
  their file then holds is the last component).\<close>

definition main_loop ::
  "'j ext \<Rightarrow> int \<Rightarrow> ('j cli_world \<Rightarrow> 'j cli_world) \<Rightarrow> 'j process \<Rightarrow> (int \<times> 'j process \<times> string option) outcome" where
  "main_loop X now uv_run p =
     (let p1 = p\<lparr>pr_world := snd (nblex_world_run uv_run (pr_world p))\<rparr>
      in case pr_metrics_output p1 of
           None \<Rightarrow> Ok (0, p1, None)
         | Some out \<Rightarrow> bind_outcome (nblex_metrics_output_free X now out) (\<lambda>file. Ok (0, p1, Some file)))"

end
