(* ===== verification/Config_Props.thy ===== *)
theory Config_Props
  imports Config
begin

text \<open>
  Properties of the configuration file: whatever the events of the YAML parser are, the state machine has no undefined
  behaviour; and what it makes of a configuration file with all the sections.
\<close>

section \<open>No event is undefined behaviour\<close>

text \<open>A value has a key, and the current input and the current output exist.\<close>

definition yaml_ok :: "yaml_state \<Rightarrow> bool" where
  "yaml_ok s = ((\<not> expecting_key s \<longrightarrow> current_key s \<noteq> None) \<and>
     (\<forall>i. current_input s = Some i \<longrightarrow> i < length (cf_inputs (ys_config s))) \<and>
     (\<forall>i. current_output s = Some i \<longrightarrow> i < length (cf_outputs (ys_config s))))"

lemma yaml_ok_initial [simp]: "yaml_ok initial_yaml"
  by (simp add: yaml_ok_def initial_yaml_def)

lemma set_correlation_lists [simp]:
  "cf_inputs (set_correlation k v c) = cf_inputs c" "cf_outputs (set_correlation k v c) = cf_outputs c"
  by (simp_all add: set_correlation_def)

lemma set_performance_lists [simp]:
  "cf_inputs (set_performance k v c) = cf_inputs c" "cf_outputs (set_performance k v c) = cf_outputs c"
  by (simp_all add: set_performance_def)

lemma store_value_ok:
  assumes "yaml_ok s"
  shows "\<exists>c. store_value key v s = Ok c \<and> length (cf_inputs c) = length (cf_inputs (ys_config s)) \<and>
    length (cf_outputs c) = length (cf_outputs (ys_config s))"
  using assms by (auto simp: store_value_def yaml_ok_def update_nth_def Let_def split: option.splits)

lemma yaml_scalar_ok:
  assumes "yaml_ok s"
  shows "\<exists>s1. yaml_scalar v s = Ok s1 \<and> yaml_ok s1"
proof (cases "expecting_key s")
  case True
  then show ?thesis using assms by (auto simp: yaml_scalar_def yaml_ok_def Let_def)
next
  case False
  then obtain key where key: "current_key s = Some key" using assms by (auto simp: yaml_ok_def)
  obtain c where "store_value key v s = Ok c" "length (cf_inputs c) = length (cf_inputs (ys_config s))"
    "length (cf_outputs c) = length (cf_outputs (ys_config s))"
    using store_value_ok [OF assms] by blast
  then show ?thesis using False key assms by (simp add: yaml_scalar_def yaml_ok_def)
qed

lemma yaml_mapping_start_ok: "yaml_ok s \<Longrightarrow> yaml_ok (yaml_mapping_start s)"
  by (auto simp: yaml_mapping_start_def yaml_ok_def Let_def)

lemma yaml_step_ok:
  assumes "yaml_ok s"
  shows "\<exists>s1. yaml_step ev s = Ok s1 \<and> yaml_ok s1"
proof (cases ev)
  case (YAML_SCALAR_EVENT v)
  then show ?thesis using yaml_scalar_ok [OF assms] by simp
next
  case YAML_MAPPING_START_EVENT
  then show ?thesis using yaml_mapping_start_ok [OF assms] by simp
next
  case YAML_SEQUENCE_START_EVENT
  then show ?thesis using assms by (simp add: yaml_sequence_start_def yaml_ok_def)
qed (use assms in \<open>simp_all add: yaml_mapping_end_def yaml_ok_def\<close>)

lemma yaml_loop_result:
  "yaml_ok s \<Longrightarrow> yaml_loop evs s \<noteq> UB \<and> (yaml_loop evs s = Ok None) = (YAML_STREAM_END_EVENT \<notin> set evs)"
proof (induction evs arbitrary: s)
  case (Cons ev evs)
  obtain s1 where step: "yaml_step ev s = Ok s1" "yaml_ok s1" using yaml_step_ok [OF Cons.prems] by blast
  show ?case using Cons.IH [OF step(2)] by (auto simp: step(1))
qed simp

text \<open>C38: loading a configuration file never compares a key that is not there and never writes outside the arrays of
  inputs and outputs, whatever the order of the events is; and it gives a configuration exactly for a file that can be
  opened and whose events reach the end of the stream.\<close>

theorem config_load_safe:
  "nblex_config_load_yaml file \<noteq> UB \<and>
   (nblex_config_load_yaml file = Ok None) = (case file of None \<Rightarrow> True | Some evs \<Rightarrow> YAML_STREAM_END_EVENT \<notin> set evs)"
  using yaml_loop_result [OF yaml_ok_initial]
  by (simp add: nblex_config_load_yaml_def split: option.split)

section \<open>A configuration file with all its sections\<close>

type_synonym item = "(string \<times> string) list"

definition pair_events :: "item \<Rightarrow> yaml_event list" where
  "pair_events kvs = concat (map (\<lambda>(k, v). [YAML_SCALAR_EVENT k, YAML_SCALAR_EVENT v]) kvs)"

definition mapping_events :: "item \<Rightarrow> yaml_event list" where
  "mapping_events kvs = YAML_MAPPING_START_EVENT # pair_events kvs @ [YAML_MAPPING_END_EVENT]"

definition sequence_events :: "item list \<Rightarrow> yaml_event list" where
  "sequence_events items = YAML_SEQUENCE_START_EVENT # concat (map mapping_events items) @ [YAML_SEQUENCE_END_EVENT]"

text \<open>The file of the documentation: log inputs and network inputs, outputs, and the settings of the correlation.\<close>

definition document_events :: "item list \<Rightarrow> item list \<Rightarrow> item list \<Rightarrow> item \<Rightarrow> yaml_event list" where
  "document_events logs network outs corr =
     [YAML_STREAM_START_EVENT, YAML_DOCUMENT_START_EVENT, YAML_MAPPING_START_EVENT,
      YAML_SCALAR_EVENT ''inputs'', YAML_MAPPING_START_EVENT, YAML_SCALAR_EVENT ''logs''] @ sequence_events logs @
     [YAML_SCALAR_EVENT ''network''] @ sequence_events network @
     [YAML_MAPPING_END_EVENT, YAML_SCALAR_EVENT ''outputs''] @ sequence_events outs @
     [YAML_SCALAR_EVENT ''correlation''] @ mapping_events corr @
     [YAML_MAPPING_END_EVENT, YAML_DOCUMENT_END_EVENT, YAML_STREAM_END_EVENT]"

definition plain_item :: "item \<Rightarrow> bool" where
  "plain_item kvs = (kvs \<noteq> [] \<and> (\<forall>k \<in> fst ` set kvs. k \<notin> {''version'', ''inputs'', ''outputs'', ''correlation'', ''performance''}))"

definition set_pairs :: "item \<Rightarrow> input_config \<Rightarrow> input_config" where
  "set_pairs kvs i = fold (\<lambda>(k, v). set_input k v) kvs i"

definition input_of :: "item \<Rightarrow> input_config" where
  "input_of kvs = set_pairs kvs empty_input"

text \<open>The steps of some events, the end of the stream not among them.\<close>

fun yaml_steps :: "yaml_event list \<Rightarrow> yaml_state \<Rightarrow> yaml_state outcome" where
  "yaml_steps [] s = Ok s"
| "yaml_steps (ev # evs) s = bind_outcome (yaml_step ev s) (yaml_steps evs)"

lemma yaml_steps_append [simp]: "yaml_steps (xs @ ys) s = bind_outcome (yaml_steps xs s) (yaml_steps ys)"
  by (induction xs arbitrary: s) (simp_all add: bind_outcome_assoc cong: bind_outcome_cong)

lemma yaml_loop_steps:
  assumes "YAML_STREAM_END_EVENT \<notin> set evs"
  shows "yaml_loop (evs @ [YAML_STREAM_END_EVENT]) s = bind_outcome (yaml_steps evs s) (\<lambda>s1. Ok (Some (ys_config s1)))"
  using assms by (induction evs arbitrary: s) (auto simp: bind_outcome_assoc)

text \<open>The state after the flags have been set: \<open>outs\<close> and \<open>corr\<close> are set by the keys and change nothing while
  \<open>in_inputs\<close> is set.\<close>

definition reading :: "input_config list \<Rightarrow> bool \<Rightarrow> bool \<Rightarrow> bool \<Rightarrow> bool \<Rightarrow> string option \<Rightarrow> bool \<Rightarrow> nat option \<Rightarrow> yaml_state" where
  "reading ins logs net outs corr key expect cur =
     \<lparr>ys_config = default_config\<lparr>cf_inputs := ins\<rparr>, in_inputs = True, in_outputs = outs, in_correlation = corr,
      in_performance = False, in_logs = logs, in_network = net, expecting_key = expect, current_key = key,
      current_input = cur, current_output = None\<rparr>"

text \<open>Two scalars in a mapping: the key and its value.\<close>

lemma pair_step:
  assumes "k \<notin> {''version'', ''inputs'', ''outputs'', ''correlation'', ''performance''}"
  shows "i < length ins \<Longrightarrow>
      yaml_steps [YAML_SCALAR_EVENT k, YAML_SCALAR_EVENT v] (reading ins logs net outs corr key True (Some i)) =
      Ok (reading (ins[i := set_input k v (ins ! i)]) logs net outs corr None True (Some i))"
    and "yaml_steps [YAML_SCALAR_EVENT k, YAML_SCALAR_EVENT v] (reading ins logs net outs False key True None) =
      Ok (reading ins logs net outs False None True None)"
  using assms by (simp_all add: reading_def yaml_scalar_def store_value_def update_nth_def)

lemma pair_events_Cons: "pair_events ((k, v) # kvs) = [YAML_SCALAR_EVENT k, YAML_SCALAR_EVENT v] @ pair_events kvs"
  by (simp add: pair_events_def)

lemma pairs_stored:
  assumes "plain_item kvs" "i < length ins"
  shows "yaml_steps (pair_events kvs) (reading ins logs net outs corr key True (Some i)) =
    Ok (reading (ins[i := set_pairs kvs (ins ! i)]) logs net outs corr None True (Some i))"
  using assms
proof (induction kvs arbitrary: ins key)
  case (Cons kv kvs)
  obtain k v where kv: "kv = (k, v)" by (cases kv)
  show ?case
  proof (cases "kvs = []")
    case True
    then show ?thesis using Cons.prems kv
      by (simp add: pair_events_def plain_item_def set_pairs_def pair_step(1) [simplified])
  next
    case False
    then show ?thesis using Cons.prems kv Cons.IH
      unfolding kv pair_events_Cons yaml_steps_append
      by (subst pair_step(1)) (auto simp: plain_item_def set_pairs_def)
  qed
qed (simp add: plain_item_def)

lemma pairs_dropped:
  assumes "plain_item kvs"
  shows "yaml_steps (pair_events kvs) (reading ins logs net outs False key True None) =
    Ok (reading ins logs net outs False None True None)"
  using assms
proof (induction kvs arbitrary: key)
  case (Cons kv kvs)
  obtain k v where kv: "kv = (k, v)" by (cases kv)
  show ?case
  proof (cases "kvs = []")
    case True
    then show ?thesis using Cons.prems kv
      by (simp add: pair_events_def plain_item_def pair_step(2) [simplified])
  next
    case False
    then show ?thesis using Cons.prems Cons.IH
      unfolding kv pair_events_Cons yaml_steps_append
      by (subst pair_step(2)) (auto simp: plain_item_def)
  qed
qed (simp add: plain_item_def)

text \<open>An item of a list: the mapping is a new input, unless one of the flags \<open>in_logs\<close> and \<open>in_network\<close> is set.\<close>

lemma item_new:
  assumes "plain_item kvs"
  shows "yaml_steps (mapping_events kvs) (reading ins False False outs corr key expect cur) =
    Ok (reading (ins @ [input_of kvs]) False False outs False None True None)"
proof -
  have "yaml_mapping_start (reading ins False False outs corr key expect cur) =
      reading (ins @ [empty_input]) False False outs corr key True (Some (length ins))"
    by (simp add: reading_def yaml_mapping_start_def)
  moreover have "yaml_mapping_end (reading i False False outs corr None True c) = reading i False False outs False None True None" for i c
    by (simp add: reading_def yaml_mapping_end_def)
  ultimately show ?thesis
    using pairs_stored [OF assms, of "length ins" "ins @ [empty_input]"]
    by (simp add: mapping_events_def input_of_def)
qed

lemma item_flagged:
  assumes "plain_item kvs" "logs \<or> net"
  shows "length ins = Suc n \<Longrightarrow>
      yaml_steps (mapping_events kvs) (reading ins logs net False False key expect (Some n)) =
      Ok (reading (ins[n := set_pairs kvs (ins ! n)]) False False False False None True None)"
    and "yaml_steps (mapping_events kvs) (reading ins logs net False False key expect None) =
      Ok (reading ins False False False False None True None)"
proof -
  have start: "yaml_mapping_start (reading ins logs net False False key expect cur) = reading ins logs net False False key True cur" for cur
    using assms(2) by (auto simp: reading_def yaml_mapping_start_def)
  have stop: "yaml_mapping_end (reading i logs net False False None True c) = reading i False False False False None True None" for i c
    by (simp add: reading_def yaml_mapping_end_def)
  show "yaml_steps (mapping_events kvs) (reading ins logs net False False key expect (Some n)) =
      Ok (reading (ins[n := set_pairs kvs (ins ! n)]) False False False False None True None)" if "length ins = Suc n"
    using that pairs_stored [OF assms(1), of n ins] by (simp add: mapping_events_def start stop)
  show "yaml_steps (mapping_events kvs) (reading ins logs net False False key expect None) =
      Ok (reading ins False False False False None True None)"
    using pairs_dropped [OF assms(1)] by (simp add: mapping_events_def start stop)
qed

lemma items_new:
  assumes "\<forall>kvs \<in> set items. plain_item kvs"
  shows "yaml_steps (concat (map mapping_events items)) (reading ins False False outs False None True None) =
    Ok (reading (ins @ map input_of items) False False outs False None True None)"
  using assms by (induction items arbitrary: ins) (simp_all add: item_new)

text \<open>The three lists of the file: the first item of the logs is the input that the mapping after \<open>inputs\<close> has made, the first
  item of the network inputs goes nowhere, and the outputs are inputs.\<close>

lemma logs_read:
  assumes "\<forall>kvs \<in> set items. plain_item kvs" "items \<noteq> []"
  shows "yaml_steps (sequence_events items) (reading [empty_input] False False False False (Some ''logs'') False (Some 0)) =
    Ok (reading (map input_of items) False False False False None True None)"
proof -
  obtain i rest where items: "items = i # rest" using assms(2) by (cases items) auto
  have "yaml_sequence_start (reading [empty_input] False False False False (Some ''logs'') False (Some 0)) =
      reading [empty_input] True False False False (Some ''logs'') False (Some 0)"
    by (simp add: reading_def yaml_sequence_start_def)
  then show ?thesis using assms(1)
    by (simp add: sequence_events_def items item_flagged(1) items_new input_of_def)
qed

lemma network_read:
  assumes "\<forall>kvs \<in> set items. plain_item kvs" "items \<noteq> []"
  shows "yaml_steps (sequence_events items) (reading ins False False False False (Some ''network'') False None) =
    Ok (reading (ins @ map input_of (tl items)) False False False False None True None)"
proof -
  obtain i rest where items: "items = i # rest" using assms(2) by (cases items) auto
  have "yaml_sequence_start (reading ins False False False False (Some ''network'') False None) =
      reading ins False True False False (Some ''network'') False None"
    by (simp add: reading_def yaml_sequence_start_def)
  then show ?thesis using assms(1)
    by (simp add: sequence_events_def items item_flagged(2) items_new)
qed

lemma outputs_read:
  assumes "\<forall>kvs \<in> set items. plain_item kvs" "items \<noteq> []"
  shows "yaml_steps (sequence_events items) (reading ins False False True False (Some ''outputs'') False None) =
    Ok (reading (ins @ map input_of items) False False True False None True None)"
proof -
  obtain i rest where items: "items = i # rest" using assms(2) by (cases items) auto
  have "yaml_sequence_start (reading ins False False True False (Some ''outputs'') False None) =
      reading ins False False True False (Some ''outputs'') False None"
    by (simp add: reading_def yaml_sequence_start_def)
  then show ?thesis using assms(1)
    by (simp add: sequence_events_def items item_new items_new)
qed

lemma key_read:
  "yaml_steps [YAML_SCALAR_EVENT ''network''] (reading ins l n outs corr key True cur) = Ok (reading ins l n outs corr (Some ''network'') False cur)"
  "yaml_steps [YAML_SCALAR_EVENT ''correlation''] (reading ins l n outs corr key True cur) =
   Ok (reading ins l n outs True (Some ''correlation'') False cur)"
  "yaml_steps [YAML_MAPPING_END_EVENT, YAML_SCALAR_EVENT ''outputs''] (reading ins False False False False key True None) =
   Ok (reading ins False False True False (Some ''outputs'') False None)"
  by (simp_all add: reading_def yaml_scalar_def yaml_mapping_end_def)

lemma opening_read:
  "yaml_steps [YAML_STREAM_START_EVENT, YAML_DOCUMENT_START_EVENT, YAML_MAPPING_START_EVENT,
      YAML_SCALAR_EVENT ''inputs'', YAML_MAPPING_START_EVENT, YAML_SCALAR_EVENT ''logs''] initial_yaml =
   Ok (reading [empty_input] False False False False (Some ''logs'') False (Some 0))"
  by (simp add: reading_def initial_yaml_def default_config_def yaml_scalar_def yaml_mapping_start_def)

lemma no_stream_end:
  "YAML_STREAM_END_EVENT \<notin> set (mapping_events kvs)" "YAML_STREAM_END_EVENT \<notin> set (sequence_events items)"
proof -
  show item: "YAML_STREAM_END_EVENT \<notin> set (mapping_events kvs)" for kvs
    by (auto simp: mapping_events_def pair_events_def)
  show "YAML_STREAM_END_EVENT \<notin> set (sequence_events items)"
    using item by (auto simp: sequence_events_def)
qed

text \<open>C39: of a configuration file with all its sections the log inputs are read as they are written; the first network input
  is lost; and the outputs and the settings of the correlation, which come after the inputs, are read as more inputs, so
  that there are no outputs and the correlation keeps its default settings.\<close>

theorem config_sections_misread:
  assumes "\<forall>kvs \<in> set (corr # logs @ network @ outs). plain_item kvs" "logs \<noteq> []" "network \<noteq> []" "outs \<noteq> []"
  shows "nblex_config_load_yaml (Some (document_events logs network outs corr)) =
    Ok (Some (default_config\<lparr>cf_inputs :=
      map input_of logs @ map input_of (tl network) @ map input_of outs @ [input_of corr]\<rparr>))"
proof -
  let ?ins = "map input_of logs @ map input_of (tl network) @ map input_of outs @ [input_of corr]"
  obtain evs where evs: "document_events logs network outs corr = evs @ [YAML_STREAM_END_EVENT]"
    and steps: "yaml_steps evs initial_yaml = Ok (reading ?ins False False True False None True None)"
    and no_end: "YAML_STREAM_END_EVENT \<notin> set evs"
  proof
    let ?evs = "[YAML_STREAM_START_EVENT, YAML_DOCUMENT_START_EVENT, YAML_MAPPING_START_EVENT,
      YAML_SCALAR_EVENT ''inputs'', YAML_MAPPING_START_EVENT, YAML_SCALAR_EVENT ''logs''] @ sequence_events logs @
      [YAML_SCALAR_EVENT ''network''] @ sequence_events network @
      [YAML_MAPPING_END_EVENT, YAML_SCALAR_EVENT ''outputs''] @ sequence_events outs @
      [YAML_SCALAR_EVENT ''correlation''] @ mapping_events corr @ [YAML_MAPPING_END_EVENT, YAML_DOCUMENT_END_EVENT]"
    show "document_events logs network outs corr = ?evs @ [YAML_STREAM_END_EVENT]" by (simp add: document_events_def)
    show "YAML_STREAM_END_EVENT \<notin> set ?evs" by (simp add: no_stream_end)
    have last: "yaml_steps [YAML_MAPPING_END_EVENT, YAML_DOCUMENT_END_EVENT] (reading ins False False True False None True None) =
        Ok (reading ins False False True False None True None)" for ins
      by (simp add: reading_def yaml_mapping_end_def)
    show "yaml_steps ?evs initial_yaml = Ok (reading ?ins False False True False None True None)"
      unfolding yaml_steps_append opening_read using assms
      by (simp add: logs_read network_read outputs_read item_new key_read last
            del: yaml_steps.simps)
  qed
  show ?thesis
    by (simp add: nblex_config_load_yaml_def evs yaml_loop_steps [OF no_end] steps) (simp add: reading_def)
qed

lemma config_sections_misread_witness:
  "nblex_config_load_yaml (Some (document_events [[(''type'', ''file''), (''path'', ''a.log'')]] [[(''type'', ''pcap'')]]
     [[(''type'', ''http''), (''url'', ''u'')]] [(''enabled'', ''false'')])) =
   Ok (Some (default_config\<lparr>cf_inputs :=
     [empty_input\<lparr>ic_type := Some ''file'', ic_path := Some ''a.log''\<rparr>, empty_input\<lparr>ic_type := Some ''http''\<rparr>, empty_input]\<rparr>))"
  using config_sections_misread [of "[(''enabled'', ''false'')]" "[[(''type'', ''file''), (''path'', ''a.log'')]]" "[[(''type'', ''pcap'')]]"
    "[[(''type'', ''http''), (''url'', ''u'')]]"]
  by (simp add: plain_item_def input_of_def set_pairs_def set_input_def)

end
