(* ===== verification/Program_Props.thy ===== *)
theory Program_Props
  imports Program Config_Props
begin

text \<open>
  The set-up of the program: it has no undefined behaviour, its exit codes, the handler it installs, and the inputs that
  are started.
\<close>

section \<open>The invariant of the set-up\<close>

text \<open>Every input of the world is a file input with its data, no network input is capturing, and the handler has not been set.\<close>

definition file_input_ok :: "nblex_input \<Rightarrow> bool" where
  "file_input_ok i \<longleftrightarrow> in_type i = NBLEX_INPUT_FILE \<and> in_vtable i = Some ''file''"

definition set_up_ok :: "('j, 'x) cli_state \<Rightarrow> file_input list \<Rightarrow> (nblex_input \<times> pcap_input) list \<Rightarrow> bool" where
  "set_up_ok w files pcaps \<longleftrightarrow>
     opened w \<and> \<not> started w \<and> no_network w \<and> event_handler w = None \<and> out_open w = (\<lambda>_. False) \<and>
     list_all file_input_ok (inputs w) \<and> length (inputs w) = length files \<and> list_all (\<lambda>(_, d). \<not> pc_capturing d) pcaps"

abbreviation process_ok :: "'j process \<Rightarrow> bool" where
  "process_ok p \<equiv> set_up_ok (pr_world p) (pr_files p) (pr_pcaps p)"

lemma no_network_cong: "correlation w' = correlation w \<Longrightarrow> no_network w' = no_network w"
  by (simp add: no_network_def)

lemma no_network_updates [simp]:
  "no_network (w\<lparr>stdout := x\<rparr>) = no_network w" "no_network (w\<lparr>out_open := y\<rparr>) = no_network w"
  "no_network (w\<lparr>inputs := is\<rparr>) = no_network w" "no_network (w\<lparr>event_handler := h\<rparr>) = no_network w"
  "no_network (snd (nblex_world_add_input i w)) = no_network w"
  by (rule no_network_cong; simp add: nblex_world_add_input_def Let_def)+

lemma set_up_ok_say [simp]: "set_up_ok (say l w) = set_up_ok w"
  by (simp add: set_up_ok_def say_def fun_eq_iff)

lemma process_ok_say [simp]: "process_ok (say_setup l p) = process_ok p"
  by (simp add: say_setup_def)

lemma add_input_fields [simp]:
  "opened (snd (nblex_world_add_input i w)) = opened w" "started (snd (nblex_world_add_input i w)) = started w"
  "correlation (snd (nblex_world_add_input i w)) = correlation w" "inputs (snd (nblex_world_add_input i w)) = inputs w @ [i]"
  "event_handler (snd (nblex_world_add_input i w)) = event_handler w"
  "out_open (snd (nblex_world_add_input i w)) = out_open (w :: ('j, 'x) cli_state)"
  by (simp_all add: nblex_world_add_input_def Let_def)

lemma set_filter_keeps: "file_input_ok (snd (nblex_input_set_filter X i e)) = file_input_ok i"
  by (auto simp: nblex_input_set_filter_def file_input_ok_def split: option.splits)

lemma apply_filter_keeps [simp]: "file_input_ok (apply_filter X flt i) = file_input_ok i"
  by (auto simp: apply_filter_def set_filter_keeps split: option.splits)

lemma set_format_keeps [simp]: "file_input_ok (snd (nblex_input_set_format i f)) = file_input_ok i"
  by (simp add: nblex_input_set_format_def file_input_ok_def)

lemma set_up_ok_file_new:
  assumes "set_up_ok w files pcaps" "nblex_input_file_new (Some path) w = (Some (i, data), w1)" "\<And>j. file_input_ok j \<Longrightarrow> file_input_ok (f j)"
  shows "set_up_ok (update_last_input f w1) (files @ [data]) pcaps"
proof -
  have "i = (nblex_input_new NBLEX_INPUT_FILE)\<lparr>in_vtable := Some ''file''\<rparr>" and w1: "w1 = snd (nblex_world_add_input i w)"
    using assms(2) by (auto simp: nblex_input_file_new_def Let_def)
  then have "file_input_ok i" by (simp add: file_input_ok_def nblex_input_new_def)
  then have "file_input_ok (f i)" by (rule assms(3))
  then show ?thesis using assms(1) by (simp add: set_up_ok_def w1 update_last_input_def)
qed

lemma set_up_ok_pcap_new:
  assumes "set_up_ok w files pcaps" "nblex_input_pcap_new (Some iface) = Some (i, data)"
  shows "set_up_ok w files (pcaps @ [(f i, data)])"
  using assms by (auto simp: set_up_ok_def nblex_input_pcap_new_def)

section \<open>Inputs from a configuration\<close>

lemma apply_input_ok:
  assumes "case st of (w, files, pcaps) \<Rightarrow> set_up_ok w files pcaps"
  shows "case apply_input X ic st of (w, files, pcaps) \<Rightarrow> set_up_ok w files pcaps"
proof -
  obtain w files pcaps where st: "st = (w, files, pcaps)" by (cases st)
  consider (log) path where "ic_type ic = Some ''file''" "ic_path ic = Some path"
    | (net) iface where "ic_type ic = Some ''pcap''" "ic_interface ic = Some iface"
    | (none) "apply_input X ic st = st"
    by (cases "ic_type ic = Some ''file''"; cases "ic_type ic = Some ''pcap''"; cases "ic_path ic"; cases "ic_interface ic")
      (simp_all add: apply_input_def st)
  then show ?thesis
  proof cases
    case log
    obtain i data w1 where new: "nblex_input_file_new (Some path) w = (Some (i, data), w1)"
      by (simp add: nblex_input_file_new_def Let_def)
    have "set_up_ok (update_last_input (\<lambda>i. apply_filter X (ic_filter ic)
        (case configured_format (ic_format ic) path of None \<Rightarrow> i | Some f \<Rightarrow> snd (nblex_input_set_format i f))) w1) (files @ [data]) pcaps"
      by (rule set_up_ok_file_new [OF _ new]) (use assms st in \<open>auto split: option.split\<close>)
    then show ?thesis using log new by (simp add: apply_input_def st)
  next
    case net
    obtain i data where new: "nblex_input_pcap_new (Some iface) = Some (i, data)"
      by (simp add: nblex_input_pcap_new_def)
    then show ?thesis using net set_up_ok_pcap_new [OF _ new] assms st by (simp add: apply_input_def)
  qed (use assms in simp)
qed

lemma apply_inputs_ok:
  assumes "case st of (w, files, pcaps) \<Rightarrow> set_up_ok w files pcaps"
  shows "case fold (apply_input X) ics st of (w, files, pcaps) \<Rightarrow> set_up_ok w files pcaps"
  using assms by (induction ics arbitrary: st) (simp_all add: apply_input_ok)

lemma config_apply_ok:
  assumes "set_up_ok w [] []" "nblex_config_apply X c w = (rc, w1, files, pcaps)"
  shows "set_up_ok w1 files pcaps"
proof -
  define w0 where "w0 = (if correlation_enabled c then w\<lparr>correlation := map_option (\<lambda>corr. snd (nblex_correlation_add_strategy corr
      NBLEX_CORR_TIME_BASED (word_of_int (correlation_window_ms c)))) (correlation w)\<rparr> else w)"
  have "set_up_ok w0 [] []" using assms(1)
    by (auto simp: w0_def set_up_ok_def no_network_iff nblex_correlation_add_strategy_def)
  moreover have "fold (apply_input X) (cf_inputs c) (w0, [], []) = (w1, files, pcaps)"
    using assms(2) by (simp add: nblex_config_apply_def w0_def Let_def)
  ultimately show ?thesis using apply_inputs_ok [of "(w0, [], [])" X "cf_inputs c"] by simp
qed

section \<open>Inputs from the command line\<close>

lemma add_log_input_ok: "process_ok p \<Longrightarrow> add_log_input fmt path p = Some p1 \<Longrightarrow> process_ok p1"
  by (auto simp: add_log_input_def split: option.splits prod.splits intro!: set_up_ok_file_new)

lemma add_network_input_ok: "process_ok p \<Longrightarrow> add_network_input iface p = Some p1 \<Longrightarrow> process_ok p1"
  using set_up_ok_pcap_new [where f = "\<lambda>i. i"] by (auto simp: add_network_input_def split: option.splits)

lemma filter_network_ok: "process_ok p \<Longrightarrow> process_ok (filter_network_input X e p)"
  by (auto simp: filter_network_input_def set_up_ok_def list_all_iff)

lemma filter_log_ok:
  assumes "process_ok p" "inputs (pr_world p) \<noteq> []"
  shows "process_ok (filter_log_input X e p)"
proof -
  obtain rc i where i: "nblex_input_set_filter X (last (inputs (pr_world p))) (Some e) = (rc, i)" by fastforce
  have "file_input_ok (last (inputs (pr_world p)))" using assms by (simp add: set_up_ok_def list_all_iff)
  then have "file_input_ok i" using set_filter_keeps [of X "last (inputs (pr_world p))" "Some e"] i by simp
  then have "set_up_ok (update_last_input (\<lambda>_. i) (pr_world p)) (pr_files p) (pr_pcaps p)"
    using assms by (cases "inputs (pr_world p)" rule: rev_cases) (auto simp: set_up_ok_def update_last_input_def list_all_iff)
  then show ?thesis using i by (simp add: filter_log_input_def Let_def)
qed

lemma filter_inputs_ok: "process_ok p \<Longrightarrow> log_path opts = None \<or> inputs (pr_world p) \<noteq> [] \<Longrightarrow> process_ok (filter_inputs X opts p)"
  by (auto simp: filter_inputs_def split: option.split intro!: filter_network_ok filter_log_ok)

lemma add_log_input_inputs: "add_log_input fmt path p = Some p1 \<Longrightarrow> inputs (pr_world p1) \<noteq> []"
  by (auto simp: add_log_input_def update_last_input_def say_def split: option.splits prod.splits)

lemma add_network_input_inputs: "add_network_input iface p = Some p1 \<Longrightarrow> inputs (pr_world p1) = inputs (pr_world p)"
  by (auto simp: add_network_input_def say_setup_def say_def split: option.splits)

lemma command_line_inputs_ok:
  assumes "process_ok p" "command_line_inputs X opts p = Some p1"
  shows "process_ok p1"
proof -
  obtain q1 q2 where q1: "(case log_path opts of None \<Rightarrow> Some p | Some path \<Rightarrow> add_log_input (log_format opts) path p) = Some q1"
    and q2: "(case network_iface opts of None \<Rightarrow> Some q1 | Some iface \<Rightarrow> add_network_input iface q1) = Some q2"
    and p1: "p1 = filter_inputs X opts q2"
    using assms(2) by (auto simp: command_line_inputs_def bind_eq_Some_conv)
  have ok1: "process_ok q1" using q1 assms(1) add_log_input_ok by (auto split: option.splits)
  have ok2: "process_ok q2" using q2 ok1 add_network_input_ok by (auto split: option.splits)
  have "log_path opts = None \<or> inputs (pr_world q1) \<noteq> []" using q1 add_log_input_inputs by (auto split: option.splits)
  moreover have "inputs (pr_world q2) = inputs (pr_world q1)" using q2 add_network_input_inputs by (auto split: option.splits)
  ultimately show ?thesis using filter_inputs_ok [OF ok2] p1 by simp
qed

lemma config_load_not_UB: "nblex_config_load_yaml file \<noteq> UB"
  using yaml_loop_result [OF yaml_ok_initial] by (simp add: nblex_config_load_yaml_def split: option.split)

lemma set_up_inputs_ok:
  assumes "process_ok p" "pr_files p = []" "pr_pcaps p = []"
  shows "\<exists>r. set_up_inputs env X opts p = Ok r \<and> (\<forall>p1. r = Some p1 \<longrightarrow> process_ok p1)"
proof (cases "config_file opts")
  case None
  then show ?thesis using command_line_inputs_ok [OF assms(1)] by (simp add: set_up_inputs_def)
next
  case (Some path)
  obtain c where c: "nblex_config_load_yaml (env_yaml env path) = Ok c"
    using config_load_not_UB [of "env_yaml env path"] by (cases "nblex_config_load_yaml (env_yaml env path)") simp_all
  show ?thesis
  proof (cases c)
    case (Some config)
    obtain rc w files pcaps where a: "nblex_config_apply X config (say (''Loaded configuration from '' @ path) (pr_world p)) =
        (rc, w, files, pcaps)"
      by (metis prod_cases4)
    have "set_up_ok w files pcaps" by (rule config_apply_ok [OF _ a]) (use assms in simp)
    then show ?thesis using \<open>config_file opts = Some path\<close> c Some a by (simp add: set_up_inputs_def configured_inputs_def)
  qed (use Some c in \<open>simp add: set_up_inputs_def configured_inputs_def\<close>)
qed

section \<open>The program\<close>

text \<open>The handler, by the options.\<close>

definition chosen_handler :: "cli_options \<Rightarrow> handler_ref" where
  "chosen_handler opts =
     (if output_format opts = ''json'' then
        (case opt_query opts of None \<Rightarrow> (EVENT_HANDLER_JSON, None) | Some q \<Rightarrow> (EVENT_HANDLER_QUERY, Some q))
      else (EVENT_HANDLER_MULTI, None))"

fun output_name :: "output_module \<Rightarrow> string" where
  "output_name FILE_OUTPUT = ''file''"
| "output_name HTTP_OUTPUT = ''http''"
| "output_name METRICS_OUTPUT = ''metrics''"

text \<open>What the output adds to the process.\<close>

lemma set_up_output_result:
  assumes "set_up_output env opts p = Some p1" "process_ok p"
  shows "event_handler (pr_world p1) = Some (chosen_handler opts)"
    and "out_open (pr_world p1) m = (output_format opts = output_name m)"
    and "opened (pr_world p1) \<and> \<not> started (pr_world p1) \<and> inputs (pr_world p1) = inputs (pr_world p) \<and>
      pr_files p1 = pr_files p \<and> pr_pcaps p1 = pr_pcaps p \<and> no_network (pr_world p1)"
proof -
  consider (disk) "output_format opts = ''file''" "open_file_output env opts p = Some p1"
    | (http) "output_format opts = ''http''" "open_http_output env opts p = Some p1"
    | (metrics) "output_format opts = ''metrics''" "open_metrics_output env opts p = Some p1"
    | (json) "output_format opts = ''json''" "p1 = open_json_output opts p"
    using assms(1) by (auto simp: set_up_output_def split: if_splits)
  note shared = this
  show "event_handler (pr_world p1) = Some (chosen_handler opts)"
    using shared by cases
      (auto simp: open_file_output_def open_http_output_def open_metrics_output_def open_json_output_def open_output_def
        say_def nblex_set_event_handler_def chosen_handler_def Let_def split: option.splits prod.splits)
  show "out_open (pr_world p1) m = (output_format opts = output_name m)"
    using shared assms(2) by cases (cases m;
      auto simp: open_file_output_def open_http_output_def open_metrics_output_def open_json_output_def open_output_def
        say_def nblex_set_event_handler_def set_up_ok_def Let_def split: option.splits prod.splits)+
  show "opened (pr_world p1) \<and> \<not> started (pr_world p1) \<and> inputs (pr_world p1) = inputs (pr_world p) \<and>
      pr_files p1 = pr_files p \<and> pr_pcaps p1 = pr_pcaps p \<and> no_network (pr_world p1)"
    using shared assms(2) by cases
      (auto simp: open_file_output_def open_http_output_def open_metrics_output_def open_json_output_def open_output_def
        say_def nblex_set_event_handler_def set_up_ok_def Let_def split: option.splits prod.splits)
qed

lemma world_start_fields:
  assumes "nblex_world_start X V w = (0, w1)"
  shows "started w1 \<and> opened w1 \<and> inputs w1 = inputs w \<and> event_handler w1 = event_handler w \<and>
    out_open w1 = out_open (w :: ('j, 'x) cli_state) \<and> start_inputs V (inputs w) = 0 \<and> (no_network w \<longrightarrow> no_network w1)"
  using assms by (auto simp: nblex_world_start_def nblex_correlation_start_def no_network_iff split: if_splits option.splits prod.splits)

lemma initial_set_up_ok:
  "nblex_world_open (initial_program :: 'j cli_world) = (0, w) \<Longrightarrow>
   process_ok ((initial_process env)\<lparr>pr_world := w\<rparr>) \<and> inputs w = []"
  by (auto simp: nblex_world_open_def initial_program_def initial_process_def initial_world_def set_up_ok_def nblex_world_new_def
      no_network_def nblex_correlation_add_strategy_def nblex_correlation_new_def world.defs nql_world.defs cli_world.defs)

lemma world_open_initial: "fst (nblex_world_open (initial_program :: 'j cli_world)) = 0"
  by (simp add: nblex_world_open_def initial_program_def initial_world_def nblex_world_new_def world.defs nql_world.defs cli_world.defs)

lemma command_line_inputs_count:
  assumes "command_line_inputs X opts p = Some p1" "inputs (pr_world p) = []"
  shows "length (inputs (pr_world p1)) = (if log_path opts = None then 0 else 1)"
proof -
  have log: "length (inputs (pr_world q)) = 1" if "add_log_input fmt path p = Some q" for fmt path q
    using that assms(2) by (auto simp: add_log_input_def update_last_input_def say_def nblex_input_file_new_def Let_def split: option.splits)
  have flt: "length (inputs (pr_world (filter_inputs X opts q))) = length (inputs (pr_world q))"
    if "log_path opts = None \<or> inputs (pr_world q) \<noteq> []" for q
    using that by (auto simp: filter_inputs_def filter_network_input_def filter_log_input_def update_last_input_def say_setup_def say_def Let_def
        split: option.split prod.split)
  obtain q1 q2 where q1: "(case log_path opts of None \<Rightarrow> Some p | Some path \<Rightarrow> add_log_input (log_format opts) path p) = Some q1"
    and q2: "(case network_iface opts of None \<Rightarrow> Some q1 | Some iface \<Rightarrow> add_network_input iface q1) = Some q2"
    and p1: "p1 = filter_inputs X opts q2"
    using assms(1) by (auto simp: command_line_inputs_def bind_eq_Some_conv)
  have n: "length (inputs (pr_world q1)) = (if log_path opts = None then 0 else 1)"
    using q1 assms(2) log by (auto split: option.splits)
  have eq: "inputs (pr_world q2) = inputs (pr_world q1)" using q2 add_network_input_inputs by (auto split: option.splits)
  have "log_path opts = None \<or> inputs (pr_world q2) \<noteq> []" using n eq by auto
  from flt [OF this] show ?thesis using n eq p1 by simp
qed

text \<open>A process that enters the event loop.\<close>

lemma main_program_running:
  assumes "main_program env X V argv = Ok (Inr p)"
  obtains opts p0 p1 w where "parse_options argv default_options = Inr opts" "process_ok p0" "set_up_output env opts p0 = Some p1"
    "nblex_world_start X V (say ''Starting nblex...'' (pr_world p1)) = (0, w)"
    "p = p1\<lparr>pr_world := say '''' (say ''Running... (Press Ctrl+C to stop)'' w)\<rparr>"
    "config_file opts \<noteq> None \<or> length (inputs (pr_world p0)) = (if log_path opts = None then 0 else 1)"
proof -
  obtain opts where opts: "parse_options argv default_options = Inr opts"
    using assms by (auto simp: main_program_def split: sum.splits)
  obtain w0 where w0: "nblex_world_open (initial_program :: 'a cli_world) = (0, w0)"
    using world_open_initial by (metis prod.collapse)
  let ?p = "(initial_process env)\<lparr>pr_world := w0\<rparr> :: 'a process"
  obtain r where r: "set_up_inputs env X opts ?p = Ok r"
    using assms opts w0 by (auto simp: main_program_def outcome_simps split: if_splits)
  obtain p0 p1 where p0: "r = Some p0" and p1: "set_up_output env opts p0 = Some p1" and start: "start_process X V p1 = Inr p"
    using assms opts w0 r by (auto simp: main_program_def bind_eq_Some_conv split: if_splits option.splits)
  have "process_ok p0"
    using set_up_inputs_ok [of ?p env X opts] initial_set_up_ok [OF w0] r p0 by (auto simp: initial_process_def)
  moreover have "config_file opts \<noteq> None \<or> length (inputs (pr_world p0)) = (if log_path opts = None then 0 else 1)"
    using command_line_inputs_count [of X opts ?p p0] initial_set_up_ok [OF w0] r p0
    by (cases "config_file opts") (simp_all add: set_up_inputs_def)
  ultimately show ?thesis using that opts p1 start
    by (auto simp: start_process_def split: prod.splits if_splits)
qed

text \<open>C26: a process that enters the event loop has the handler that the options choose, with the output module of the
  option open and no other (with JSON none is). A query is given to the handler only when the output is JSON: with a file, a URL or metrics as the output
  the query is dropped without a word.\<close>

theorem program_handler:
  assumes "main_program env X V argv = Ok (Inr p)"
  shows "\<exists>opts. parse_options argv default_options = Inr opts \<and> event_handler (pr_world p) = Some (chosen_handler opts) \<and>
    (\<forall>m. out_open (pr_world p) m = (output_format opts = output_name m))"
proof -
  obtain opts p0 p1 w where r: "parse_options argv default_options = Inr opts" "process_ok p0" "set_up_output env opts p0 = Some p1"
    "nblex_world_start X V (say ''Starting nblex...'' (pr_world p1)) = (0, w)"
    "p = p1\<lparr>pr_world := say '''' (say ''Running... (Press Ctrl+C to stop)'' w)\<rparr>"
    "config_file opts \<noteq> None \<or> length (inputs (pr_world p0)) = (if log_path opts = None then 0 else 1)"
    by (rule main_program_running [OF assms])
  show ?thesis using r(1,5) world_start_fields [OF r(4)] set_up_output_result(1,2) [OF r(3,2)]
    by (auto simp: say_def)
qed

text \<open>C25: in a process that enters the event loop the world is open and started, and all its inputs are file inputs, one for
  each file that is tailed. The network inputs are not among them, none of them captures, and the engine holds no network event: a network
  interface given with an option or in the configuration is never opened. Without a configuration file the number of the
  inputs is one or none, as there is a log file.\<close>

theorem program_captures_nothing:
  assumes "main_program env X V argv = Ok (Inr p)"
  shows "opened (pr_world p) \<and> started (pr_world p) \<and> list_all file_input_ok (inputs (pr_world p)) \<and>
    length (inputs (pr_world p)) = length (pr_files p) \<and> list_all (\<lambda>(_, data). \<not> pc_capturing data) (pr_pcaps p) \<and>
    no_network (pr_world p) \<and>
    (\<exists>opts. parse_options argv default_options = Inr opts \<and>
      (config_file opts \<noteq> None \<or> length (inputs (pr_world p)) = (if log_path opts = None then 0 else 1)))"
proof -
  obtain opts p0 p1 w where r: "parse_options argv default_options = Inr opts" "process_ok p0" "set_up_output env opts p0 = Some p1"
    "nblex_world_start X V (say ''Starting nblex...'' (pr_world p1)) = (0, w)"
    "p = p1\<lparr>pr_world := say '''' (say ''Running... (Press Ctrl+C to stop)'' w)\<rparr>"
    "config_file opts \<noteq> None \<or> length (inputs (pr_world p0)) = (if log_path opts = None then 0 else 1)"
    by (rule main_program_running [OF assms])
  have w: "pr_world p = say '''' (say ''Running... (Press Ctrl+C to stop)'' w)" "pr_files p = pr_files p1" "pr_pcaps p = pr_pcaps p1"
    using r(5) by simp_all
  have fields: "inputs w = inputs (pr_world p0)" "started w" "opened w" "pr_files p1 = pr_files p0" "pr_pcaps p1 = pr_pcaps p0"
    using world_start_fields [OF r(4)] set_up_output_result(3) [OF r(3,2)] by (simp_all add: say_def)
  have "no_network w" using world_start_fields [OF r(4)] set_up_output_result(3) [OF r(3,2)] by (simp add: say_def)
  moreover have ok: "list_all file_input_ok (inputs (pr_world p0))" "length (inputs (pr_world p0)) = length (pr_files p0)"
    "list_all (\<lambda>(_, d). \<not> pc_capturing d) (pr_pcaps p0)"
    using r(2) by (simp_all add: set_up_ok_def)
  ultimately show ?thesis using r(1,6) by (simp add: w fields say_def)
qed

section \<open>Which command lines run\<close>

text \<open>The options as the last occurrence of each of them on the command line gives them.\<close>

definition last_arg :: "(char \<times> string) list \<Rightarrow> char \<Rightarrow> string option" where
  "last_arg argv c = map_of (rev argv) c"

lemma last_arg_simps [simp]:
  "last_arg [] c = None"
  "last_arg ((d, a) # rest) c = (case last_arg rest c of None \<Rightarrow> if d = c then Some a else None | Some s \<Rightarrow> Some s)"
  by (auto simp: last_arg_def map_add_def split: option.split)

definition options_over :: "(char \<times> string) list \<Rightarrow> cli_options \<Rightarrow> cli_options" where
  "options_over argv opts = (let over = (\<lambda>c old. case last_arg argv c of None \<Rightarrow> old | Some s \<Rightarrow> Some s) in
     \<lparr>log_path = over CHR ''l'' (log_path opts), log_format = over CHR ''F'' (log_format opts),
      network_iface = over CHR ''n'' (network_iface opts), opt_filter = over CHR ''f'' (opt_filter opts),
      opt_query = over CHR ''q'' (opt_query opts),
      output_format = (case last_arg argv CHR ''o'' of None \<Rightarrow> output_format opts | Some s \<Rightarrow> s),
      output_path = over CHR ''O'' (output_path opts), output_url = over CHR ''U'' (output_url opts),
      config_file = over CHR ''c'' (config_file opts)\<rparr>)"

lemma parse_options_result:
  "parse_options argv opts = (case find (\<lambda>(c, _). c \<notin> set ''lFnfqoOUc'') argv of
      Some (c, _) \<Rightarrow> Inl (if c = CHR ''v'' \<or> c = CHR ''h'' then 0 else 1)
    | None \<Rightarrow> Inr (options_over argv opts))"
proof (induction argv arbitrary: opts)
  case Nil
  then show ?case by (simp add: options_over_def)
next
  case (Cons a rest)
  obtain c arg where a: "a = (c, arg)" by (cases a)
  consider "c \<notin> set ''lFnfqoOUc''" | opts1 where "c \<in> set ''lFnfqoOUc''" "parse_options (a # rest) opts = parse_options rest opts1"
    "options_over (a # rest) opts = options_over rest opts1"
    unfolding a by (cases "c \<in> set ''lFnfqoOUc''") (auto simp: options_over_def Let_def split: option.split)
  then show ?case
  proof cases
    case 1
    then show ?thesis unfolding a by auto
  next
    case 2
    have "find (\<lambda>(c, _). c \<notin> set ''lFnfqoOUc'') (a # rest) = find (\<lambda>(c, _). c \<notin> set ''lFnfqoOUc'') rest"
      unfolding a using 2(1) by auto
    then show ?thesis unfolding 2(2,3) by (simp only: Cons.IH)
  qed
qed

text \<open>What the set-up needs: an input, a configuration file that can be read or a format that is known, and an output that is
  known and can be opened.\<close>

definition inputs_possible :: "environment \<Rightarrow> cli_options \<Rightarrow> bool" where
  "inputs_possible env opts \<longleftrightarrow> (case config_file opts of
      Some path \<Rightarrow> (\<exists>evs. env_yaml env path = Some evs \<and> YAML_STREAM_END_EVENT \<in> set evs)
    | None \<Rightarrow> (case log_path opts of
        Some path \<Rightarrow> configured_format (log_format opts) path \<noteq> None
      | None \<Rightarrow> network_iface opts \<noteq> None))"

definition output_possible :: "environment \<Rightarrow> cli_options \<Rightarrow> bool" where
  "output_possible env opts \<longleftrightarrow> output_format opts = ''json''
     \<or> output_format opts = ''file'' \<and> output_path opts \<noteq> None \<and> os_open (env_os env)
     \<or> output_format opts = ''http'' \<and> output_url opts \<noteq> None \<and> env_curl env
     \<or> output_format opts = ''metrics'' \<and> output_path opts \<noteq> None \<and> env_metrics_file env"

lemma set_up_output_possible: "set_up_output env opts p = None \<longleftrightarrow> \<not> output_possible env opts"
  by (auto simp: set_up_output_def output_possible_def open_file_output_def open_http_output_def open_metrics_output_def
      nblex_file_output_new_def nblex_http_output_new_def nblex_metrics_output_new_def Let_def split: option.split)

lemma command_line_inputs_possible:
  "command_line_inputs X opts p = None \<longleftrightarrow>
   (case log_path opts of Some path \<Rightarrow> configured_format (log_format opts) path = None | None \<Rightarrow> False)"
  by (auto simp: command_line_inputs_def add_log_input_def add_network_input_def nblex_input_file_new_def
      nblex_input_pcap_new_def Let_def split: option.split)

lemma config_load_possible:
  "nblex_config_load_yaml file = Ok None \<longleftrightarrow> (case file of None \<Rightarrow> True | Some evs \<Rightarrow> YAML_STREAM_END_EVENT \<notin> set evs)"
  using yaml_loop_result [OF yaml_ok_initial] by (simp add: nblex_config_load_yaml_def split: option.split)

lemma set_up_inputs_possible:
  assumes "set_up_inputs env X opts p = Ok r" "\<not> (log_path opts = None \<and> network_iface opts = None \<and> config_file opts = None)"
  shows "r \<noteq> None \<longleftrightarrow> inputs_possible env opts"
proof (cases "config_file opts")
  case None
  then show ?thesis using assms command_line_inputs_possible [of X opts p]
    by (auto simp: set_up_inputs_def inputs_possible_def split: option.splits)
next
  case (Some path)
  obtain c where c: "nblex_config_load_yaml (env_yaml env path) = Ok c"
    using config_load_not_UB [of "env_yaml env path"] by (cases "nblex_config_load_yaml (env_yaml env path)") simp_all
  have "r = None \<longleftrightarrow> c = None"
  proof (cases c)
    case (Some config)
    obtain rc w files pcaps where "nblex_config_apply X config (say (''Loaded configuration from '' @ path) (pr_world p)) = (rc, w, files, pcaps)"
      by (metis prod_cases4)
    then show ?thesis using assms(1) c Some \<open>config_file opts = Some path\<close> by (auto simp: set_up_inputs_def configured_inputs_def)
  qed (use assms(1) c Some in \<open>auto simp: set_up_inputs_def configured_inputs_def\<close>)
  with c show ?thesis using Some config_load_possible [of "env_yaml env path"]
    by (auto simp: inputs_possible_def split: option.splits)
qed

lemma start_file_inputs: "list_all file_input_ok is \<Longrightarrow> start_inputs V is = 0 \<longleftrightarrow> list_all (\<lambda>i. V ''file'' i = 0) is"
  by (induction "is") (auto simp: file_input_ok_def)

text \<open>The start fails only when the timer of the engine or an input does.\<close>

definition start_possible :: "'j ext \<Rightarrow> (string \<Rightarrow> nblex_input \<Rightarrow> int) \<Rightarrow> nblex_input list \<Rightarrow> bool" where
  "start_possible X V is \<longleftrightarrow> uv_timer_init X = 0 \<and> uv_timer_start X = 0 \<and> list_all (\<lambda>i. V ''file'' i = 0) is"

lemma start_process_possible:
  assumes "opened (pr_world p) \<and> \<not> started (pr_world p) \<and> no_network (pr_world p)" "list_all file_input_ok (inputs (pr_world p))"
  shows "start_process X V p = Inl 1 \<and> \<not> start_possible X V (inputs (pr_world p)) \<or>
    (\<exists>p1. start_process X V p = Inr p1 \<and> start_possible X V (inputs (pr_world p1)))"
  using assms start_file_inputs [OF assms(2), of V]
  by (auto simp: start_process_def start_possible_def nblex_world_start_def nblex_correlation_start_def no_network_iff say_def
      split: prod.splits if_splits)

text \<open>C27: how a process ends before the event loop, and when it does not. The first option that is not one of those with an
  argument decides: for the version and the usage the exit code is 0, for an unknown option 1. Without such an option the exit
  code is 1 or the event loop is entered, never undefined behaviour: the loop is entered exactly when there is an input, the
  configuration file can be read to its end or the format of the log is known, the output is one of the four, has what it needs
  and can be opened, and the start succeeds.\<close>

theorem program_exit_codes:
  "case find (\<lambda>(c, _). c \<notin> set ''lFnfqoOUc'') argv of
      Some (c, _) \<Rightarrow> main_program env X V argv = Ok (Inl (if c = CHR ''v'' \<or> c = CHR ''h'' then 0 else 1))
    | None \<Rightarrow> (let opts = options_over argv default_options in
        case main_program env X V argv of
          UB \<Rightarrow> False
        | Ok (Inl rc) \<Rightarrow> rc = 1 \<and>
            (inputs_possible env opts \<and> output_possible env opts \<longrightarrow> (\<exists>is. list_all file_input_ok is \<and> \<not> start_possible X V is))
        | Ok (Inr p) \<Rightarrow> inputs_possible env opts \<and> output_possible env opts \<and> start_possible X V (inputs (pr_world p)))"
proof (cases "find (\<lambda>(c, _). c \<notin> set ''lFnfqoOUc'') argv")
  case (Some a)
  then show ?thesis using parse_options_result [of argv default_options] by (auto simp: main_program_def)
next
  case None
  let ?opts = "options_over argv default_options"
  have opts: "parse_options argv default_options = Inr ?opts" unfolding parse_options_result None by simp
  obtain w0 where w0: "nblex_world_open (initial_program :: 'a cli_world) = (0, w0)"
    using world_open_initial by (metis prod.collapse)
  let ?p = "(initial_process env)\<lparr>pr_world := w0\<rparr> :: 'a process"
  obtain r where r: "set_up_inputs env X ?opts ?p = Ok r" "\<And>p1. r = Some p1 \<Longrightarrow> process_ok p1"
    using set_up_inputs_ok [of ?p env X ?opts] initial_set_up_ok [OF w0] by (auto simp: initial_process_def)
  note opts = opts None w0 r(1)
  consider (none) "log_path ?opts = None \<and> network_iface ?opts = None \<and> config_file ?opts = None"
    | (fail) "\<not> (log_path ?opts = None \<and> network_iface ?opts = None \<and> config_file ?opts = None)"
        "\<not> (inputs_possible env ?opts \<and> output_possible env ?opts)" "Option.bind r (set_up_output env ?opts) = None"
    | (run) p0 p1 where "\<not> (log_path ?opts = None \<and> network_iface ?opts = None \<and> config_file ?opts = None)"
        "inputs_possible env ?opts \<and> output_possible env ?opts" "r = Some p0" "set_up_output env ?opts p0 = Some p1"
    using set_up_inputs_possible [OF r(1)] set_up_output_possible [of env ?opts]
    by (cases r) (fastforce simp: bind_eq_None_conv)+
  then show ?thesis
  proof cases
    case none
    then show ?thesis using opts by (auto simp: main_program_def inputs_possible_def)
  next
    case fail
    then show ?thesis using opts by (auto simp: main_program_def)
  next
    case run
    note ok = r(2) [OF run(3)]
    have out: "opened (pr_world p1) \<and> \<not> started (pr_world p1) \<and> no_network (pr_world p1)" "list_all file_input_ok (inputs (pr_world p1))"
      using set_up_output_result(3) [OF run(4) ok] ok by (simp_all add: set_up_ok_def)
    have "main_program env X V argv = Ok (start_process X V p1)" using opts run by (auto simp: main_program_def)
    then show ?thesis using start_process_possible [OF out, of X V] run(2) opts(2) out(2) by auto
  qed
qed

section \<open>Witnesses\<close>

text \<open>An operating system where every file can be opened.\<close>

definition calm_environment :: environment where
  "calm_environment = \<lparr>env_yaml = \<lambda>_. None,
     env_os = \<lparr>os_now = 0, os_stamp = \<lambda>_. '''', os_unlink = \<lambda>_. True, os_open = True, os_room = 100\<rparr>,
     env_directory = [], env_curl = True, env_metrics_file = True\<rparr>"

lemma program_handler_witness:
  "\<exists>p. main_program calm_environment (tree_ext (\<lambda>_. None) (\<lambda>_. None) (\<lambda>_. True) (\<lambda>_ _. 0) (\<lambda>_. 0)) (\<lambda>_ _. 0)
      [(CHR ''l'', ''a.log''), (CHR ''q'', ''x > 1''), (CHR ''o'', ''http''), (CHR ''U'', ''u'')] = Ok (Inr p) \<and>
    event_handler (pr_world p) = Some (EVENT_HANDLER_MULTI, None) \<and> out_open (pr_world p) HTTP_OUTPUT"
  (is "\<exists>p. main_program ?E ?X ?V ?A = _ \<and> _")
proof -
  have "case main_program ?E ?X ?V ?A of Ok (Inr p) \<Rightarrow> True | _ \<Rightarrow> False" by code_simp
  then obtain p where p: "main_program ?E ?X ?V ?A = Ok (Inr p)" by (auto split: outcome.splits sum.splits)
  obtain opts where opts: "parse_options ?A default_options = Inr opts" "event_handler (pr_world p) = Some (chosen_handler opts)"
    "out_open (pr_world p) HTTP_OUTPUT = (output_format opts = output_name HTTP_OUTPUT)"
    using program_handler [OF p] by blast
  have "output_format opts = ''http''" using opts(1) by (auto simp: default_options_def)
  then show ?thesis using p opts(2,3) by (simp add: chosen_handler_def)
qed

lemma program_captures_nothing_witness:
  "\<exists>p. main_program calm_environment (tree_ext (\<lambda>_. None) (\<lambda>_. None) (\<lambda>_. True) (\<lambda>_ _. 0) (\<lambda>_. 0)) (\<lambda>_ _. 0)
      [(CHR ''n'', ''eth0'')] = Ok (Inr p) \<and> started (pr_world p) \<and> inputs (pr_world p) = [] \<and> length (pr_pcaps p) = 1"
  (is "\<exists>p. main_program ?E ?X ?V ?A = _ \<and> _")
proof -
  have "case main_program ?E ?X ?V ?A of Ok (Inr p) \<Rightarrow> length (pr_pcaps p) = 1 | _ \<Rightarrow> False" by code_simp
  then obtain p where p: "main_program ?E ?X ?V ?A = Ok (Inr p)" "length (pr_pcaps p) = 1" by (auto split: outcome.splits sum.splits)
  then show ?thesis using program_captures_nothing [OF p(1)] by (auto simp: default_options_def)
qed

theorem program_exit_codes_witness:
  "let E = calm_environment; X = tree_ext (\<lambda>_. None) (\<lambda>_. None) (\<lambda>_. True) (\<lambda>_ _. 0) (\<lambda>_. 0) :: jtree ext; V = (\<lambda>_ _. 0) in
   main_program E X V [(CHR ''l'', ''a.log''), (CHR ''h'', []), (CHR ''x'', [])] = Ok (Inl 0) \<and>
   main_program E X V [(CHR ''l'', ''a.log''), (CHR ''o'', ''xml'')] = Ok (Inl 1) \<and>
   (\<exists>p. main_program E X V [(CHR ''l'', ''a.log''), (CHR ''o'', ''xml''), (CHR ''o'', ''file''), (CHR ''O'', ''out'')] = Ok (Inr p))"
proof -
  let ?E = calm_environment and ?X = "tree_ext (\<lambda>_. None) (\<lambda>_. None) (\<lambda>_. True) (\<lambda>_ _. 0) (\<lambda>_. 0) :: jtree ext"
  let ?V = "(\<lambda>_ _. 0) :: string \<Rightarrow> nblex_input \<Rightarrow> int"
  let ?xml = "[(CHR ''l'', ''a.log''), (CHR ''o'', ''xml'')]"
  let ?file = "[(CHR ''l'', ''a.log''), (CHR ''o'', ''xml''), (CHR ''o'', ''file''), (CHR ''O'', ''out'')]"
  have start: "start_possible ?X ?V is" for "is"
    by (simp add: start_possible_def tree_ext_def list_all_iff)
  have 1: "main_program ?E ?X ?V [(CHR ''l'', ''a.log''), (CHR ''h'', []), (CHR ''x'', [])] = Ok (Inl 0)"
    using program_exit_codes [of "[(CHR ''l'', ''a.log''), (CHR ''h'', []), (CHR ''x'', [])]" ?E ?X ?V] by simp
  have "find (\<lambda>(c, _). c \<notin> set ''lFnfqoOUc'') ?xml = None" "\<not> output_possible ?E (options_over ?xml default_options)" by code_simp+
  with program_exit_codes [of ?xml ?E ?X ?V] have 2: "main_program ?E ?X ?V ?xml = Ok (Inl 1)"
    by (auto simp: Let_def split: outcome.splits sum.splits)
  have "find (\<lambda>(c, _). c \<notin> set ''lFnfqoOUc'') ?file = None" "output_possible ?E (options_over ?file default_options)"
    "config_file (options_over ?file default_options) = None" "log_path (options_over ?file default_options) = Some ''a.log''"
    "log_format (options_over ?file default_options) = None" by code_simp+
  with program_exit_codes [of ?file ?E ?X ?V] start have "\<exists>p. main_program ?E ?X ?V ?file = Ok (Inr p)"
    by (auto simp: Let_def inputs_possible_def configured_format_def split: outcome.splits sum.splits)
  with 1 2 show ?thesis unfolding Let_def by blast
qed

end
