(* ===== verification/Nql_Syntax.thy ===== *)
theory Nql_Syntax
  imports Nql_Parser Filter_Syntax
begin

text \<open>
  The concrete syntax of nQL: an abstract syntax of queries, the text of a query, and the structure that the parser is to
  build for it; and the lexical functions of the parser on such texts.

  A filter inside a query is given by the words of its text, separated by blanks: words with no quote, parenthesis, comma
  or bar in them that are not a keyword that ends the filter, and texts in double quotes.
\<close>

section \<open>Abstract syntax\<close>

datatype time_unit = Milliseconds | Seconds | Minutes | Hours

type_synonym duration = "int \<times> time_unit"

datatype func = Count | Field_Func nql_agg_func_type string | Percentile string int

datatype window_clause = No_Window | Plain duration | Tumbling duration | Sliding duration duration | Session duration

datatype stage =
  Filter_Stage "string list"
| Correlate_Stage "string list" "string list" "duration option"
| Aggregate_Stage "func list" "string list" "string list option" window_clause
| Show_Stage "string list" "string list option"
| Show_All_Stage "string list option"
| Star_Stage "string list option"

section \<open>Text\<close>

fun unwords :: "string list \<Rightarrow> string" where
  "unwords [] = []"
| "unwords [w] = w"
| "unwords (w # ws) = w @ CHR '' '' # unwords ws"

fun commas :: "string list \<Rightarrow> string" where
  "commas [] = []"
| "commas [w] = w"
| "commas (w # ws) = w @ '', '' @ commas ws"

fun show_unit :: "time_unit \<Rightarrow> string" where
  "show_unit Milliseconds = ''ms''"
| "show_unit Seconds = ''s''"
| "show_unit Minutes = ''m''"
| "show_unit Hours = ''h''"

definition show_duration :: "duration \<Rightarrow> string" where
  "show_duration d = dec_of_pos (fst d) @ show_unit (snd d)"

fun func_name :: "nql_agg_func_type \<Rightarrow> string" where
  "func_name NQL_AGG_COUNT = ''count''"
| "func_name NQL_AGG_SUM = ''sum''"
| "func_name NQL_AGG_AVG = ''avg''"
| "func_name NQL_AGG_MIN = ''min''"
| "func_name NQL_AGG_MAX = ''max''"
| "func_name NQL_AGG_PERCENTILE = ''percentile''"
| "func_name NQL_AGG_DISTINCT = ''distinct''"

fun show_func :: "func \<Rightarrow> string" where
  "show_func Count = ''count()''"
| "show_func (Field_Func t f) = func_name t @ ''('' @ f @ '')''"
| "show_func (Percentile f n) = ''percentile('' @ f @ '', '' @ dec_of_pos n @ '')''"

definition by_text :: "string list \<Rightarrow> string" where
  "by_text gs = (if gs = [] then '''' else '' by '' @ commas gs)"

definition where_text :: "string list option \<Rightarrow> string" where
  "where_text f = (case f of None \<Rightarrow> '''' | Some ws \<Rightarrow> '' where '' @ unwords ws)"

fun window_text :: "window_clause \<Rightarrow> string" where
  "window_text No_Window = ''''"
| "window_text (Plain d) = '' window '' @ show_duration d"
| "window_text (Tumbling d) = '' window tumbling('' @ show_duration d @ '')''"
| "window_text (Sliding d e) = '' window sliding('' @ show_duration d @ '', '' @ show_duration e @ '')''"
| "window_text (Session d) = '' window session('' @ show_duration d @ '')''"

definition within_text :: "duration option \<Rightarrow> string" where
  "within_text d = (case d of None \<Rightarrow> '''' | Some d \<Rightarrow> '' within '' @ show_duration d)"

fun show_stage :: "stage \<Rightarrow> string" where
  "show_stage (Filter_Stage ws) = unwords ws"
| "show_stage (Correlate_Stage l r d) = ''correlate '' @ unwords l @ '' with '' @ unwords r @ within_text d"
| "show_stage (Aggregate_Stage fs gs flt w) = ''aggregate '' @ commas (map show_func fs) @ by_text gs @ where_text flt @ window_text w"
| "show_stage (Show_Stage fs flt) = ''show '' @ commas fs @ where_text flt"
| "show_stage (Show_All_Stage flt) = ''show *'' @ where_text flt"
| "show_stage (Star_Stage flt) = ''*'' @ where_text flt"

fun show_stages :: "stage list \<Rightarrow> string" where
  "show_stages [] = []"
| "show_stages [s] = show_stage s"
| "show_stages (s # ss) = show_stage s @ '' | '' @ show_stages ss"

section \<open>Structures\<close>

fun unit_ms :: "time_unit \<Rightarrow> u64" where
  "unit_ms Milliseconds = 1"
| "unit_ms Seconds = 1000"
| "unit_ms Minutes = 60 * 1000"
| "unit_ms Hours = 60 * 60 * 1000"

definition duration_ms :: "duration \<Rightarrow> u64" where
  "duration_ms d = word_of_int (fst d) * unit_ms (snd d)"

fun func_value :: "func \<Rightarrow> nql_agg_func" where
  "func_value Count = new_func NQL_AGG_COUNT None f64_zero"
| "func_value (Field_Func t f) = new_func t (Some f) f64_zero"
| "func_value (Percentile f n) = new_func NQL_AGG_PERCENTILE (Some f) (scale False 10 n 0)"

fun window_value :: "window_clause \<Rightarrow> nql_window" where
  "window_value No_Window = window NQL_WINDOW_NONE 0 0 0"
| "window_value (Plain d) = window NQL_WINDOW_TUMBLING (duration_ms d) 0 0"
| "window_value (Tumbling d) = window NQL_WINDOW_TUMBLING (duration_ms d) 0 0"
| "window_value (Sliding d e) = window NQL_WINDOW_SLIDING (duration_ms d) (duration_ms e) 0"
| "window_value (Session d) = window NQL_WINDOW_SESSION 0 0 (duration_ms d)"

definition filter_value :: "'j ext \<Rightarrow> string list \<Rightarrow> filter_t" where
  "filter_value X ws = the (nblex_filter_new X (unwords ws))"

definition within_value :: "duration option \<Rightarrow> u64" where
  "within_value d = (case d of None \<Rightarrow> DEFAULT_CORRELATE_WITHIN_MS
     | Some d \<Rightarrow> if duration_ms d \<noteq> 0 then duration_ms d else DEFAULT_CORRELATE_WITHIN_MS)"

fun stage_value :: "'j ext \<Rightarrow> stage \<Rightarrow> nql_query" where
  "stage_value X (Filter_Stage ws) = NQL_QUERY_FILTER (filter_value X ws)"
| "stage_value X (Correlate_Stage l r d) = NQL_QUERY_CORRELATE
     \<lparr>left_filter = Some (filter_value X l), right_filter = Some (filter_value X r), within_ms = within_value d\<rparr>"
| "stage_value X (Aggregate_Stage fs gs flt w) = NQL_QUERY_AGGREGATE
     \<lparr>funcs = map func_value fs, group_by_fields = gs, agg_where = map_option (filter_value X) flt, agg_window = window_value w\<rparr>"
| "stage_value X (Show_Stage fs flt) = NQL_QUERY_SHOW
     \<lparr>show_fields = fs, select_all = False, show_where = map_option (filter_value X) flt\<rparr>"
| "stage_value X (Show_All_Stage flt) = NQL_QUERY_SHOW
     \<lparr>show_fields = [], select_all = True, show_where = map_option (filter_value X) flt\<rparr>"
| "stage_value X (Star_Stage flt) = NQL_QUERY_SHOW
     \<lparr>show_fields = [], select_all = True, show_where = map_option (filter_value X) flt\<rparr>"

definition query_value :: "'j ext \<Rightarrow> stage list \<Rightarrow> nql_query" where
  "query_value X ss = (if length ss = 1 then stage_value X (hd ss) else NQL_QUERY_PIPELINE (map (stage_value X) ss))"

section \<open>Lexical restrictions\<close>

definition plain_char :: "char \<Rightarrow> bool" where
  "plain_char c \<longleftrightarrow> \<not> isspace c \<and> c \<notin> {NUL, CHR 0x22, CHR 0x27, CHR ''('', CHR '')'', CHR '','', CHR ''|''}"

text \<open>A word is plain and no keyword of the list, or a text in double quotes.\<close>

definition word_ok :: "string list \<Rightarrow> string \<Rightarrow> bool" where
  "word_ok kws w \<longleftrightarrow> w \<noteq> [] \<and>
     (if hd w = CHR 0x22 then 2 \<le> length w \<and> last w = CHR 0x22
        \<and> list_all (\<lambda>c. c \<noteq> CHR 0x22 \<and> c \<noteq> CHR 0x5C) (butlast (tl w))
      else list_all plain_char w \<and> map tolower w \<notin> set kws)"

definition words_ok :: "string list \<Rightarrow> string list \<Rightarrow> bool" where
  "words_ok kws ws \<longleftrightarrow> ws \<noteq> [] \<and> list_all (word_ok kws) ws"

definition filter_ok :: "'j ext \<Rightarrow> string list \<Rightarrow> string list \<Rightarrow> bool" where
  "filter_ok X kws ws \<longleftrightarrow> words_ok kws ws \<and> nblex_filter_new X (unwords ws) \<noteq> None"

definition where_ok :: "'j ext \<Rightarrow> string list \<Rightarrow> string list option \<Rightarrow> bool" where
  "where_ok X kws flt \<longleftrightarrow> (case flt of None \<Rightarrow> True | Some ws \<Rightarrow> filter_ok X kws ws)"

definition ident_ok :: "string \<Rightarrow> bool" where
  "ident_ok s \<longleftrightarrow> s \<noteq> [] \<and> ident_start (hd s) \<and> list_all ident_char s"

definition duration_ok :: "duration \<Rightarrow> bool" where
  "duration_ok d \<longleftrightarrow> 0 \<le> fst d \<and> fst d < 2 ^ 64"

fun func_ok :: "func \<Rightarrow> bool" where
  "func_ok Count = True"
| "func_ok (Field_Func t f) = (t \<notin> {NQL_AGG_COUNT, NQL_AGG_PERCENTILE} \<and> ident_ok f)"
| "func_ok (Percentile f n) = (ident_ok f \<and> 0 \<le> n)"

fun window_ok :: "window_clause \<Rightarrow> bool" where
  "window_ok No_Window = True"
| "window_ok (Plain d) = duration_ok d"
| "window_ok (Tumbling d) = duration_ok d"
| "window_ok (Sliding d e) = (duration_ok d \<and> duration_ok e)"
| "window_ok (Session d) = duration_ok d"

fun stage_ok :: "'j ext \<Rightarrow> stage \<Rightarrow> bool" where
  "stage_ok X (Filter_Stage ws) = (filter_ok X [''|''] ws \<and> map tolower (hd ws) \<notin> {''correlate'', ''aggregate'', ''show''}
     \<and> hd (hd ws) \<noteq> CHR ''*'')"
| "stage_ok X (Correlate_Stage l r d) = (filter_ok X [''with'', ''within'', ''|''] l \<and> filter_ok X [''within'', ''|''] r
     \<and> (case d of None \<Rightarrow> True | Some d \<Rightarrow> duration_ok d))"
| "stage_ok X (Aggregate_Stage fs gs flt w) = (fs \<noteq> [] \<and> list_all func_ok fs \<and> list_all ident_ok gs
     \<and> where_ok X [''window'', ''|''] flt \<and> window_ok w)"
| "stage_ok X (Show_Stage fs flt) = (fs \<noteq> [] \<and> list_all ident_ok fs \<and> where_ok X [''|''] flt)"
| "stage_ok X (Show_All_Stage flt) = where_ok X [''|''] flt"
| "stage_ok X (Star_Stage flt) = where_ok X [''|''] flt"

section \<open>Reading\<close>

text \<open>What the parser sees after white space; and a call that takes the text from there up to \<open>r\<close>, with a result.\<close>

definition ahead :: "nql_parser \<Rightarrow> string" where
  "ahead p = skip_space (here p)"

definition gets :: "'a \<times> nql_parser \<Rightarrow> 'a \<Rightarrow> nql_parser \<Rightarrow> string \<Rightarrow> bool" where
  "gets m x p r \<longleftrightarrow> (\<exists>n. m = (x, advance n p) \<and> ahead (advance n p) = skip_space r)"

lemma here_advance: "here (advance n p) = drop n (here p)"
  by (simp add: here_def advance_def add.commute)

lemma advance_advance [simp]: "advance m (advance n p) = advance (n + m) p"
  by (simp add: advance_def add.assoc)

lemma advance_0 [simp]: "advance 0 p = p"
  by (simp add: advance_def)

lemma p_input_advance [simp]: "p_input (advance n p) = p_input p"
  by (simp add: advance_def)

lemma restore_advance [simp]: "restore p (advance n p) = p"
  by (simp add: restore_def advance_def)

lemma skip_whitespace_ahead: "\<exists>n. skip_whitespace p = advance n p \<and> here (skip_whitespace p) = ahead p"
  by (auto simp: skip_whitespace_def here_advance ahead_def dropWhile_eq_drop)

lemma ahead_skip [simp]: "ahead (skip_whitespace p) = ahead p"
  using skip_whitespace_ahead [of p] by (auto simp: ahead_def)

text \<open>Taking a text from there.\<close>

lemma gets_take:
  assumes "ahead p = t @ r" "m = (x, advance (length t) (skip_whitespace p))"
  shows "gets m x p r"
proof -
  obtain k where k: "skip_whitespace p = advance k p" "here (advance k p) = ahead p"
    using skip_whitespace_ahead [of p] by auto
  have "here (advance (length t) (advance k p)) = r" using assms(1) k(2) by (simp only: here_advance) simp
  then show ?thesis using assms(2) k(1) by (auto simp: gets_def ahead_def)
qed

lemma gets_nothing:
  assumes "m = (x, skip_whitespace p)"
  shows "gets m x p (ahead p)"
  using gets_take [of p "[]" "ahead p" m x] assms by (simp add: advance_def)

lemma gets_skip: "gets m x (skip_whitespace p) r \<Longrightarrow> gets m x p r"
  using skip_whitespace_ahead [of p] by (auto simp: gets_def)

lemma gets_bindP:
  assumes "gets m (Some x) p r"
    and "\<And>q. ahead q = skip_space r \<Longrightarrow> p_error q = p_error p \<Longrightarrow> gets (f x q) y q r'"
  shows "gets (bindP m f) y p r'"
  using assms by (fastforce simp: gets_def bindP_def)

lemma gets_case:
  assumes "gets m b p r"
    and "\<And>q. ahead q = skip_space r \<Longrightarrow> p_error q = p_error p \<Longrightarrow> gets (f b q) y q r'"
  shows "gets (case m of (b, q) \<Rightarrow> f b q) y p r'"
  using assms by (fastforce simp: gets_def)

lemma gets_return: "ahead p = skip_space r \<Longrightarrow> gets (x, p) x p r"
  by (auto simp: gets_def advance_def intro: exI [of _ 0])

lemma gets_expect: "gets m True p r \<Longrightarrow> gets (expect msg m) (Some ()) p r"
  by (auto simp: gets_def expect_def)

lemma gets_or_error: "gets m (Some x) p r \<Longrightarrow> gets (or_error msg m) (Some x) p r"
  by (auto simp: gets_def or_error_def)

lemma gets_no_error: "gets m x p r \<Longrightarrow> p_error p = None \<Longrightarrow> gets (no_error m) (Some x) p r"
  by (auto simp: gets_def no_error_def)

section \<open>Tokens\<close>

lemma gets_keyword:
  assumes "ahead p = kw @ r" "keyword_end (deref r)"
  shows "gets (match_keyword kw p) True p r"
  using skip_whitespace_ahead [of p] assms by (intro gets_take [of p kw]) (auto simp: match_keyword_def Let_def)

lemma gets_no_keyword:
  assumes "\<not> starts_with_nocase kw (ahead p)"
  shows "gets (match_keyword kw p) False p (ahead p)"
  using skip_whitespace_ahead [of p] assms by (intro gets_nothing) (auto simp: match_keyword_def Let_def)

lemma gets_char:
  assumes "ahead p = c # r"
  shows "gets (consume_char c p) True p r"
  using skip_whitespace_ahead [of p] assms by (intro gets_take [of p "[c]"]) (auto simp: consume_char_def Let_def)

lemma gets_no_char:
  assumes "deref (ahead p) \<noteq> c"
  shows "gets (consume_char c p) False p (ahead p)"
  using skip_whitespace_ahead [of p] assms by (intro gets_nothing) (auto simp: consume_char_def Let_def)

lemma takeWhile_to:
  "list_all P xs \<Longrightarrow> \<not> P (deref ys) \<or> ys = [] \<Longrightarrow> takeWhile P (xs @ ys) = xs \<and> dropWhile P (xs @ ys) = ys"
  using takeWhile_append_boundary [of P xs ys] by (cases ys) auto

lemma gets_identifier:
  assumes "ahead p = f @ r" "ident_ok f" "\<not> ident_char (deref r)"
  shows "gets (parse_identifier p) (Some f) p r"
proof -
  obtain c g where f: "f = c # g" "ident_start c" using assms(2) by (cases f) (auto simp: ident_ok_def)
  have h: "here (skip_whitespace p) = f @ r" using skip_whitespace_ahead [of p] assms(1) by auto
  have "takeWhile ident_char (f @ r) = f" using takeWhile_to [of ident_char f r] assms(2,3) by (auto simp: ident_ok_def)
  then show ?thesis using assms(1) f h by (intro gets_take [of p f]) (auto simp: parse_identifier_def Let_def)
qed

lemma strtoull_dec_of_pos:
  assumes "0 \<le> n" "n < 2 ^ 64" "\<not> isdigit (deref r)"
  shows "strtoull (dec_of_pos n @ r) = Some (word_of_int n, r)"
proof -
  obtain d ds where d: "dec_of_pos n = d # ds" "isdigit d" by (meson dec_of_pos_Cons assms(1))
  then have "d \<noteq> CHR ''-''" "d \<noteq> CHR ''+''" "\<not> isspace d" by (auto simp: ctype_defs)
  then have "split_sign (skip_space (dec_of_pos n @ r)) = (False, dec_of_pos n @ r)"
    using d by (simp add: split_sign_def)
  moreover have "r = [] \<or> \<not> isdigit (hd r)" using assms(3) by (cases r) auto
  ultimately show ?thesis using takeWhile_dec_of_pos [OF assms(1)] assms(1,2)
    by (simp add: strtoull_def Let_def)
qed

lemma unit_char: "\<not> isdigit (deref (show_unit u @ r))" "\<not> isspace (deref (show_unit u @ r))" "show_unit u \<noteq> []"
  by (cases u; simp add: ctype_defs)+

lemma gets_duration:
  assumes "ahead p = show_duration d @ r" "duration_ok d" "\<not> isalpha (deref r)"
  shows "gets (parse_duration p) (duration_ms d) p r"
proof -
  let ?n = "dec_of_pos (fst d)" and ?u = "show_unit (snd d)"
  let ?p1 = "skip_whitespace p"
  have h1: "here ?p1 = ?n @ ?u @ r" using skip_whitespace_ahead [of p] assms(1) by (simp add: show_duration_def)
  have n: "strtoull (here ?p1) = Some (word_of_int (fst d), ?u @ r)"
    unfolding h1 using assms(2) by (intro strtoull_dec_of_pos) (auto simp: duration_ok_def unit_char)
  let ?p2 = "advance (length ?n) ?p1"
  have h2: "here ?p2 = ?u @ r" by (simp add: here_advance h1)
  have "takeWhile isspace (?u @ r) = []" by (cases "snd d") (simp_all add: ctype_defs)
  then have p2: "skip_whitespace ?p2 = ?p2" unfolding skip_whitespace_def [of ?p2] h2 by simp
  have rs: "deref r \<noteq> CHR ''s''" using assms(3) by (auto simp: ctype_defs)
  then have "parse_duration p = (duration_ms d, advance (length ?u) ?p2)"
    using n unfolding parse_duration_def Let_def
    by (cases "snd d") (simp_all add: p2 h2 h1 rs duration_ms_def)
  then show ?thesis using assms(1) by (intro gets_take [of p "?n @ ?u"]) (auto simp: show_duration_def)
qed

end
