(* ===== verification/Nql_Wf.thy ===== *)
theory Nql_Wf
  imports Nql_Syntax Filter_Props
begin

text \<open>
  What the nQL parser returns for an arbitrary text: a well-formed query and no error message, or no query and a message.

  \<open>clean P m\<close> says that of the result of one parsing function, for its value a property \<open>P\<close>; the rules in \<open>clean_rules\<close> follow the
  functions backwards, from the result to the argument.
\<close>

section \<open>Well-formed queries\<close>

definition wf_filter :: "filter_t \<Rightarrow> bool" where
  "wf_filter f \<longleftrightarrow> (case root f of None \<Rightarrow> False | Some n \<Rightarrow> wf_node n)"

definition wf_where :: "filter_t option \<Rightarrow> bool" where
  "wf_where f \<longleftrightarrow> (case f of None \<Rightarrow> True | Some f \<Rightarrow> wf_filter f)"

text \<open>Every function but \<open>count\<close> has a field; a window has the sizes of its type and no others.\<close>

definition wf_func :: "nql_agg_func \<Rightarrow> bool" where
  "wf_func f \<longleftrightarrow> (case af_field f of None \<Rightarrow> af_type f = NQL_AGG_COUNT | Some g \<Rightarrow> af_type f \<noteq> NQL_AGG_COUNT \<and> ident_ok g)"

definition wf_window :: "nql_window \<Rightarrow> bool" where
  "wf_window w \<longleftrightarrow> (case w_type w of
     NQL_WINDOW_NONE \<Rightarrow> size_ms w = 0 \<and> slide_ms w = 0 \<and> timeout_ms w = 0
   | NQL_WINDOW_TUMBLING \<Rightarrow> slide_ms w = 0 \<and> timeout_ms w = 0
   | NQL_WINDOW_SLIDING \<Rightarrow> timeout_ms w = 0
   | NQL_WINDOW_SESSION \<Rightarrow> size_ms w = 0 \<and> slide_ms w = 0)"

fun wf_stage :: "nql_query \<Rightarrow> bool" where
  "wf_stage (NQL_QUERY_FILTER f) = wf_filter f"
| "wf_stage (NQL_QUERY_CORRELATE c) =
     (left_filter c \<noteq> None \<and> right_filter c \<noteq> None \<and> wf_where (left_filter c) \<and> wf_where (right_filter c) \<and> within_ms c \<noteq> 0)"
| "wf_stage (NQL_QUERY_AGGREGATE a) =
     (funcs a \<noteq> [] \<and> list_all wf_func (funcs a) \<and> list_all ident_ok (group_by_fields a) \<and> wf_where (agg_where a) \<and> wf_window (agg_window a))"
| "wf_stage (NQL_QUERY_SHOW s) =
     ((select_all s \<longleftrightarrow> show_fields s = []) \<and> list_all ident_ok (show_fields s) \<and> wf_where (show_where s))"
| "wf_stage (NQL_QUERY_PIPELINE qs) = False"

text \<open>A pipeline has at least two stages, and no pipeline among them.\<close>

fun wf_query :: "nql_query \<Rightarrow> bool" where
  "wf_query (NQL_QUERY_PIPELINE qs) = (2 \<le> length qs \<and> list_all wf_stage qs)"
| "wf_query q = wf_stage q"

lemma wf_stage_query: "wf_stage q \<Longrightarrow> wf_query q"
  by (cases q) auto

section \<open>Rules\<close>

named_theorems clean_rules

definition failed :: "nql_parser \<Rightarrow> bool" where
  "failed p \<longleftrightarrow> p_error p \<noteq> None"

lemma failed_set_error [simp]: "failed (parser_set_error p msg)"
  using parser_set_error_Some [of p msg] by (simp add: failed_def)

definition clean :: "('a \<Rightarrow> bool) \<Rightarrow> 'a option \<times> nql_parser \<Rightarrow> bool" where
  "clean P m \<longleftrightarrow> (case m of (None, q) \<Rightarrow> failed q | (Some x, q) \<Rightarrow> P x \<and> p_error q = None)"

text \<open>The same of a parser that may also decline without a message.\<close>

definition soft :: "('a \<Rightarrow> bool) \<Rightarrow> 'a option \<times> nql_parser \<Rightarrow> bool" where
  "soft P m \<longleftrightarrow> (case m of (None, q) \<Rightarrow> True | (Some x, q) \<Rightarrow> P x \<and> p_error q = None)"

lemma clean_soft: "clean P m \<Longrightarrow> soft P m"
  by (auto simp: clean_def soft_def split: prod.splits option.splits)

lemma clean_mono: "clean P m \<Longrightarrow> (\<And>x. P x \<Longrightarrow> Q x) \<Longrightarrow> clean Q m"
  by (auto simp: clean_def split: prod.splits option.splits)

lemma clean_Some [clean_rules]: "P x \<Longrightarrow> p_error p = None \<Longrightarrow> clean P (Some x, p)"
  by (simp add: clean_def)

lemma clean_error [clean_rules]: "clean P (None, parser_set_error p msg)"
  by (simp add: clean_def)

lemma clean_bindP:
  assumes "clean P m" "\<And>x q. m = (Some x, q) \<Longrightarrow> P x \<Longrightarrow> p_error q = None \<Longrightarrow> clean Q (f x q)"
  shows "clean Q (bindP m f)"
proof (cases m)
  case (Pair x q)
  then show ?thesis using assms by (cases x) (auto simp: clean_def bindP_def)
qed

lemma clean_if [clean_rules]: "(b \<Longrightarrow> clean P m) \<Longrightarrow> (\<not> b \<Longrightarrow> clean P n) \<Longrightarrow> clean P (if b then m else n)"
  by simp

lemma clean_option [clean_rules]:
  "clean P m \<Longrightarrow> (\<And>y. x = Some y \<Longrightarrow> clean P (f y)) \<Longrightarrow> clean P (case x of None \<Rightarrow> m | Some y \<Rightarrow> f y)"
  by (cases x) auto

lemma clean_strtod:
  "clean P m \<Longrightarrow> (\<And>y z. clean P (f y z)) \<Longrightarrow> clean P (case x of None \<Rightarrow> m | Some (y, z) \<Rightarrow> f y z)"
  by (cases x) auto

lemma clean_bool [clean_rules]: "clean P m \<Longrightarrow> clean P n \<Longrightarrow> clean P (case b of True \<Rightarrow> m | False \<Rightarrow> n)"
  by (cases b) auto

lemma clean_match [clean_rules]:
  assumes "p_error p = None" "\<And>b q. p_error q = None \<Longrightarrow> clean P (f b q)"
  shows "clean P (case match_keyword kw p of (b, q) \<Rightarrow> f b q)" "clean P (case consume_char c p of (b, q) \<Rightarrow> f b q)"
  using assms match_keyword_error [of kw p] consume_char_error [of c p] by (cases "match_keyword kw p"; cases "consume_char c p"; simp)+

lemma clean_expect:
  assumes "p_error p = None" "\<And>q. p_error q = None \<Longrightarrow> clean Q (f () q)"
  shows "clean Q (bindP (expect msg (consume_char c p)) f)" "clean Q (bindP (expect msg (match_keyword kw p)) f)"
  using assms match_keyword_error [of kw p] consume_char_error [of c p]
  by (cases "match_keyword kw p"; cases "consume_char c p"; auto simp: expect_def bindP_def clean_def)+

lemma parse_identifier_ok: "parse_identifier p = (Some f, q) \<Longrightarrow> ident_ok f \<and> p_error q = p_error p"
proof -
  assume "parse_identifier p = (Some f, q)"
  then have f: "f = takeWhile ident_char (here (skip_whitespace p))" "ident_start (deref (here (skip_whitespace p)))" "p_error q = p_error p"
    by (auto simp: parse_identifier_def Let_def split: if_splits)
  moreover obtain c s where "here (skip_whitespace p) = c # s"
    using f(2) by (cases "here (skip_whitespace p)") (auto simp: ident_start_def ctype_defs)
  moreover have "ident_start c \<Longrightarrow> ident_char c" for c by (auto simp: ident_start_def ident_char_def isalnum_def)
  ultimately show ?thesis by (auto simp: ident_ok_def list_all_iff dest: set_takeWhileD)
qed

lemma clean_identifier: "p_error p = None \<Longrightarrow> clean ident_ok (or_error msg (parse_identifier p))"
  using parse_identifier_ok [of p] by (auto simp: clean_def or_error_def split: prod.splits option.splits)

lemma clean_ident:
  assumes "p_error p = None" "\<And>g q. ident_ok g \<Longrightarrow> p_error q = None \<Longrightarrow> clean Q (f g q)"
  shows "clean Q (bindP (or_error msg (parse_identifier p)) f)"
  using clean_identifier [OF assms(1)] assms(2) by (rule clean_bindP)

lemma clean_duration: "(\<And>d q. p_error q = None \<Longrightarrow> clean Q (f d q)) \<Longrightarrow> clean Q (bindP (no_error m) f)"
  by (rule clean_bindP [where P = "\<lambda>_. True"]) (auto simp: clean_def no_error_def failed_def split: prod.splits)

lemma clean_filter:
  assumes "p_error p = None" "\<And>g q. wf_filter g \<Longrightarrow> p_error q = None \<Longrightarrow> clean Q (f g q)"
  shows "clean Q (bindP (parse_filter_text X kws b p) f)"
proof (rule clean_bindP [where P = wf_filter])
  show "clean wf_filter (parse_filter_text X kws b p)"
    using assms(1) nblex_filter_new_wf [of X]
    by (fastforce simp: clean_def parse_filter_text_def Let_def wf_filter_def split: option.splits)
qed (use assms(2) in blast)

lemmas clean_steps = clean_expect clean_ident clean_duration clean_filter

section \<open>Clauses\<close>

lemma clean_agg_function: "p_error p = None \<Longrightarrow> clean wf_func (parse_agg_function p)"
proof -
  have t: "field_func_type w = Some t \<Longrightarrow> t \<noteq> NQL_AGG_COUNT" for w t
    by (auto simp: field_func_type_def split: if_splits)
  have "clean wf_func (parse_agg_arguments w q)" if "p_error q = None" for w q
    unfolding parse_agg_arguments_def Let_def
    by (intro clean_if clean_expect clean_ident clean_strtod clean_error clean_Some clean_option that)
      (auto simp: wf_func_def new_func_def t that)
  then show "p_error p = None \<Longrightarrow> ?thesis"
    unfolding parse_agg_function_def Let_def by (intro clean_steps clean_rules) simp_all
qed

lemma clean_more_funcs:
  "p_error p = None \<Longrightarrow> list_all wf_func fs \<Longrightarrow> fs \<noteq> [] \<Longrightarrow> clean (\<lambda>fs. fs \<noteq> [] \<and> list_all wf_func fs) (parse_more_funcs fs p)"
proof (induction fs p rule: parse_more_funcs.induct)
  case (1 fs p)
  obtain b q where c: "consume_char (CHR '','') p = (b, q)" by fastforce
  then have q: "p_error q = None" using 1(2) consume_char_error by simp
  show ?case
  proof (cases b)
    case True
    have "clean (\<lambda>fs. fs \<noteq> [] \<and> list_all wf_func fs) (bindP (parse_agg_function q) (\<lambda>f p2. parse_more_funcs (fs @ [f]) p2))"
    proof (rule clean_bindP [OF clean_agg_function [OF q]])
      fix f r assume f: "parse_agg_function q = (Some f, r)" "wf_func f" "p_error r = None"
      show "clean (\<lambda>fs. fs \<noteq> [] \<and> list_all wf_func fs) (parse_more_funcs (fs @ [f]) r)"
        using 1(1) [OF c [symmetric] _ f(1)] True f 1(3) by simp
    qed
    then show ?thesis using c True by (simp add: parse_more_funcs.simps [of fs p])
  next
    case False
    then show ?thesis using c 1 q by (auto simp: parse_more_funcs.simps [of fs p] intro: clean_rules)
  qed
qed

lemma clean_more_fields:
  "p_error p = None \<Longrightarrow> list_all ident_ok fs \<Longrightarrow> fs \<noteq> [] \<Longrightarrow> clean (\<lambda>fs. fs \<noteq> [] \<and> list_all ident_ok fs) (parse_more_fields msg fs p)"
proof (induction msg fs p rule: parse_more_fields.induct)
  case (1 msg fs p)
  obtain b q where c: "consume_char (CHR '','') p = (b, q)" by fastforce
  then have q: "p_error q = None" using 1(2) consume_char_error by simp
  show ?case
  proof (cases b)
    case True
    have "clean (\<lambda>fs. fs \<noteq> [] \<and> list_all ident_ok fs) (bindP (or_error msg (parse_identifier q)) (\<lambda>f p2. parse_more_fields msg (fs @ [f]) p2))"
    proof (rule clean_bindP [where P = ident_ok])
      show "clean ident_ok (or_error msg (parse_identifier q))" using q by (rule clean_identifier)
      fix f r assume f: "or_error msg (parse_identifier q) = (Some f, r)" "ident_ok f" "p_error r = None"
      show "clean (\<lambda>fs. fs \<noteq> [] \<and> list_all ident_ok fs) (parse_more_fields msg (fs @ [f]) r)"
        using 1(1) [OF c [symmetric] _ f(1)] True f 1(3) by simp
    qed
    then show ?thesis using c True by (simp add: parse_more_fields.simps [of msg fs p])
  next
    case False
    then show ?thesis using c 1 q by (auto simp: parse_more_fields.simps [of msg fs p] intro: clean_rules)
  qed
qed

lemma clean_where_clause: "p_error p = None \<Longrightarrow> clean wf_where (parse_where_clause X kws p)"
  unfolding parse_where_clause_def by (rule clean_match clean_bool clean_filter clean_Some | assumption | simp add: wf_where_def)+

lemma clean_by_clause: "p_error p = None \<Longrightarrow> clean (list_all ident_ok) (parse_by_clause p)"
  unfolding parse_by_clause_def
  by (rule clean_match clean_bool clean_ident clean_Some clean_mono [OF clean_more_fields] | assumption | simp)+

lemma clean_window_clause: "p_error p = None \<Longrightarrow> clean wf_window (parse_window_clause p)"
  unfolding parse_window_clause_def
  by (rule clean_match clean_bool clean_steps clean_Some | assumption | simp add: wf_window_def window_def)+

section \<open>Stages\<close>

lemma clean_default_window:
  assumes "p_error p = None"
  shows "clean (\<lambda>d. d \<noteq> 0) (case match_keyword ''within'' p of
      (False, p5) \<Rightarrow> (Some DEFAULT_CORRELATE_WITHIN_MS, p5)
    | (True, p5) \<Rightarrow> bindP (no_error (parse_duration p5)) (\<lambda>d p6.
        (Some (if d \<noteq> 0 then d else DEFAULT_CORRELATE_WITHIN_MS), p6)))"
  using assms by (intro clean_match clean_bool clean_duration clean_Some) (simp_all add: DEFAULT_CORRELATE_WITHIN_MS_def)

text \<open>A stage parser declines when its keyword is not there, and is clean otherwise.\<close>

lemma soft_match:
  assumes "p_error p = None" "\<And>q. p_error q = None \<Longrightarrow> clean P (g q)"
  shows "soft P (case match_keyword kw p of (b, q) \<Rightarrow> case b of True \<Rightarrow> g q | False \<Rightarrow> (None, h q))"
    and "soft P (case consume_char c p of (b, q) \<Rightarrow> case b of True \<Rightarrow> g q | False \<Rightarrow> (None, h q))"
proof -
  obtain b q where m: "match_keyword kw p = (b, q)" by fastforce
  then have "clean P (g q)" using assms match_keyword_error by simp
  then show "soft P (case match_keyword kw p of (b, q) \<Rightarrow> case b of True \<Rightarrow> g q | False \<Rightarrow> (None, h q))"
    using m by (cases b) (simp_all add: clean_soft, simp add: soft_def)
  obtain b q where c: "consume_char c p = (b, q)" by fastforce
  then have "clean P (g q)" using assms consume_char_error by simp
  then show "soft P (case consume_char c p of (b, q) \<Rightarrow> case b of True \<Rightarrow> g q | False \<Rightarrow> (None, h q))"
    using c by (cases b) (simp_all add: clean_soft, simp add: soft_def)
qed

lemma soft_correlate: "p_error p = None \<Longrightarrow> soft wf_stage (parse_correlate X p)"
  unfolding parse_correlate_def
  by (intro soft_match clean_filter clean_expect clean_bindP [OF clean_default_window] clean_Some) (simp_all add: wf_where_def)

lemma soft_aggregate: "p_error p = None \<Longrightarrow> soft wf_stage (parse_aggregate X p)"
  unfolding parse_aggregate_def
proof (intro soft_match clean_match(2) clean_bindP [OF clean_agg_function], goal_cases)
  case (4 q w q' f q'')
  have "clean (\<lambda>fs. fs \<noteq> [] \<and> list_all wf_func fs) (parse_more_funcs [f] q'')"
    using 4 by (intro clean_more_funcs) simp_all
  then show ?case
  proof (rule clean_bindP, goal_cases)
    case (1 fs r)
    have "clean (\<lambda>_. True) (if w then expect m (consume_char (CHR '')'') r) else (Some (), r))" for m
      using 1(3) consume_char_error [of "CHR '')''" r] by (auto simp: clean_def expect_def split: prod.splits)
    then show ?case
      by (rule clean_bindP)
        (use 1(2) in \<open>intro clean_bindP [OF clean_by_clause] clean_bindP [OF clean_where_clause] clean_bindP [OF clean_window_clause] clean_Some; simp\<close>)
  qed
qed simp_all

lemma soft_show: "p_error p = None \<Longrightarrow> soft wf_stage (parse_show X p)"
proof -
  let ?P = "\<lambda>(fs, al). (al \<longleftrightarrow> fs = []) \<and> list_all ident_ok fs"
  have fields: "clean ?P (case consume_char (CHR ''*'') q of
      (True, p2) \<Rightarrow> (Some ([], True), p2)
    | (False, p2) \<Rightarrow> bindP (or_error m (parse_identifier p2)) (\<lambda>f p3.
        bindP (parse_more_fields m' [f] p3) (\<lambda>fs p4. (Some (fs, False), p4))))" if "p_error q = None" for q m m'
    using that by (intro clean_match(2) clean_bool clean_ident clean_bindP [OF clean_more_fields] clean_Some) simp_all
  then show "p_error p = None \<Longrightarrow> ?thesis" unfolding parse_show_def
    by (intro soft_match clean_bindP [OF fields])
      (auto intro!: clean_bindP [OF clean_where_clause] clean_Some)
qed

lemma soft_select_all: "p_error p = None \<Longrightarrow> soft wf_stage (parse_select_all X p)"
  unfolding parse_select_all_def
  by (intro soft_match clean_bindP [OF clean_where_clause] clean_Some) simp_all

lemma clean_or_next:
  assumes "soft P m" "\<And>q. p_error q = None \<Longrightarrow> clean P (f q)"
  shows "clean P (or_next p m f)"
proof (cases m)
  case (Pair x q)
  then show ?thesis using assms
    by (cases x; cases "p_error q") (auto simp: or_next_def restore_def soft_def clean_def failed_def)
qed

lemma clean_single_query: "p_error p = None \<Longrightarrow> clean wf_stage (parse_single_query X p)"
  unfolding parse_single_query_def
  by (intro clean_or_next soft_correlate soft_aggregate soft_show soft_select_all)
    (auto simp: parse_filter_query_def intro!: clean_filter clean_Some)

section \<open>Queries\<close>

lemma clean_more_stages:
  "p_error p = None \<Longrightarrow> list_all wf_stage qs \<Longrightarrow>
   clean (\<lambda>rs. list_all wf_stage rs \<and> length qs \<le> length rs \<and> take (length qs) rs = qs) (parse_more_stages X qs p)"
proof (induction X qs p rule: parse_more_stages.induct)
  case (1 X qs p)
  let ?p = "skip_whitespace p"
  show ?case
  proof (cases "deref (here ?p) = CHR ''|''")
    case True
    have "clean (\<lambda>rs. list_all wf_stage rs \<and> length qs \<le> length rs \<and> take (length qs) rs = qs)
        (bindP (parse_single_query X (advance 1 ?p)) (\<lambda>q p2. parse_more_stages X (qs @ [q]) p2))"
    proof (rule clean_bindP [OF clean_single_query])
      fix q r assume q: "parse_single_query X (advance 1 ?p) = (Some q, r)" "wf_stage q" "p_error r = None"
      have "clean (\<lambda>rs. list_all wf_stage rs \<and> length (qs @ [q]) \<le> length rs \<and> take (length (qs @ [q])) rs = qs @ [q])
          (parse_more_stages X (qs @ [q]) r)"
        using 1(1) [OF refl _ q(1)] True q 1(3) by simp
      then show "clean (\<lambda>rs. list_all wf_stage rs \<and> length qs \<le> length rs \<and> take (length qs) rs = qs) (parse_more_stages X (qs @ [q]) r)"
        by (rule clean_mono) (auto simp: take_Suc_conv_app_nth)
    qed (use 1(2) in simp)
    then show ?thesis using True by (simp add: parse_more_stages.simps [of X qs p] Let_def)
  next
    case False
    then show ?thesis using 1 by (auto simp: parse_more_stages.simps [of X qs p] Let_def intro: clean_rules)
  qed
qed

lemma clean_pipeline: "p_error p = None \<Longrightarrow> clean wf_query (parse_pipeline X p)"
  unfolding parse_pipeline_def
proof (rule clean_bindP [OF clean_single_query], assumption)
  fix q and r :: nql_parser assume q: "wf_stage q" "p_error r = None"
  show "clean wf_query (bindP (parse_more_stages X [q] r) (\<lambda>stages p2.
      if length stages = 1 then (Some q, p2) else (Some (NQL_QUERY_PIPELINE stages), p2)))"
  proof (rule clean_bindP [OF clean_more_stages])
    show "p_error r = None" "list_all wf_stage [q]" using q by simp_all
  qed (use q wf_stage_query in \<open>auto intro!: clean_if clean_Some\<close>)
qed

text \<open>C3: \<open>nql_parse_ex\<close> returns either a well-formed query and no message, or no query and a message, whatever the text. In a
  well-formed query filters have a root and their comparisons what they compare with, every function but count has a field, an
  aggregation has at least one function, a correlation has both filters and a window that is not zero, fields are selected unless
  all are, and pipelines are not nested and have at least two stages: what the executor reads without testing it.\<close>

theorem nql_query_or_error:
  "case nql_parse_ex X s of (Some q, e) \<Rightarrow> wf_query q \<and> e = None | (None, e) \<Rightarrow> e \<noteq> None"
proof (cases s)
  case (Some t)
  let ?p = "\<lparr>p_input = t, p_pos = 0, p_error = None\<rparr>"
  have "clean wf_query (parse_entry X ?p)"
    unfolding parse_entry_def Let_def by (intro clean_if clean_error clean_pipeline) simp
  then show ?thesis using Some
    by (auto simp: nql_parse_ex_def parser_set_error_def clean_def failed_def Let_def split: prod.splits option.splits)
qed (simp add: nql_parse_ex_def)

end
