(* ===== verification/Nql_Props.thy ===== *)
theory Nql_Props
  imports Nql_Syntax Filter_Props
begin

text \<open>
  The nQL parser reads back the text of every query of the abstract syntax. The lemmas \<open>gets_...\<close> follow the functions of the
  parser: each takes its part of the text, from the next character that is no white space, and leaves the rest.
\<close>

section \<open>Keywords and words\<close>

definition keywords_ok :: "string list \<Rightarrow> bool" where
  "keywords_ok kws \<longleftrightarrow> list_all (\<lambda>kw. kw \<noteq> [] \<and> map tolower kw = kw \<and> CHR '' '' \<notin> set kw) kws"

text \<open>A keyword at the start of a text; a plain word that is not the keyword does not begin with it as a word.\<close>

definition at_word :: "string \<Rightarrow> string \<Rightarrow> bool" where
  "at_word kw s \<longleftrightarrow> starts_with_nocase kw s \<and> keyword_end (deref (drop (length kw) s))"

lemma no_keyword:
  assumes "list_all plain_char w" "map tolower w \<noteq> kw" "map tolower kw = kw" "CHR '' '' \<notin> set kw" "w \<noteq> []"
    and b: "b = [] \<or> hd b = CHR '' ''"
  shows "\<not> at_word kw (w @ b)"
proof
  assume "at_word kw (w @ b)"
  then have a: "starts_with_nocase kw (w @ b) \<and> keyword_end (deref (drop (length kw) (w @ b)))"
    unfolding at_word_def .
  then have k: "map tolower (take (length kw) (w @ b)) = kw"
    using assms(3) by (simp add: starts_with_nocase_def del: take_append)
  have le: "length kw \<le> length (w @ b)" using a starts_with_nocase_length by blast
  consider "length kw < length w" | "length kw = length w" | "length w < length kw" by linarith
  then show False
  proof cases
    case 1
    then have "deref (drop (length kw) (w @ b)) = w ! length kw" by (simp add: Cons_nth_drop_Suc [symmetric])
    then show False using a 1 assms(1) by (auto simp: keyword_end_def plain_char_def list_all_length)
  next
    case 2
    then show False using k assms(2) by simp
  next
    case 3
    then have "b \<noteq> []" using le by auto
    then have "kw ! length w = tolower (CHR '' '')"
      using b 3 le by (subst k [symmetric]) (auto simp: nth_append hd_conv_nth)
    then show False using 3 assms(4) by (auto simp: ctype_defs dest: nth_mem)
  qed
qed

lemma gets_no_word:
  assumes "\<not> at_word kw (ahead p)"
  shows "gets (match_keyword kw p) False p (ahead p)"
  using skip_whitespace_ahead [of p] assms by (intro gets_nothing) (auto simp: match_keyword_def at_word_def Let_def)

section \<open>Filter texts\<close>

lemma scan_plain:
  assumes "list_all plain_char w" "plain_char prev"
  shows "scan_filter kws True prev 0 False False (w @ b)
    = length w + scan_filter kws True (last (prev # w)) 0 False False b"
  using assms
proof (induction w arbitrary: prev)
  case (Cons c w)
  have "\<not> keyword_at_position prev s kw" for s kw
    using Cons.prems(2) by (auto simp: keyword_at_position_def plain_char_def)
  then show ?case using Cons.prems Cons.IH [of c] by (auto simp: plain_char_def list_ex_iff)
qed simp

lemma scan_quoted_text:
  "list_all (\<lambda>c. c \<noteq> CHR 0x22 \<and> c \<noteq> CHR 0x5C) t \<Longrightarrow>
   scan_filter kws True prev 0 False True (t @ CHR 0x22 # b) = Suc (length t + scan_filter kws True (CHR 0x22) 0 False False b)"
  by (induction t arbitrary: prev) auto

lemma scan_word:
  assumes "word_ok kws w" "keywords_ok kws" "b = [] \<or> hd b = CHR '' ''"
  shows "scan_filter kws True prev 0 False False (w @ b) = length w + scan_filter kws True (last w) 0 False False b"
proof -
  obtain c g where w: "w = c # g" using assms(1) by (cases w) (auto simp: word_ok_def)
  show ?thesis
  proof (cases "c = CHR 0x22")
    case True
    define t where "t = butlast g"
    have g: "g = t @ [CHR 0x22]" using assms(1) w True
      by (cases g rule: rev_cases) (auto simp: word_ok_def t_def split: if_splits)
    have "list_all (\<lambda>c. c \<noteq> CHR 0x22 \<and> c \<noteq> CHR 0x5C) t" using assms(1) w True by (simp add: word_ok_def t_def)
    then show ?thesis using scan_quoted_text [of t kws c b] w True g by simp
  next
    case False
    then have pl: "list_all plain_char w" "map tolower w \<notin> set kws" using assms(1) w by (auto simp: word_ok_def)
    have "\<not> keyword_at_position prev (w @ b) kw" if "kw \<in> set kws" for kw
      using no_keyword [of w kw b] pl that assms(2,3) w by (auto simp: keyword_at_position_def at_word_def keywords_ok_def list_all_iff)
    then have "\<not> list_ex (keyword_at_position prev (c # g @ b)) kws" using w by (auto simp: list_ex_iff)
    then show ?thesis using pl w scan_plain [of g c kws b] by (auto simp: plain_char_def)
  qed
qed

lemma word_last: "word_ok kws w \<Longrightarrow> w \<noteq> [] \<and> \<not> isspace (last w) \<and> \<not> isspace (hd w)"
  by (auto simp: word_ok_def plain_char_def list_all_iff ctype_defs split: if_splits)

text \<open>What ends a filter: the end of the text, or a blank and the bar or a keyword.\<close>

definition stops :: "string list \<Rightarrow> string \<Rightarrow> bool" where
  "stops kws r \<longleftrightarrow> r = [] \<or> (\<exists>s. r = CHR '' '' # s \<and>
     (deref s = CHR ''|'' \<or> isalpha (deref s) \<and> list_ex (keyword_at_position (CHR '' '') s) kws))"

lemma keyword_not_space: "keywords_ok kws \<Longrightarrow> \<not> list_ex (keyword_at_position prev (CHR '' '' # s)) kws"
proof -
  have "\<not> starts_with_nocase kw (CHR '' '' # s)" if "kw \<noteq> []" "map tolower kw = kw" "CHR '' '' \<notin> set kw" for kw
    using that by (cases kw) (auto simp: starts_with_nocase_def ctype_defs)
  then show "keywords_ok kws \<Longrightarrow> ?thesis" by (auto simp: keywords_ok_def keyword_at_position_def list_ex_iff list_all_iff)
qed

lemma scan_stop:
  assumes "stops kws r" "keywords_ok kws"
  shows "scan_filter kws True prev 0 False False r = (if r = [] then 0 else 1)"
proof (cases "r = []")
  case False
  then obtain s where s: "r = CHR '' '' # s" "deref s = CHR ''|'' \<or> isalpha (deref s) \<and> list_ex (keyword_at_position (CHR '' '') s) kws"
    using assms(1) by (auto simp: stops_def)
  then obtain c t where t: "s = c # t" by (cases s) (auto simp: ctype_defs)
  have "scan_filter kws True (CHR '' '') 0 False False s = 0" using s(2) t by (auto simp: ctype_defs)
  then show ?thesis using s(1) keyword_not_space [OF assms(2)] by simp
qed simp

lemma scan_words:
  assumes "list_all (word_ok kws) ws" "keywords_ok kws" "stops kws r"
  shows "scan_filter kws True prev 0 False False (unwords ws @ r) = length (unwords ws) + (if r = [] then 0 else 1)"
  using assms(1)
proof (induction ws arbitrary: prev rule: unwords.induct)
  case 1
  then show ?case using scan_stop [OF assms(3,2)] by simp
next
  case (2 w)
  have "r = [] \<or> hd r = CHR '' ''" using assms(3) by (auto simp: stops_def)
  then show ?case using 2 scan_word [of kws w r prev] scan_stop [OF assms(3,2)] assms(2) by simp
next
  case (3 w v ws)
  have "scan_filter kws True prev 0 False False (w @ CHR '' '' # unwords (v # ws) @ r)
      = length w + scan_filter kws True (last w) 0 False False (CHR '' '' # unwords (v # ws) @ r)"
    using 3 scan_word [of kws w _ prev] assms(2) by simp
  then show ?case using 3 keyword_not_space [OF assms(2)] by simp
qed

lemma unwords_ends:
  assumes "words_ok kws ws"
  shows "unwords ws \<noteq> [] \<and> \<not> isspace (hd (unwords ws)) \<and> \<not> isspace (last (unwords ws))"
  using assms
proof (induction ws rule: unwords.induct)
  case (3 w v ws)
  then show ?case using word_last [of kws w] by (auto simp: words_ok_def)
qed (use word_last in \<open>auto simp: words_ok_def\<close>)

lemma rtrim_end: "t \<noteq> [] \<Longrightarrow> \<not> isspace (last t) \<Longrightarrow> list_all isspace u \<Longrightarrow> rtrim (t @ u) = t"
  by (cases t rule: rev_cases) (auto simp: rtrim_def list_all_iff dropWhile_append)

lemma gets_filter:
  assumes "ahead p = skip_space (unwords ws @ r)" "filter_ok X kws ws" "keywords_ok kws" "stops kws r"
  shows "gets (parse_filter_text X kws True p) (Some (filter_value X ws)) p r"
proof -
  let ?t = "unwords ws" and ?q = "skip_whitespace p"
  have w: "words_ok kws ws" "list_all (word_ok kws) ws" using assms(2) by (auto simp: filter_ok_def words_ok_def)
  note e = unwords_ends [OF w(1)]
  have a: "ahead p = ?t @ r" using assms(1) e by simp
  then have h: "here ?q = ?t @ r" using skip_whitespace_ahead [of p] by auto
  define n where "n = length ?t + (if r = [] then 0 else 1 :: nat)"
  have u: "\<exists>u. take n (?t @ r) = ?t @ u \<and> list_all isspace u"
    using assms(4) by (auto simp: n_def stops_def ctype_defs)
  then have "rtrim (take n (?t @ r)) = ?t" using e rtrim_end by fastforce
  moreover have "nblex_filter_new X ?t = Some (filter_value X ws)"
    using assms(2) by (auto simp: filter_ok_def filter_value_def)
  ultimately have m: "parse_filter_text X kws True p = (Some (filter_value X ws), advance n ?q)"
    using e scan_words [OF w(2) assms(3,4)] by (simp add: parse_filter_text_def Let_def h n_def)
  have "gets (parse_filter_text X kws True p) (Some (filter_value X ws)) p (drop n (?t @ r))"
    using a m by (intro gets_take [of p "take n (?t @ r)"]) (cases r; simp add: n_def)+
  moreover have "skip_space (drop n (?t @ r)) = skip_space r" using assms(4) by (auto simp: n_def stops_def)
  ultimately show ?thesis by (simp add: gets_def)
qed


section \<open>Clauses\<close>

lemma letters_not_space [simp]: "\<not> isspace (CHR '','')" "\<not> isspace (CHR ''('')" "\<not> isspace (CHR '')'')"
  "\<not> isspace (CHR ''*'')" "\<not> isspace (CHR ''|'')" "\<not> isspace (CHR ''a'')" "\<not> isspace (CHR ''b'')" "\<not> isspace (CHR ''c'')"
  "\<not> isspace (CHR ''s'')" "\<not> isspace (CHR ''t'')" "\<not> isspace (CHR ''w'')"
  by (simp_all add: ctype_defs)

lemma gets_skip_right: "gets m x p (skip_space r) \<longleftrightarrow> gets m x p r"
  by (simp add: gets_def)

text \<open>The rules with the text behind white space as a premise, as a chain of them uses it.\<close>

lemma gets_word:
  "ahead p = skip_space (kw @ r) \<Longrightarrow> kw \<noteq> [] \<Longrightarrow> \<not> isspace (hd kw) \<Longrightarrow> keyword_end (deref r) \<Longrightarrow>
   gets (match_keyword kw p) True p r"
  by (rule gets_keyword) simp_all

lemma gets_other_word:
  "ahead p = skip_space r \<Longrightarrow> \<not> starts_with_nocase kw (skip_space r) \<Longrightarrow> gets (match_keyword kw p) False p r"
  using gets_no_keyword [of kw p] by (simp add: gets_skip_right)

lemma gets_sign: "ahead p = skip_space (c # r) \<Longrightarrow> \<not> isspace c \<Longrightarrow> gets (consume_char c p) True p r"
  by (rule gets_char) simp

lemma gets_no_sign: "ahead p = skip_space r \<Longrightarrow> deref (skip_space r) \<noteq> c \<Longrightarrow> gets (consume_char c p) False p r"
  using gets_no_char [of p c] by (simp add: gets_skip_right)

lemma ident_hd: "ident_ok f \<Longrightarrow> f \<noteq> [] \<and> \<not> isspace (hd f)"
  by (auto simp: ident_ok_def ident_start_def ctype_defs)

lemma gets_ident:
  "ahead p = skip_space (f @ r) \<Longrightarrow> ident_ok f \<Longrightarrow> \<not> ident_char (deref r) \<Longrightarrow> gets (parse_identifier p) (Some f) p r"
  using ident_hd [of f] by (intro gets_identifier) auto

lemma gets_time:
  assumes "ahead p = skip_space (show_duration d @ r)" "duration_ok d" "\<not> isalpha (deref r)" "p_error p = None"
  shows "gets (no_error (parse_duration p)) (Some (duration_ms d)) p r"
proof -
  obtain c s where "dec_of_pos (fst d) = c # s" "isdigit c"
    using assms(2) dec_of_pos_Cons by (metis duration_ok_def)
  then have "skip_space (show_duration d @ r) = show_duration d @ r"
    by (auto simp: show_duration_def isdigit_not_space)
  then show ?thesis using assms by (intro gets_no_error gets_duration) simp_all
qed

text \<open>The same with what follows in the function: \<open>r\<close> is the text that the step leaves.\<close>

lemma read_word:
  assumes "ahead p = skip_space (kw @ r)" "kw \<noteq> []" "\<not> isspace (hd kw)" "keyword_end (deref r)"
    and "\<And>q. ahead q = skip_space r \<Longrightarrow> p_error q = p_error p \<Longrightarrow> gets (f True q) y q r'"
  shows "gets (case match_keyword kw p of (b, q) \<Rightarrow> f b q) y p r'"
  using gets_word [OF assms(1-4)] assms(5) by (rule gets_case)

lemma read_other_word:
  assumes "\<not> starts_with_nocase kw (ahead p)"
    and "\<And>q. ahead q = ahead p \<Longrightarrow> p_error q = p_error p \<Longrightarrow> gets (f False q) y q r'"
  shows "gets (case match_keyword kw p of (b, q) \<Rightarrow> f b q) y p r'"
  using gets_no_keyword [OF assms(1)] assms(2) by (rule gets_case) (simp add: ahead_def)

lemma read_sign:
  assumes "ahead p = skip_space (c # r)" "\<not> isspace c"
    and "\<And>q. ahead q = skip_space r \<Longrightarrow> p_error q = p_error p \<Longrightarrow> gets (f True q) y q r'"
  shows "gets (case consume_char c p of (b, q) \<Rightarrow> f b q) y p r'"
  using gets_sign [OF assms(1-2)] assms(3) by (rule gets_case)

lemma read_other_sign:
  assumes "deref (ahead p) \<noteq> c"
    and "\<And>q. ahead q = ahead p \<Longrightarrow> p_error q = p_error p \<Longrightarrow> gets (f False q) y q r'"
  shows "gets (case consume_char c p of (b, q) \<Rightarrow> f b q) y p r'"
  using gets_no_char [OF assms(1)] assms(2) by (rule gets_case) (simp add: ahead_def)

lemma read_expected:
  assumes "ahead p = skip_space (c # r)" "\<not> isspace c"
    and "\<And>q. ahead q = skip_space r \<Longrightarrow> p_error q = p_error p \<Longrightarrow> gets (f () q) y q r'"
  shows "gets (bindP (expect msg (consume_char c p)) f) y p r'"
    and "gets (bindP (expect msg (consume_char c (skip_whitespace p))) f) y p r'"
proof -
  show "gets (bindP (expect msg (consume_char c p)) f) y p r'"
    using gets_expect [OF gets_sign [OF assms(1-2)]] assms(3) by (rule gets_bindP)
  have "gets (consume_char c (skip_whitespace p)) True p r" using assms(1,2) by (simp add: gets_skip gets_sign)
  then show "gets (bindP (expect msg (consume_char c (skip_whitespace p))) f) y p r'"
    using gets_bindP [OF gets_expect] assms(3) by blast
qed

lemma read_ident:
  assumes "ahead p = skip_space (g @ r)" "ident_ok g" "\<not> ident_char (deref r)"
    and "\<And>q. ahead q = skip_space r \<Longrightarrow> p_error q = p_error p \<Longrightarrow> gets (f g q) y q r'"
  shows "gets (bindP (or_error msg (parse_identifier p)) f) y p r'"
  using gets_or_error [OF gets_ident [OF assms(1-3)]] assms(4) by (rule gets_bindP)

lemma read_time:
  assumes "ahead p = skip_space (show_duration d @ r)" "duration_ok d" "\<not> isalpha (deref r)" "p_error p = None"
    and "\<And>q. ahead q = skip_space r \<Longrightarrow> p_error q = p_error p \<Longrightarrow> gets (f (duration_ms d) q) y q r'"
  shows "gets (bindP (no_error (parse_duration p)) f) y p r'"
  using gets_time [OF assms(1-4)] assms(5) by (rule gets_bindP)

lemma read_filter:
  assumes "ahead p = skip_space (unwords ws @ r)" "filter_ok X kws ws" "keywords_ok kws" "stops kws r"
    and "\<And>q. ahead q = skip_space r \<Longrightarrow> p_error q = p_error p \<Longrightarrow> gets (f (filter_value X ws) q) y q r'"
  shows "gets (bindP (parse_filter_text X kws True p) f) y p r'"
  using gets_filter [OF assms(1-4)] assms(5) by (rule gets_bindP)

text \<open>Further fields and further functions of a list.\<close>

lemma commas_Cons: "commas (f # fs) = f @ concat (map (\<lambda>x. '', '' @ x) fs)"
  by (induction fs arbitrary: f) auto

lemma gets_more_fields:
  assumes "ahead p = skip_space (concat (map (\<lambda>x. '', '' @ x) fs) @ r)" "list_all ident_ok fs"
    and r: "\<not> ident_char (deref r)" "deref (skip_space r) \<noteq> CHR '',''"
  shows "gets (parse_more_fields msg acc p) (Some (acc @ fs)) p r"
  using assms(1,2)
proof (induction fs arbitrary: acc p)
  case Nil
  then show ?case
    by (subst parse_more_fields.simps, intro read_other_sign) (auto simp: r intro: gets_return)
next
  case (Cons f fs)
  let ?r = "concat (map (\<lambda>x. '', '' @ x) fs) @ r"
  have n: "\<not> ident_char (deref ?r)" using r by (cases fs) (auto simp: ident_char_def ctype_defs)
  have "gets (parse_more_fields msg (acc @ [f]) q) (Some (acc @ f # fs)) q r" if "ahead q = skip_space ?r" for q
    using Cons.IH [of q "acc @ [f]"] Cons.prems(2) that by auto
  then show ?case using Cons.prems n
    by (subst parse_more_fields.simps, intro read_sign [where r = "CHR '' '' # f @ ?r"])
      (auto intro!: read_ident [where g = f and r = ?r])
qed


section \<open>Aggregation functions\<close>

lemma strtod_dec_of_pos:
  assumes "0 \<le> n"
  shows "strtod (dec_of_pos n @ CHR '')'' # r) = Some (scale False 10 n 0, CHR '')'' # r)"
proof -
  obtain d ds where d: "dec_of_pos n = d # ds" "isdigit d" "list_all isdigit ds" by (meson dec_of_pos_Cons assms)
  let ?s = "dec_of_pos n @ CHR '')'' # r"
  have s: "split_sign (skip_space ?s) = (False, ?s)"
    using d by (auto simp: split_sign_def isdigit_not_space ctype_defs)
  have e: "hd (ds @ CHR '')'' # r) \<noteq> CHR ''x'' \<and> hd (ds @ CHR '')'' # r) \<noteq> CHR ''X''"
    using d(3) by (cases ds) (auto simp: ctype_defs)
  have w: "\<not> starts_with_nocase ''infinity'' ?s" "\<not> starts_with_nocase ''inf'' ?s" "\<not> starts_with_nocase ''nan'' ?s"
    using d(1,2) by (auto simp: starts_with_nocase_def ctype_defs split: if_splits)
  have x: "\<not> starts_with_nocase ''0x'' ?s"
    using d e by (cases ds) (auto simp: starts_with_nocase_def ctype_defs split: if_splits)
  have b: "digit_blocks isdigit ?s = (dec_of_pos n, [], CHR '')'' # r)"
    using takeWhile_dec_of_pos [OF assms, of "CHR '')'' # r"] by (simp add: digit_blocks_def Let_def ctype_defs)
  have "dec_of_pos n \<noteq> []" using d(1) by simp
  then show ?thesis using assms unfolding strtod_def s
    by (simp only: w x prod.case if_False strtod_decimal_def b exponent_part_def)
      (simp add: ctype_defs)
qed

lemma gets_from: "gets m x (advance n (skip_whitespace p)) r \<Longrightarrow> gets m x p r"
  using skip_whitespace_ahead [of p] by (auto simp: gets_def)

lemma gets_agg_name:
  assumes "ahead p = skip_space (w @ CHR ''('' # r)" "w \<noteq> []" "list_all isalpha w" "length w < 32" "map tolower w = w"
    and "\<And>q. ahead q = skip_space r \<Longrightarrow> p_error q = p_error p \<Longrightarrow> gets (parse_agg_arguments w q) y q r'"
  shows "gets (parse_agg_function p) y p r'"
proof -
  let ?q = "skip_whitespace p" and ?p = "advance (length w) (skip_whitespace p)"
  have "\<not> isspace (hd w)" using assms(2,3) by (cases w) (auto simp: isalpha_not_space)
  then have a: "here ?q = w @ CHR ''('' # r" using skip_whitespace_ahead [of p] assms(1,2) by auto
  have t: "takeWhile isalpha (w @ CHR ''('' # r) = w"
    using takeWhile_to [of isalpha w "CHR ''('' # r"] assms(3) by (auto simp: ctype_defs)
  have p: "ahead ?p = CHR ''('' # r" "p_error ?p = p_error p"
    by (simp_all add: ahead_def here_advance a)
  let ?m = "bindP (expect (''expected '' @ quoted (CHR ''('') @ '' after aggregation function'') (consume_char (CHR ''('') ?p))
    (\<lambda>_ p3. parse_agg_arguments w p3)"
  have "gets ?m y ?p r'" by (rule read_expected(1) [where r = r]) (simp_all add: p assms(6))
  moreover have "parse_agg_function p = ?m"
    unfolding parse_agg_function_def Let_def a t using assms(2,4,5) by simp
  ultimately show ?thesis by (simp add: gets_from)
qed

lemma gets_agg_function:
  assumes "ahead p = skip_space (show_func f @ r)" "func_ok f"
  shows "gets (parse_agg_function p) (Some (func_value f)) p r"
proof (cases f)
  case Count
  have "gets (parse_agg_arguments ''count'' q) (Some (new_func NQL_AGG_COUNT None f64_zero)) q r" if "ahead q = skip_space ('')'' @ r)" for q
    using that unfolding parse_agg_arguments_def
    by (simp, intro read_expected [where r = r]) (auto intro: gets_return)
  then show ?thesis using Count assms by (intro gets_agg_name [where w = "''count''"]) (auto simp: ctype_defs)
next
  case (Field_Func t g)
  have n: "func_name t \<noteq> ''count''" "func_name t \<noteq> ''percentile''" "field_func_type (func_name t) = Some t"
    "list_all isalpha (func_name t)" "length (func_name t) < 32" "map tolower (func_name t) = func_name t" "func_name t \<noteq> []"
    using assms(2) Field_Func by (cases t; simp add: field_func_type_def ctype_defs)+
  have "gets (parse_agg_arguments (func_name t) q) (Some (new_func t (Some g) f64_zero)) q r"
    if "ahead q = skip_space (g @ '')'' @ r)" for q
    using that assms(2) Field_Func unfolding parse_agg_arguments_def
    by (simp add: n, intro read_ident [where g = g and r = "'')'' @ r"] read_expected [where r = r])
      (auto simp: ident_char_def ctype_defs intro: gets_return)
  then show ?thesis using Field_Func assms(1) n
    by (intro gets_agg_name [where w = "func_name t"]) auto
next
  case (Percentile g n)
  have "gets (let p3 = skip_whitespace q in
      case strtod (here p3) of
        None \<Rightarrow> (None, parser_set_error p3 m)
      | Some (x, t) \<Rightarrow> bindP (expect m' (consume_char (CHR '')'') (skip_whitespace (advance (length (here p3) - length t) p3))))
          (\<lambda>_ p4. (Some (new_func NQL_AGG_PERCENTILE (Some g) x), p4))) (Some (func_value f)) q r"
    if "ahead q = skip_space (dec_of_pos n @ '')'' @ r)" for q m m'
  proof -
    let ?q = "skip_whitespace q" and ?n = "dec_of_pos n"
    obtain d ds where "?n = d # ds" "isdigit d" using assms(2) Percentile dec_of_pos_Cons by (metis func_ok.simps(3))
    then have h: "here ?q = ?n @ CHR '')'' # r" using that skip_whitespace_ahead [of q] by (auto simp: isdigit_not_space)
    let ?p = "advance (length ?n) ?q"
    have p: "ahead ?p = skip_space (CHR '')'' # r)" by (simp add: ahead_def here_advance h)
    have "strtod (here ?q) = Some (scale False 10 n 0, CHR '')'' # r)"
      unfolding h using assms(2) Percentile by (intro strtod_dec_of_pos) simp
    moreover have "gets (bindP (expect m' (consume_char (CHR '')'') (skip_whitespace ?p)))
        (\<lambda>_ p4. (Some (func_value f), p4))) (Some (func_value f)) ?p r"
      by (rule read_expected(2) [where r = r]) (use p Percentile in \<open>auto intro: gets_return\<close>)
    ultimately show ?thesis using Percentile by (simp add: Let_def h gets_from)
  qed
  then have "gets (parse_agg_arguments ''percentile'' q) (Some (func_value f)) q r"
    if "ahead q = skip_space (g @ '', '' @ dec_of_pos n @ '')'' @ r)" for q
    using that assms(2) Percentile unfolding parse_agg_arguments_def
    by (simp, intro read_ident [where g = g and r = "'', '' @ dec_of_pos n @ '')'' @ r"]
        read_expected [where r = "CHR '' '' # dec_of_pos n @ '')'' @ r"]) (auto simp: ident_char_def ctype_defs)
  then show ?thesis using Percentile assms(1)
    by (intro gets_agg_name [where w = "''percentile''"]) (auto simp: ctype_defs)
qed

lemma func_hd: "func_ok f \<Longrightarrow> \<exists>c s. show_func f = c # s \<and> isalpha c"
proof (cases f)
  case (Field_Func t g)
  then show ?thesis by (cases t) (auto simp: ctype_defs)
qed (auto simp: ctype_defs)

lemma gets_more_funcs:
  assumes "ahead p = skip_space (concat (map (\<lambda>f. '', '' @ show_func f) fs) @ r)" "list_all func_ok fs"
    and r: "deref (skip_space r) \<noteq> CHR '',''"
  shows "gets (parse_more_funcs acc p) (Some (acc @ map func_value fs)) p r"
  using assms(1,2)
proof (induction fs arbitrary: acc p)
  case Nil
  then show ?case
    by (subst parse_more_funcs.simps, intro read_other_sign) (auto simp: r intro: gets_return)
next
  case (Cons f fs)
  let ?r = "concat (map (\<lambda>f. '', '' @ show_func f) fs) @ r"
  have "gets (parse_more_funcs (acc @ [func_value f]) q) (Some (acc @ func_value f # map func_value fs)) q r" if "ahead q = skip_space ?r" for q
    using Cons.IH [of q "acc @ [func_value f]"] Cons.prems(2) that by auto
  moreover have "gets (parse_agg_function q) (Some (func_value f)) q ?r" if "ahead q = skip_space (show_func f @ ?r)" for q
    using that Cons.prems(2) by (intro gets_agg_function) auto
  ultimately show ?case using Cons.prems
    by (subst parse_more_funcs.simps, intro read_sign [where r = "CHR '' '' # show_func f @ ?r"])
      (auto intro!: gets_bindP [where r = ?r and x = "func_value f"])
qed

section \<open>Optional clauses\<close>

text \<open>What may follow: the end, a bar, or one of the keywords.\<close>

definition rest_of :: "string list \<Rightarrow> string \<Rightarrow> bool" where
  "rest_of kws r \<longleftrightarrow> r = [] \<or> (\<exists>s. r = '' | '' @ s) \<or> (\<exists>kw \<in> set kws. \<exists>s. r = CHR '' '' # kw @ CHR '' '' # s)"

lemma rest_window: "rest_of [] r \<Longrightarrow> rest_of [''window''] (window_text w @ r)"
  by (cases w) (auto simp: rest_of_def)

lemma rest_where: "rest_of kws r \<Longrightarrow> rest_of (''where'' # kws) (where_text flt @ r)"
  by (cases flt) (auto simp: rest_of_def where_text_def)

lemma rest_by: "rest_of kws r \<Longrightarrow> rest_of (''by'' # kws) (by_text gs @ r)"
  by (auto simp: rest_of_def by_text_def)

lemma rest_within: "rest_of [] r \<Longrightarrow> rest_of [''within''] (within_text d @ r)"
  by (cases d) (auto simp: rest_of_def within_text_def)

definition words_of_letters :: "string list \<Rightarrow> bool" where
  "words_of_letters kws \<longleftrightarrow> list_all (\<lambda>kw. kw \<noteq> [] \<and> list_all isalpha kw) kws"

lemma rest_next:
  assumes "rest_of kws r" "words_of_letters kws"
  shows "keyword_end (deref r)" "\<not> ident_char (deref r)" "\<not> isalpha (deref r)"
    and "deref (skip_space r) \<noteq> CHR '',''" "deref (skip_space r) \<noteq> CHR '')''"
proof -
  have "isalpha (hd kw) \<and> kw \<noteq> []" if "kw \<in> set kws" for kw
    using assms(2) that by (cases kw) (auto simp: words_of_letters_def list_all_iff)
  then have "deref (skip_space r) = NUL \<or> deref (skip_space r) = CHR ''|'' \<or> isalpha (deref (skip_space r))"
    using assms(1) by (fastforce simp: rest_of_def isalpha_not_space neq_Nil_conv)
  then show "deref (skip_space r) \<noteq> CHR '',''" "deref (skip_space r) \<noteq> CHR '')''"
    by (auto simp: ctype_defs)
  show "keyword_end (deref r)" "\<not> ident_char (deref r)" "\<not> isalpha (deref r)"
    using assms(1) by (auto simp: rest_of_def keyword_end_def ident_char_def ctype_defs)
qed

lemma rest_stops:
  assumes "rest_of ks r" "words_of_letters ks" "set ks \<subseteq> set kws"
  shows "stops kws r"
proof -
  have k: "isalpha (deref (kw @ CHR '' '' # s)) \<and> keyword_at_position (CHR '' '') (kw @ CHR '' '' # s) kw"
    if "kw \<in> set ks" for kw s
  proof
    show "isalpha (deref (kw @ CHR '' '' # s))"
      using assms(2) that by (cases kw) (auto simp: words_of_letters_def list_all_iff)
  qed (simp add: keyword_at_position_def keyword_end_def)
  show ?thesis using assms(1,3) k unfolding rest_of_def stops_def list_ex_iff by fastforce
qed

lemma not_where: "rest_of [''window''] r \<or> rest_of [] r \<Longrightarrow> \<not> starts_with_nocase ''where'' (skip_space r)"
  by (auto simp: rest_of_def starts_with_nocase_def ctype_defs)

lemma not_time_word:
  "deref s = d \<Longrightarrow> isdigit d \<Longrightarrow> \<not> starts_with_nocase ''tumbling'' s \<and> \<not> starts_with_nocase ''sliding'' s \<and> \<not> starts_with_nocase ''session'' s"
  by (cases s) (auto simp: starts_with_nocase_def ctype_defs)

lemma not_by: "rest_of [''where'', ''window''] r \<Longrightarrow> \<not> starts_with_nocase ''by'' (skip_space r)"
  by (auto simp: rest_of_def starts_with_nocase_def ctype_defs)

lemma not_window: "rest_of [] r \<Longrightarrow> \<not> starts_with_nocase ''window'' (skip_space r)"
  by (auto simp: rest_of_def starts_with_nocase_def ctype_defs)

lemma not_within: "rest_of [] r \<Longrightarrow> \<not> starts_with_nocase ''within'' (skip_space r)"
  by (auto simp: rest_of_def starts_with_nocase_def ctype_defs)

lemma clause_keywords [simp]: "words_of_letters []" "words_of_letters [''window'']" "words_of_letters [''where'', ''window'']"
  "words_of_letters [''where'']" "words_of_letters [''by'', ''where'', ''window'']" "words_of_letters [''within'']"
  "words_of_letters [''with'']"
  "keywords_ok [''window'', ''|'']" "keywords_ok [''|'']" "keywords_ok [''with'', ''within'', ''|'']" "keywords_ok [''within'', ''|'']"
  by (simp_all add: words_of_letters_def keywords_ok_def ctype_defs)

lemma gets_where_clause:
  assumes "ahead p = skip_space (where_text flt @ r)" "where_ok X kws flt" "rest_of ks r" "set ks \<subseteq> set kws"
    and "ks = [''window''] \<or> ks = []" "keywords_ok kws"
  shows "gets (parse_where_clause X kws p) (Some (map_option (filter_value X) flt)) p r"
proof (cases flt)
  case None
  then show ?thesis using assms not_where [of r] unfolding parse_where_clause_def
    by (intro read_other_word) (auto simp: where_text_def intro: gets_return)
next
  case (Some ws)
  have "stops kws r" using assms(3-5) by (intro rest_stops [of ks]) auto
  then show ?thesis using assms(1,2,6) Some unfolding parse_where_clause_def
    by (intro read_word [where r = "CHR '' '' # unwords ws @ r"])
      (auto simp: where_text_def where_ok_def keyword_end_def ctype_defs
        intro!: read_filter [where ws = ws and r = r] gets_return)
qed

lemma gets_by_clause:
  assumes "ahead p = skip_space (by_text gs @ r)" "list_all ident_ok gs" "rest_of [''where'', ''window''] r"
  shows "gets (parse_by_clause p) (Some gs) p r"
proof (cases gs)
  case Nil
  then show ?thesis using assms not_by [of r] unfolding parse_by_clause_def
    by (intro read_other_word) (auto simp: by_text_def intro: gets_return)
next
  case (Cons g hs)
  let ?r = "concat (map (\<lambda>x. '', '' @ x) hs) @ r"
  note n = rest_next [OF assms(3), simplified]
  have "\<not> ident_char (deref ?r)" using n by (cases hs) (auto simp: ident_char_def ctype_defs)
  moreover have "gets (parse_more_fields msg [g] q) (Some gs) q r" if "ahead q = skip_space ?r" for q msg
    using gets_more_fields [OF that, of msg "[g]"] assms(2) n Cons by simp
  ultimately show ?thesis using assms(1,2) Cons unfolding parse_by_clause_def
    by (intro read_word [where r = "CHR '' '' # g @ ?r"])
      (auto simp: by_text_def commas_Cons keyword_end_def ctype_defs intro!: read_ident [where g = g and r = ?r])
qed

lemma duration_digit:
  assumes "duration_ok d"
  shows "skip_space (show_duration d @ r) = show_duration d @ r" "isdigit (deref (show_duration d @ r))"
proof -
  obtain c s where "dec_of_pos (fst d) = c # s" "isdigit c"
    using assms dec_of_pos_Cons by (metis duration_ok_def)
  then show "skip_space (show_duration d @ r) = show_duration d @ r" "isdigit (deref (show_duration d @ r))"
    by (auto simp: show_duration_def isdigit_not_space)
qed

lemma window_words [simp]:
  "\<not> starts_with_nocase ''tumbling'' (CHR ''s'' # s)" "\<not> starts_with_nocase ''sliding'' (CHR ''s'' # CHR ''e'' # s)"
  by (simp_all add: starts_with_nocase_def ctype_defs)

lemma gets_window_clause:
  assumes "ahead p = skip_space (window_text w @ r)" "window_ok w" "rest_of [] r" "p_error p = None"
  shows "gets (parse_window_clause p) (Some (window_value w)) p r"
proof (cases w)
  case No_Window
  then show ?thesis using assms not_window [of r] unfolding parse_window_clause_def
    by (intro read_other_word) (auto intro: gets_return)
next
  case (Plain d)
  then show ?thesis
    using assms duration_digit [of d r] not_time_word [of "show_duration d @ r"] rest_next [OF assms(3)]
    unfolding parse_window_clause_def
    by (auto simp: keyword_end_def intro!: read_word [where kw = "''window''" and r = "CHR '' '' # show_duration d @ r"]
      read_other_word [where kw = "''tumbling''"] read_other_word [where kw = "''sliding''"] read_other_word [where kw = "''session''"]
      read_time [where d = d and r = r] gets_return)
next
  case (Tumbling d)
  then show ?thesis
    using assms unfolding parse_window_clause_def
    by (auto simp: keyword_end_def ctype_defs intro!: read_word [where kw = "''window''" and r = "'' tumbling('' @ show_duration d @ '')'' @ r"]
      read_word [where kw = "''tumbling''" and r = "''('' @ show_duration d @ '')'' @ r"]
      read_expected [where c = "CHR ''(''" and r = "show_duration d @ '')'' @ r"] read_time [where d = d and r = "'')'' @ r"]
      read_expected [where c = "CHR '')''" and r = r] gets_return)
next
  case (Sliding d e)
  have t: "gets (bindP (no_error (parse_duration q)) (\<lambda>e p7. bindP (expect msg (consume_char (CHR '')'') p7)) (\<lambda>_ p8.
      (Some (window NQL_WINDOW_SLIDING (duration_ms d) e 0), p8)))) (Some (window NQL_WINDOW_SLIDING (duration_ms d) (duration_ms e) 0)) q r"
    if "ahead q = skip_space (show_duration e @ '')'' @ r)" "p_error q = None" for q msg
    using assms Sliding that
    by (auto simp: ctype_defs intro!: read_time [where d = e and r = "'')'' @ r"] read_expected [where r = r] gets_return)
  show ?thesis
    using assms Sliding unfolding parse_window_clause_def
    by (auto simp: keyword_end_def ctype_defs
      intro!: read_word [where kw = "''window''" and r = "'' sliding('' @ show_duration d @ '', '' @ show_duration e @ '')'' @ r"]
      read_other_word [where kw = "''tumbling''"]
      read_word [where kw = "''sliding''" and r = "''('' @ show_duration d @ '', '' @ show_duration e @ '')'' @ r"]
      read_expected [where c = "CHR ''(''" and r = "show_duration d @ '', '' @ show_duration e @ '')'' @ r"]
      read_expected [where c = "CHR '',''" and r = "'' '' @ show_duration e @ '')'' @ r"]
      read_time [where d = d and r = "'', '' @ show_duration e @ '')'' @ r"] t)
next
  case (Session d)
  then show ?thesis
    using assms unfolding parse_window_clause_def
    by (auto simp: keyword_end_def ctype_defs intro!: read_word [where kw = "''window''" and r = "'' session('' @ show_duration d @ '')'' @ r"]
      read_other_word [where kw = "''tumbling''"] read_other_word [where kw = "''sliding''"]
      read_word [where kw = "''session''" and r = "''('' @ show_duration d @ '')'' @ r"]
      read_expected [where c = "CHR ''(''" and r = "show_duration d @ '')'' @ r"] read_time [where d = d and r = "'')'' @ r"]
      read_expected [where c = "CHR '')''" and r = r] gets_return)
qed

section \<open>Stages\<close>

lemma bindP_return [simp]: "bindP (Some x, p) f = f x p"
  by (simp add: bindP_def)

lemma gets_correlate:
  assumes "ahead p = skip_space (show_stage (Correlate_Stage l s d) @ r)" "stage_ok X (Correlate_Stage l s d)"
    and r: "rest_of [] r" and "p_error p = None"
  shows "gets (parse_correlate X p) (Some (stage_value X (Correlate_Stage l s d))) p r"
proof -
  let ?D = "within_text d @ r"
  let ?S = "'' with '' @ unwords s @ ?D"
  have "rest_of [''with''] ?S" by (auto simp: rest_of_def)
  then have S: "stops [''with'', ''within'', ''|''] ?S" by (rule rest_stops) auto
  have D: "stops [''within'', ''|''] ?D" by (rule rest_stops [OF rest_within [OF r]]) auto
  have w: "gets (case match_keyword ''within'' q of
        (False, p5) \<Rightarrow> (Some DEFAULT_CORRELATE_WITHIN_MS, p5)
      | (True, p5) \<Rightarrow> bindP (no_error (parse_duration p5)) (\<lambda>d p6.
          (Some (if d \<noteq> 0 then d else DEFAULT_CORRELATE_WITHIN_MS), p6))) (Some (within_value d)) q r"
    if "ahead q = skip_space ?D" "p_error q = None" for q
  proof (cases d)
    case None
    then show ?thesis using that not_within [OF r]
      by (intro read_other_word) (auto simp: within_text_def within_value_def intro: gets_return)
  next
    case (Some e)
    then show ?thesis using that assms(2) rest_next [OF r]
      by (intro read_word [where r = "CHR '' '' # show_duration e @ r"])
        (auto simp: within_text_def within_value_def keyword_end_def intro!: read_time [where d = e and r = r] gets_return)
  qed
  show ?thesis using assms S D unfolding parse_correlate_def
    by (auto simp: keyword_end_def intro!: read_word [where kw = "''correlate''" and r = "CHR '' '' # unwords l @ ?S"]
      read_filter [where ws = l and r = ?S and kws = "[''with'', ''within'', ''|'']"]
      read_filter [where ws = s and r = ?D and kws = "[''within'', ''|'']"]
      gets_bindP [OF gets_expect [OF gets_word [where kw = "''with''" and r = "CHR '' '' # unwords s @ ?D"]]]
      gets_bindP [OF w] gets_return)
qed

lemma gets_aggregate:
  assumes "ahead p = skip_space (show_stage (Aggregate_Stage fs gs flt w) @ r)" "stage_ok X (Aggregate_Stage fs gs flt w)"
    and r: "rest_of [] r" and "p_error p = None"
  shows "gets (parse_aggregate X p) (Some (stage_value X (Aggregate_Stage fs gs flt w))) p r"
proof -
  obtain f hs where fs: "fs = f # hs" using assms(2) by (cases fs) auto
  let ?W = "window_text w @ r"
  let ?F = "where_text flt @ ?W"
  let ?B = "by_text gs @ ?F"
  let ?G = "concat (map (\<lambda>f. '', '' @ show_func f) hs) @ ?B"
  have W: "rest_of [''window''] ?W" using r by (rule rest_window)
  have F: "rest_of [''where'', ''window''] ?F" using W by (rule rest_where)
  have B: "rest_of [''by'', ''where'', ''window''] ?B" using F by (rule rest_by)
  obtain c t where c: "show_func f = c # t" "isalpha c" using assms(2) fs func_hd [of f] by auto
  then have hd: "c \<noteq> CHR ''(''" "\<not> isspace c" by (auto simp: ctype_defs)
  have "commas (map show_func fs) = show_func f @ concat (map (\<lambda>f. '', '' @ show_func f) hs)"
    by (simp add: fs commas_Cons comp_def)
  then have a: "ahead p = skip_space (''aggregate'' @ CHR '' '' # show_func f @ ?G)" using assms(1) by simp
  have clauses: "gets (bindP (parse_by_clause q) (\<lambda>gs p6.
      bindP (parse_where_clause X [''window'', ''|''] p6) (\<lambda>wf p7.
      bindP (parse_window_clause p7) (\<lambda>w p8.
        (Some (NQL_QUERY_AGGREGATE \<lparr>funcs = fs', group_by_fields = gs, agg_where = wf, agg_window = w\<rparr>), p8)))))
      (Some (NQL_QUERY_AGGREGATE \<lparr>funcs = fs', group_by_fields = gs, agg_where = map_option (filter_value X) flt,
        agg_window = window_value w\<rparr>)) q r"
    if "ahead q = skip_space ?B" "p_error q = None" for q fs'
    by (rule gets_bindP [OF gets_by_clause [where r = ?F]] gets_bindP [OF gets_where_clause [where r = ?W and ks = "[''window'']"]]
        gets_bindP [OF gets_window_clause [where w = w and r = r]] gets_return | use that assms(2) W F r in \<open>force\<close>)+
  have funcs: "gets (bindP (parse_more_funcs [func_value f] q) k) y q r"
    if "ahead q = skip_space ?G" "p_error q = None"
      "\<And>q. ahead q = skip_space ?B \<Longrightarrow> p_error q = None \<Longrightarrow> gets (k (map func_value fs) q) y q r" for q k y
    using gets_more_funcs [of q hs ?B "[func_value f]"] that assms(2) fs rest_next(4) [OF B]
    by (intro gets_bindP [where r = ?B and x = "map func_value fs"]) auto
  show ?thesis unfolding parse_aggregate_def
    by (rule read_word [OF a], simp, simp, simp add: keyword_end_def, simp,
        rule read_other_sign, use c hd in simp, simp,
        rule gets_bindP [OF gets_agg_function [where f = f and r = ?G]], use c hd in simp, use assms(2) fs in simp,
        rule funcs, simp, use assms(4) in simp, simp,
        use clauses assms(4) in simp)
qed

lemma read_last_where:
  assumes "ahead p = skip_space (where_text flt @ r)" "where_ok X [''|''] flt" "rest_of [] r"
  shows "gets (bindP (parse_where_clause X [''|''] p) (\<lambda>wf q. (Some (g wf), q))) (Some (g (map_option (filter_value X) flt))) p r"
proof -
  have "gets (parse_where_clause X [''|''] p) (Some (map_option (filter_value X) flt)) p r"
    using assms by (intro gets_where_clause [where ks = "[]"]) auto
  then show ?thesis by (rule gets_bindP) (rule gets_return)
qed

lemma gets_show:
  assumes "ahead p = skip_space (show_stage (Show_Stage fs flt) @ r)" "stage_ok X (Show_Stage fs flt)"
    and r: "rest_of [] r"
  shows "gets (parse_show X p) (Some (stage_value X (Show_Stage fs flt))) p r"
proof -
  obtain f hs where fs: "fs = f # hs" using assms(2) by (cases fs) auto
  let ?F = "where_text flt @ r"
  let ?G = "concat (map (\<lambda>x. '', '' @ x) hs) @ ?F"
  have F: "rest_of [''where''] ?F" using r by (rule rest_where)
  have a: "ahead p = skip_space (''show'' @ CHR '' '' # f @ ?G)" using assms(1) by (simp add: fs commas_Cons)
  have f: "ident_ok f" "list_all ident_ok hs" using assms(2) fs by auto
  have star: "deref (f @ ?G) \<noteq> CHR ''*''" "skip_space (f @ ?G) = f @ ?G"
    using ident_hd [OF f(1)] f(1) by (cases f; auto simp: ident_ok_def ident_start_def ctype_defs)+
  have G: "\<not> ident_char (deref ?G)" using rest_next(2) [OF F] by (cases hs) (auto simp: ident_char_def ctype_defs)
  have more: "gets (parse_more_fields msg [f] q) (Some fs) q ?F" if "ahead q = skip_space ?G" for q msg
    using gets_more_fields [OF that f(2) rest_next(2,4) [OF F], of msg "[f]"] fs by simp
  have fields: "gets (case consume_char (CHR ''*'') q of (True, p2) \<Rightarrow> (Some ([], True), p2)
      | (False, p2) \<Rightarrow> bindP (or_error msg (parse_identifier p2)) (\<lambda>f p3.
          bindP (parse_more_fields msg' [f] p3) (\<lambda>fs p4. (Some (fs, False), p4)))) (Some (fs, False)) q ?F"
    if "ahead q = skip_space (f @ ?G)" for q msg msg'
    using star that
    by (intro read_other_sign) (auto intro!: read_ident [OF _ f(1) G] gets_bindP [OF more] gets_return)
  show ?thesis unfolding parse_show_def
    by (rule read_word [OF a], simp, simp, simp add: keyword_end_def, simp,
        rule gets_bindP [OF fields], simp)
      (use read_last_where [where g = "\<lambda>wf. NQL_QUERY_SHOW \<lparr>show_fields = fs, select_all = False, show_where = wf\<rparr>"]
        assms(2) r in auto)
qed

lemma gets_show_all:
  assumes "ahead p = skip_space (show_stage (Show_All_Stage flt) @ r)" "stage_ok X (Show_All_Stage flt)" "rest_of [] r"
  shows "gets (parse_show X p) (Some (stage_value X (Show_All_Stage flt))) p r"
proof -
  let ?F = "where_text flt @ r"
  have a: "ahead p = skip_space (''show'' @ CHR '' '' # CHR ''*'' # ?F)" using assms(1) by simp
  have star: "gets (case consume_char (CHR ''*'') q of (True, p2) \<Rightarrow> (Some ([], True), p2) | (False, p2) \<Rightarrow> k p2)
      (Some ([], True)) q ?F" if "ahead q = skip_space (CHR '' '' # CHR ''*'' # ?F)" for q k
    using that by (intro read_sign [where r = ?F]) (auto intro: gets_return)
  show ?thesis unfolding parse_show_def
    by (rule read_word [OF a], simp, simp, simp add: keyword_end_def, simp only: bool.case, rule gets_bindP [OF star], simp)
      (use read_last_where [where g = "\<lambda>wf. NQL_QUERY_SHOW \<lparr>show_fields = [], select_all = True, show_where = wf\<rparr>"]
        assms(2,3) in auto)
qed

lemma gets_star:
  assumes "ahead p = skip_space (show_stage (Star_Stage flt) @ r)" "stage_ok X (Star_Stage flt)" "rest_of [] r"
  shows "gets (parse_select_all X p) (Some (stage_value X (Star_Stage flt))) p r"
  using assms unfolding parse_select_all_def
  by (intro read_sign [where r = "where_text flt @ r"])
    (auto intro: read_last_where [where g = "\<lambda>wf. NQL_QUERY_SHOW \<lparr>show_fields = [], select_all = True, show_where = wf\<rparr>"])

lemma gets_filter_query:
  assumes "ahead p = skip_space (unwords ws @ r)" "filter_ok X [''|''] ws" "rest_of [] r"
  shows "gets (parse_filter_query X p) (Some (NQL_QUERY_FILTER (filter_value X ws))) p r"
proof -
  have "stops [''|''] r" using assms(3) by (rule rest_stops) auto
  then show ?thesis using assms unfolding parse_filter_query_def
    by (intro read_filter [where ws = ws and r = r]) (auto intro: gets_return)
qed

text \<open>A parser whose keyword is not there leaves the position where it was.\<close>

lemma no_match:
  assumes "\<not> at_word kw (ahead p)"
  shows "\<exists>n. match_keyword kw p = (False, advance n p)"
  using gets_no_word [OF assms] by (auto simp: gets_def)

lemma skip_stage:
  "\<not> at_word ''correlate'' (ahead p) \<Longrightarrow> parse_correlate X p = (None, p)"
  "\<not> at_word ''aggregate'' (ahead p) \<Longrightarrow> parse_aggregate X p = (None, p)"
  "\<not> at_word ''show'' (ahead p) \<Longrightarrow> parse_show X p = (None, p)"
  using no_match [of "''correlate''" p] no_match [of "''aggregate''" p] no_match [of "''show''" p]
  by (auto simp: parse_correlate_def parse_aggregate_def parse_show_def)

lemma skip_star: "deref (ahead p) \<noteq> CHR ''*'' \<Longrightarrow> parse_select_all X p = (None, p)"
  using gets_no_char [of p "CHR ''*''"] by (auto simp: parse_select_all_def gets_def)

lemma or_next_skip: "p_error p = None \<Longrightarrow> or_next p (None, p) f = f p"
  by (simp add: or_next_def restore_def)

lemma or_next_take: "gets m (Some x) p r \<Longrightarrow> or_next p m f = m"
  by (auto simp: or_next_def gets_def)

lemma filter_words:
  assumes "words_ok [''|''] ws" "map tolower (hd ws) \<noteq> kw" "kw \<in> {''correlate'', ''aggregate'', ''show''}" "rest_of [] r"
  shows "\<not> at_word kw (unwords ws @ r)"
proof -
  obtain w ws' where ws: "ws = w # ws'" "word_ok [''|''] w" using assms(1) by (cases ws) (auto simp: words_ok_def)
  obtain b where b: "unwords ws @ r = w @ b" "b = [] \<or> hd b = CHR '' ''"
    using ws(1) assms(4) by (cases ws') (auto simp: rest_of_def)
  show ?thesis
  proof (cases "hd w = CHR 0x22")
    case True
    then have "\<not> starts_with_nocase kw (w @ b)"
      using ws(2) assms(3) by (cases w) (auto simp: word_ok_def starts_with_nocase_def ctype_defs)
    then show ?thesis using b by (simp add: at_word_def)
  next
    case False
    then show ?thesis unfolding b(1)
      using ws assms(2,3) b(2) by (intro no_keyword) (auto simp: word_ok_def ctype_defs)
  qed
qed

lemma gets_single_query:
  assumes "ahead p = skip_space (show_stage s @ r)" "stage_ok X s" "rest_of [] r" "p_error p = None"
  shows "gets (parse_single_query X p) (Some (stage_value X s)) p r"
proof (cases s)
  case (Filter_Stage ws)
  have ok: "words_ok [''|''] ws" "map tolower (hd ws) \<notin> {''correlate'', ''aggregate'', ''show''}" "hd (hd ws) \<noteq> CHR ''*''"
    using assms(2) Filter_Stage by (auto simp: filter_ok_def)
  have a: "ahead p = unwords ws @ r" using assms(1) unwords_ends [OF ok(1)] Filter_Stage by simp
  obtain w vs where w: "ws = w # vs" "w \<noteq> []" using ok(1) by (cases ws) (auto simp: words_ok_def word_ok_def)
  then have "deref (ahead p) \<noteq> CHR ''*''" using ok(3) unfolding a by (cases w; cases vs) auto
  then have "parse_single_query X p = or_next p (None, p) (\<lambda>p1. or_next p (None, p1) (\<lambda>p2. or_next p (None, p2) (\<lambda>p3.
      or_next p (None, p3) (parse_filter_query X))))"
    using filter_words [OF ok(1) _ _ assms(3)] ok(2) assms(4) a
    by (simp add: parse_single_query_def skip_stage skip_star or_next_skip)
  then have "parse_single_query X p = parse_filter_query X p" using assms(4) by (simp add: or_next_skip)
  then show ?thesis using gets_filter_query [of p ws r X] assms Filter_Stage by simp
next
  case (Correlate_Stage l t d)
  note g = gets_correlate [OF assms(1) [unfolded Correlate_Stage] assms(2) [unfolded Correlate_Stage] assms(3,4)]
  then show ?thesis using Correlate_Stage by (simp add: parse_single_query_def or_next_take)
next
  case (Aggregate_Stage fs gs flt w)
  note g = gets_aggregate [OF assms(1) [unfolded Aggregate_Stage] assms(2) [unfolded Aggregate_Stage] assms(3,4)]
  have "\<not> at_word ''correlate'' (ahead p)"
    using assms(1) Aggregate_Stage by (simp add: at_word_def starts_with_nocase_def ctype_defs)
  then show ?thesis using g Aggregate_Stage assms(4)
    by (simp add: parse_single_query_def skip_stage or_next_skip or_next_take)
next
  case (Show_Stage fs flt)
  note g = gets_show [OF assms(1) [unfolded Show_Stage] assms(2) [unfolded Show_Stage] assms(3)]
  have "\<not> at_word ''correlate'' (ahead p)" "\<not> at_word ''aggregate'' (ahead p)"
    using assms(1) Show_Stage by (simp_all add: at_word_def starts_with_nocase_def ctype_defs)
  then show ?thesis using g Show_Stage assms(4)
    by (simp add: parse_single_query_def skip_stage or_next_skip or_next_take)
next
  case (Show_All_Stage flt)
  note g = gets_show_all [OF assms(1) [unfolded Show_All_Stage] assms(2) [unfolded Show_All_Stage] assms(3)]
  have "\<not> at_word ''correlate'' (ahead p)" "\<not> at_word ''aggregate'' (ahead p)"
    using assms(1) Show_All_Stage by (simp_all add: at_word_def starts_with_nocase_def ctype_defs)
  then show ?thesis using g Show_All_Stage assms(4)
    by (simp add: parse_single_query_def skip_stage or_next_skip or_next_take)
next
  case (Star_Stage flt)
  note g = gets_star [OF assms(1) [unfolded Star_Stage] assms(2) [unfolded Star_Stage] assms(3)]
  have "\<not> at_word ''correlate'' (ahead p)" "\<not> at_word ''aggregate'' (ahead p)" "\<not> at_word ''show'' (ahead p)"
    using assms(1) Star_Stage by (simp_all add: at_word_def starts_with_nocase_def ctype_defs)
  then show ?thesis using g Star_Stage assms(4)
    by (simp add: parse_single_query_def skip_stage or_next_skip or_next_take)
qed

section \<open>Queries\<close>

lemma show_stages_Cons: "show_stages (s # ss) = show_stage s @ concat (map (\<lambda>s. '' | '' @ show_stage s) ss)"
  by (induction ss arbitrary: s) auto

lemma gets_more_stages:
  assumes "ahead p = skip_space (concat (map (\<lambda>s. '' | '' @ show_stage s) ss))" "list_all (stage_ok X) ss" "p_error p = None"
  shows "gets (parse_more_stages X qs p) (Some (qs @ map (stage_value X) ss)) p []"
  using assms
proof (induction ss arbitrary: qs p)
  case Nil
  then have "ahead p = []" by simp
  then have "here (skip_whitespace p) = []" "gets (Some qs, skip_whitespace p) (Some qs) p []"
    using skip_whitespace_ahead [of p] gets_nothing [of _ "Some qs" p] by auto
  then show ?case by (subst parse_more_stages.simps) (simp add: NUL_def)
next
  case (Cons s ss)
  let ?r = "concat (map (\<lambda>s. '' | '' @ show_stage s) ss)"
  let ?p = "advance 1 (skip_whitespace p)"
  have h: "here (skip_whitespace p) = CHR ''|'' # CHR '' '' # show_stage s @ ?r"
    using skip_whitespace_ahead [of p] Cons.prems(1) by auto
  have r: "rest_of [] ?r" by (cases ss) (auto simp: rest_of_def)
  have p: "ahead ?p = skip_space (show_stage s @ ?r)" "p_error ?p = None"
    using Cons.prems(3) by (simp_all add: ahead_def here_advance h)
  have "gets (bindP (parse_single_query X ?p) (\<lambda>q p2. parse_more_stages X (qs @ [q]) p2))
      (Some (qs @ stage_value X s # map (stage_value X) ss)) ?p []"
    using gets_single_query [OF p(1) _ r p(2)] Cons.IH [of _ "qs @ [stage_value X s]"] Cons.prems(2) p(2)
    by (intro gets_bindP [where r = ?r and x = "stage_value X s"]) auto
  then show ?case
    by (subst parse_more_stages.simps) (simp add: Let_def h gets_from)
qed

lemma stage_nonempty: "stage_ok X s \<Longrightarrow> deref (skip_space (show_stage s @ r)) \<noteq> NUL"
proof (cases s)
  case (Filter_Stage ws)
  assume ok: "stage_ok X s"
  then have w: "words_ok [''|''] ws" using Filter_Stage by (auto simp: filter_ok_def)
  then obtain c v vs where "ws = (c # v) # vs" "c \<noteq> NUL" "\<not> isspace c"
    by (cases ws; cases "hd ws") (auto simp: words_ok_def word_ok_def plain_char_def NUL_def ctype_defs split: if_splits)
  then show ?thesis using Filter_Stage by (cases vs) auto
qed (simp_all add: NUL_def)

lemma parse_entry_show:
  assumes "ss \<noteq> []" and "list_all (stage_ok X) ss"
  obtains p where "parse_entry X \<lparr>p_input = show_stages ss, p_pos = 0, p_error = None\<rparr> = (Some (query_value X ss), p)"
    and "p_error p = None" and "here (skip_whitespace p) = []"
proof -
  obtain s ts where ss: "ss = s # ts" using assms(1) by (cases ss) auto
  let ?p = "\<lparr>p_input = show_stages ss, p_pos = 0, p_error = None\<rparr>" and ?r = "concat (map (\<lambda>s. '' | '' @ show_stage s) ts)"
  have r: "rest_of [] ?r" by (cases ts) (auto simp: rest_of_def)
  have a: "ahead ?p = skip_space (show_stage s @ ?r)" by (simp add: ahead_def here_def ss show_stages_Cons)
  have m: "gets (parse_more_stages X [stage_value X s] q) (Some (map (stage_value X) ss)) q []"
    if "ahead q = skip_space ?r" "p_error q = None" for q
    using gets_more_stages [OF that(1), of X "[stage_value X s]"] that(2) assms(2) ss by auto
  have "gets (parse_pipeline X q) (Some (query_value X ss)) q []" if "ahead q = ahead ?p" "p_error q = None" for q
    unfolding parse_pipeline_def
    using gets_single_query [of q s ?r X] that a r assms(2) ss m
    by (auto simp: query_value_def intro!: gets_bindP [where r = ?r and x = "stage_value X s"] gets_bindP [OF m] gets_return)
  then have g: "gets (parse_pipeline X (skip_whitespace ?p)) (Some (query_value X ss)) (skip_whitespace ?p) []" by simp
  let ?q = "skip_whitespace ?p"
  obtain n where n: "parse_pipeline X ?q = (Some (query_value X ss), advance n ?q)" "ahead (advance n ?q) = []"
    using g by (auto simp: gets_def)
  have "here (skip_whitespace (advance n ?q)) = []" using n(2) skip_whitespace_ahead [of "advance n ?q"] by auto
  moreover have "deref (here ?q) \<noteq> NUL"
    using skip_whitespace_ahead [of ?p] a stage_nonempty [of X s ?r] assms(2) ss by auto
  ultimately show thesis using n(1) that [of "advance n ?q"] by (simp add: parse_entry_def Let_def)
qed

lemma nql_parse_show: "ss \<noteq> [] \<Longrightarrow> list_all (stage_ok X) ss \<Longrightarrow> nql_parse X (Some (show_stages ss)) = Some (query_value X ss)"
  by (rule parse_entry_show [of ss X]) (simp_all add: nql_parse_def nql_parse_ex_def Let_def)

text \<open>C2: \<open>nql_parse_ex\<close> reads the text of every query of the abstract syntax back, with no error: for a single stage the query of
  the stage, for several stages the pipeline of their queries in order. The stages are filters, correlations, aggregations with their
  groups, filter and window, and selections; filters are parsed by the filter engine, numbers of durations fit in 64 bits.\<close>

theorem nql_roundtrip:
  assumes "ss \<noteq> []" and "list_all (stage_ok X) ss"
  shows "nql_parse_ex X (Some (show_stages ss)) = (Some (query_value X ss), None)"
  by (rule parse_entry_show [OF assms]) (simp add: nql_parse_ex_def Let_def)

theorem nql_roundtrip_witness:
  "let X = tree_ext (\<lambda>_. None) (\<lambda>_. None) (\<lambda>_. True) (\<lambda>_ _. 0) (\<lambda>_. 0);
       ss = [Filter_Stage [''level'', ''=='', CHR 0x22 # ''a (b'' @ [CHR 0x22]],
             Correlate_Stage [''port'', ''=='', ''80''] [''code'', ''>'', ''499''] (Some (5, Seconds)),
             Aggregate_Stage [Count, Field_Func NQL_AGG_AVG ''size'', Percentile ''rtt'' 95] [''host'', ''http.path'']
               (Some [''code'', ''>'', ''399'']) (Sliding (1, Minutes) (10, Seconds)),
             Show_Stage [''host'', ''count''] None]
   in nql_parse_ex X (Some (show_stages ss)) = (Some (query_value X ss), None)"
proof -
  let ?X = "tree_ext (\<lambda>_. None) (\<lambda>_. None) (\<lambda>_. True) (\<lambda>_ _. 0) (\<lambda>_. 0)"
  have "stage_ok ?X (Filter_Stage [''level'', ''=='', CHR 0x22 # ''a (b'' @ [CHR 0x22]])" by code_simp
  moreover have "stage_ok ?X (Correlate_Stage [''port'', ''=='', ''80''] [''code'', ''>'', ''499''] (Some (5, Seconds)))" by code_simp
  moreover have "stage_ok ?X (Aggregate_Stage [Count, Field_Func NQL_AGG_AVG ''size'', Percentile ''rtt'' 95] [''host'', ''http.path'']
      (Some [''code'', ''>'', ''399'']) (Sliding (1, Minutes) (10, Seconds)))" by code_simp
  moreover have "stage_ok ?X (Show_Stage [''host'', ''count''] None)" by code_simp
  ultimately show ?thesis unfolding Let_def by (intro nql_roundtrip) simp_all
qed

end
