(* ===== verification/Tail_Props.thy ===== *)
theory Tail_Props
  imports File_Props Cli_Props Nql_Props
begin

text \<open>
  The whole way of a log line: the file input reads it, a parser turns it into the data of an event, the filter of the input
  drops it or the engine counts and buffers it, and the handler prints it, if there is a query only when the query matches.

  The engine of these theorems holds no network events; a process as \<open>main\<close> sets it up has none (\<open>program_captures_nothing\<close>).
\<close>

section \<open>The event of a line and what is printed for it\<close>

definition line_event :: "(tm \<Rightarrow> int) \<Rightarrow> 'j ext \<Rightarrow> nblex_input \<Rightarrow> nat \<Rightarrow> string \<Rightarrow> 'j event" where
  "line_event M X i t l =
     \<lparr>ev_type = NBLEX_EVENT_LOG, ev_timestamp = uv_hrtime X t, ev_input = Some i, ev_data = line_data M X (in_format i) l\<rparr>"

definition printed :: "'j ext \<Rightarrow> 'j event \<Rightarrow> string list" where
  "printed X ev = (case nblex_event_to_json X (Some ev) of None \<Rightarrow> [] | Some s \<Rightarrow> [s])"

text \<open>The lines of the output for the lines of a file, read from clock tick \<open>t\<close> on; \<open>P\<close> is what the handler asks of an event.\<close>

definition tail_output ::
  "('j event \<Rightarrow> bool) \<Rightarrow> (tm \<Rightarrow> int) \<Rightarrow> 'j ext \<Rightarrow> nblex_input \<Rightarrow> nat \<Rightarrow> string list \<Rightarrow> string list" where
  "tail_output P M X i t ls = concat (map (\<lambda>(k, l). let ev = line_event M X i k l in
     if \<not> filtered_out X ev \<and> P ev then printed X ev else []) (enumerate t ls))"

text \<open>A handler that prints the events of an input that satisfy \<open>P\<close>, and does nothing else.\<close>

definition prints_when :: "'j ext \<Rightarrow> handler_ref \<Rightarrow> ('j event \<Rightarrow> bool) \<Rightarrow> 'x itself \<Rightarrow> bool" where
  "prints_when X h P T \<longleftrightarrow> (\<forall>ev (w :: ('j, 'x) cli_state). ev_input ev \<noteq> None \<longrightarrow>
     cli_handlers X h ev w = Ok (if P ev then print_event X ev w else w))"

lemma print_event_stdout: "stdout (print_event X ev w) = stdout w @ printed X ev"
  by (simp add: print_event_def printed_def split: option.split)

lemma print_event_engine [simp]:
  "correlation (print_event X ev w) = correlation w" "hr_tick (print_event X ev w) = hr_tick w"
  by (simp_all add: print_event_def split: option.split)

lemma process_log_alone:
  assumes "no_network w" "ev_type ev = NBLEX_EVENT_LOG"
  obtains c where "nblex_correlation_process_event X H ev w = Ok (w\<lparr>correlation := Some c\<rparr>)" "network_events c = []"
proof -
  obtain c where c: "correlation w = Some c" "network_events c = []" using assms(1) by (auto simp: no_network_iff)
  have "network_events (buffer_event ev c) = []"
    using c(2) assms(2) by (simp add: buffer_event_def split: prod.split)
  then show thesis using that [of "buffer_event ev c"] c assms(2)
    by (simp add: nblex_correlation_process_event_def correlation_check_event_def)
qed

lemma emit_log_prints:
  fixes w :: "('j, 'x) cli_state"
  assumes "event_handler w = Some h" "prints_when X h P TYPE('x)" "no_network w"
    and "ev_type ev = NBLEX_EVENT_LOG" "ev_input ev \<noteq> None"
  obtains w' where "nblex_event_emit X (cli_handlers X) ev w = Ok w'"
    and "stdout w' = stdout w @ (if \<not> filtered_out X ev \<and> P ev then printed X ev else [])"
    and "event_handler w' = Some h" and "no_network w'" and "hr_tick w' = hr_tick w"
proof (cases "filtered_out X ev")
  case True
  then show thesis using that [of w] assms(1,3) by (simp add: nblex_event_emit_def emit_with_def)
next
  case False
  let ?w = "w\<lparr>events_processed := events_processed w + 1\<rparr>"
  have n: "no_network ?w" "correlation ?w \<noteq> None" using assms(3) by (auto simp: no_network_iff)
  obtain c where c: "nblex_correlation_process_event X (cli_handlers X) ev ?w = Ok (?w\<lparr>correlation := Some c\<rparr>)" "network_events c = []"
    using process_log_alone [OF n(1) assms(4)] by blast
  let ?v = "?w\<lparr>correlation := Some c\<rparr>"
  have e: "nblex_event_emit X (cli_handlers X) ev w = Ok (if P ev then print_event X ev ?v else ?v)"
    using False n(2) c(1) assms(1,2,5) by (auto simp: nblex_event_emit_def emit_with_def prints_when_def)
  show thesis
    by (rule that [OF e]; cases "P ev") (use c(2) assms(1) False in \<open>simp_all add: print_event_stdout no_network_iff\<close>)
qed

lemma emit_lines_print:
  fixes w :: "('j, 'x) cli_state"
  assumes "event_handler w = Some h" "prints_when X h P TYPE('x)" "no_network w"
    and "\<forall>l \<in> set ls. line_data M X (in_format i) l \<noteq> None"
  shows "\<exists>w'. emit_lines M X (cli_handlers X) i ls w = Some (Ok w')
    \<and> stdout w' = stdout w @ tail_output P M X i (hr_tick w) ls
    \<and> event_handler w' = Some h \<and> no_network w' \<and> hr_tick w' = hr_tick w + length ls"
  using assms(1,3,4)
proof (induction ls arbitrary: w)
  case (Cons l ls)
  let ?w = "w\<lparr>hr_tick := Suc (hr_tick w)\<rparr>" and ?ev = "line_event M X i (hr_tick w) l"
  obtain v where v: "nblex_event_emit X (cli_handlers X) ?ev ?w = Ok v"
    "stdout v = stdout w @ (if \<not> filtered_out X ?ev \<and> P ?ev then printed X ?ev else [])"
    "event_handler v = Some h" "no_network v" "hr_tick v = Suc (hr_tick w)"
    using emit_log_prints [of ?w h X P ?ev] Cons.prems(1,2) assms(2) by (auto simp: line_event_def no_network_iff)
  obtain d where d: "line_data M X (in_format i) l = Some d" using Cons.prems(3) by auto
  have "emit_line M X (cli_handlers X) i l w = Some (Ok v)"
    using v(1) d by (simp add: emit_line_def nblex_timestamp_now_def line_event_def nblex_event_new_def)
  then show ?case using Cons.IH [OF v(3,4)] Cons.prems(3) v(2,5)
    by (auto simp: tail_output_def Let_def)
qed (simp add: tail_output_def)

section \<open>The handlers\<close>

lemma json_prints: "prints_when X (EVENT_HANDLER_JSON, u) (\<lambda>_. True) T"
  by (simp add: prints_when_def event_handler_json_def)

text \<open>A query without state: its stages filter or select, and the query matches when the filters of all of them match.\<close>

definition stateless_stage :: "stage \<Rightarrow> bool" where
  "stateless_stage s \<longleftrightarrow> (case s of Correlate_Stage _ _ _ \<Rightarrow> False | Aggregate_Stage _ _ _ _ \<Rightarrow> False | _ \<Rightarrow> True)"

definition stages_match :: "'j ext \<Rightarrow> stage list \<Rightarrow> 'j event \<Rightarrow> bool" where
  "stages_match X ss ev \<longleftrightarrow> (\<forall>s \<in> set ss. passes X ev (stage_filter (stage_value X s)))"

lemma stateless_value: "stateless_stage s \<Longrightarrow> stateless (stage_value X s)"
  by (cases s) (simp_all add: stateless_stage_def)

lemma execute_stages:
  assumes "list_all stateless_stage ss" "ss \<noteq> []"
  shows "execute_query X H (query_value X ss) ev q w = Ok (stages_match X ss ev, w)"
proof (cases "length ss = 1")
  case True
  then obtain s where "ss = [s]" by (cases ss) auto
  then show ?thesis using assms(1) by (simp add: query_value_def stages_match_def execute_stateless stateless_value)
next
  case False
  have "\<forall>v \<in> set (map (stage_value X) ss). stateless v" using assms(1) stateless_value by (auto simp: list_all_iff)
  then show ?thesis using False by (simp only: query_value_def if_False stateless_pipeline) (simp add: stages_match_def)
qed

lemma query_prints:
  assumes "ss \<noteq> []" "list_all (stage_ok X) ss" "list_all stateless_stage ss"
  shows "prints_when X (EVENT_HANDLER_QUERY, Some (show_stages ss)) (stages_match X ss) T"
  by (auto simp: prints_when_def event_handler_query_def nql_execute_def
      execute_stages [OF assms(3,1)] nql_parse_show [OF assms(1,2)])

section \<open>From the file to the output\<close>

lemma tail_prints:
  fixes w :: "('j, 'x) cli_state"
  assumes "fi_file data = Some (length old)" "list_all log_line_ok ls" "ls \<noteq> []"
    and "event_handler w = Some h" "prints_when X h P TYPE('x)" "no_network w"
    and "\<forall>l \<in> set ls. line_data M X (in_format i) l \<noteq> None"
  shows "\<exists>data' w'. file_read_new_data M X (cli_handlers X) i (Some (length (old @ file_text ls))) (old @ file_text ls) data w
      = Some (Ok (data', w'))
    \<and> stdout w' = stdout w @ tail_output P M X i (hr_tick w) (filter (\<lambda>l. l \<noteq> []) ls)
    \<and> fi_file data' = Some (length (old @ file_text ls)) \<and> no_network w' \<and> event_handler w' = Some h"
proof -
  let ?ls = "filter (\<lambda>l. l \<noteq> []) ls"
  obtain w' where w': "emit_lines M X (cli_handlers X) i ?ls w = Some (Ok w')"
    "stdout w' = stdout w @ tail_output P M X i (hr_tick w) ?ls" "event_handler w' = Some h" "no_network w'"
    using emit_lines_print [OF assms(4-6), of ?ls M i] assms(7) by auto
  have "file_text ls \<noteq> []" using assms(3) by (cases ls) (simp_all add: file_text_def)
  from file_read_grown [OF assms(1) this, of M X "cli_handlers X" i w] show ?thesis
    unfolding read_lines_text [OF assms(2)] w'(1) using w'(2-4) by simp
qed

text \<open>A JSON library that knows two lines, for the witnesses.\<close>

definition sample_lines :: "string \<Rightarrow> jtree option" where
  "sample_lines s =
     (if s = ''{e}'' then Some (JObj [(''level'', JStr ''error''), (''code'', JInt 500)])
      else if s = ''{d}'' then Some (JObj [(''level'', JStr ''error''), (''code'', JInt 200)]) else None)"

text \<open>C5: With the JSON handler, when complete lines are appended to a file that is tailed, the next read prints exactly the
  events of the lines that are not empty and that the filter of the input matches, in the order of the lines, each with the time
  it was read and the data its parser gives; the output does not depend on what was read before. The lines are those whose parser
  returns (all of them, but for logfmt).\<close>

theorem tail_json_output:
  fixes w :: "('j, 'x) cli_state"
  assumes "fi_file data = Some (length old)" and "list_all log_line_ok ls" and "ls \<noteq> []"
    and "event_handler w = Some (EVENT_HANDLER_JSON, u)" and "no_network w"
    and "\<forall>l \<in> set ls. line_data M X (in_format i) l \<noteq> None"
  shows "\<exists>data' w'. file_read_new_data M X (cli_handlers X) i (Some (length (old @ file_text ls))) (old @ file_text ls) data w
      = Some (Ok (data', w'))
    \<and> stdout w' = stdout w @ tail_output (\<lambda>_. True) M X i (hr_tick w) (filter (\<lambda>l. l \<noteq> []) ls)
    \<and> fi_file data' = Some (length (old @ file_text ls)) \<and> no_network w' \<and> event_handler w' = event_handler w"
  using tail_prints [OF assms(1-4) json_prints assms(5,6)] assms(4) by simp

theorem tail_json_output_witness:
  "let X = tree_ext sample_lines (\<lambda>_. Some ''{}'') (\<lambda>_. True) (\<lambda>_ _. 0) (\<lambda>_. 0);
       i = (nblex_input_new NBLEX_INPUT_FILE)\<lparr>in_format := NBLEX_FORMAT_JSON,
         in_filter := nblex_filter_new X ''code > 400''\<rparr>;
       w = initial_program\<lparr>correlation := Some nblex_correlation_new, event_handler := Some (EVENT_HANDLER_JSON, None)\<rparr>
   in \<exists>data w'. file_read_new_data (\<lambda>_. 0) X (cli_handlers X) i (Some (length (''old'' @ file_text [''{e}'', '''', ''info''])))
        (''old'' @ file_text [''{e}'', '''', ''info'']) ((new_file_input ''/x'')\<lparr>fi_file := Some 3\<rparr>) w = Some (Ok (data, w'))
      \<and> stdout w' = [''{}'']"
proof -
  let ?X = "tree_ext sample_lines (\<lambda>_. Some ''{}'') (\<lambda>_. True) (\<lambda>_ _. 0) (\<lambda>_. 0)"
  let ?i = "(nblex_input_new NBLEX_INPUT_FILE)\<lparr>in_format := NBLEX_FORMAT_JSON, in_filter := nblex_filter_new ?X ''code > 400''\<rparr>"
  let ?w = "initial_program\<lparr>correlation := Some nblex_correlation_new, event_handler := Some (EVENT_HANDLER_JSON, None)\<rparr> :: jtree cli_world"
  let ?ls = "[''{e}'', '''', ''info'']"
  have 1: "fi_file ((new_file_input ''/x'')\<lparr>fi_file := Some 3\<rparr>) = Some (length ''old'')" by simp
  have 2: "list_all log_line_ok ?ls" by code_simp
  have 3: "event_handler ?w = Some (EVENT_HANDLER_JSON, None)" "no_network ?w"
    by (simp_all add: no_network_iff nblex_correlation_new_def)
  have 4: "\<forall>l \<in> set ?ls. line_data (\<lambda>_. 0) ?X (in_format ?i) l \<noteq> None" by code_simp
  have 5: "stdout ?w = []" "tail_output (\<lambda>_. True) (\<lambda>_. 0) ?X ?i (hr_tick ?w) (filter (\<lambda>l. l \<noteq> []) ?ls) = [''{}'']" by code_simp+
  show ?thesis using tail_json_output [OF 1 2 _ 3 4] 5 unfolding Let_def by auto
qed

text \<open>C4: With a query of filter and selection stages on the command line, the same read prints exactly those events for which
  in addition the filter of every stage of the query matches, whatever the state of the executor: the text of the query is parsed
  into these stages, and the pipeline applies each of them to the event itself.\<close>

theorem tail_query_output:
  fixes w :: "('j, 'x) cli_state"
  assumes "fi_file data = Some (length old)" and "list_all log_line_ok ls" and "ls \<noteq> []"
    and "event_handler w = Some (EVENT_HANDLER_QUERY, Some (show_stages ss))" and "no_network w"
    and "\<forall>l \<in> set ls. line_data M X (in_format i) l \<noteq> None"
    and "ss \<noteq> []" and "list_all (stage_ok X) ss" and "list_all stateless_stage ss"
  shows "\<exists>data' w'. file_read_new_data M X (cli_handlers X) i (Some (length (old @ file_text ls))) (old @ file_text ls) data w
      = Some (Ok (data', w'))
    \<and> stdout w' = stdout w @ tail_output (stages_match X ss) M X i (hr_tick w) (filter (\<lambda>l. l \<noteq> []) ls)
    \<and> fi_file data' = Some (length (old @ file_text ls)) \<and> no_network w' \<and> event_handler w' = event_handler w"
  using tail_prints [OF assms(1-4) query_prints [OF assms(7-9)] assms(5,6)] assms(4) by simp

theorem tail_query_output_witness:
  "let X = tree_ext sample_lines (\<lambda>_. Some ''{}'') (\<lambda>_. True) (\<lambda>_ _. 0) (\<lambda>_. 0);
       i = (nblex_input_new NBLEX_INPUT_FILE)\<lparr>in_format := NBLEX_FORMAT_JSON\<rparr>;
       w = initial_program\<lparr>correlation := Some nblex_correlation_new,
         event_handler := Some (EVENT_HANDLER_QUERY, Some ''code > 100 | show code where code > 400'')\<rparr>;
       ls = [''{e}'', ''info'', ''{d}'']
   in \<exists>data w'. file_read_new_data (\<lambda>_. 0) X (cli_handlers X) i (Some (length (''old'' @ file_text ls))) (''old'' @ file_text ls)
        ((new_file_input ''/x'')\<lparr>fi_file := Some 3\<rparr>) w = Some (Ok (data, w'))
      \<and> stdout w' = [''{}'']"
proof -
  let ?X = "tree_ext sample_lines (\<lambda>_. Some ''{}'') (\<lambda>_. True) (\<lambda>_ _. 0) (\<lambda>_. 0)"
  let ?i = "(nblex_input_new NBLEX_INPUT_FILE)\<lparr>in_format := NBLEX_FORMAT_JSON\<rparr>"
  let ?w = "initial_program\<lparr>correlation := Some nblex_correlation_new,
      event_handler := Some (EVENT_HANDLER_QUERY, Some ''code > 100 | show code where code > 400'')\<rparr> :: jtree cli_world"
  let ?ls = "[''{e}'', ''info'', ''{d}'']"
  let ?ss = "[Filter_Stage [''code'', ''>'', ''100''], Show_Stage [''code''] (Some [''code'', ''>'', ''400''])]"
  have 1: "fi_file ((new_file_input ''/x'')\<lparr>fi_file := Some 3\<rparr>) = Some (length ''old'')" by simp
  have 2: "list_all log_line_ok ?ls" by code_simp
  have 3: "event_handler ?w = Some (EVENT_HANDLER_QUERY, Some (show_stages ?ss))" "no_network ?w"
    by (simp_all add: no_network_iff nblex_correlation_new_def where_text_def)
  have 4: "\<forall>l \<in> set ?ls. line_data (\<lambda>_. 0) ?X (in_format ?i) l \<noteq> None" by code_simp
  have 5: "list_all (stage_ok ?X) ?ss" by code_simp
  have 6: "list_all stateless_stage ?ss" by code_simp
  have 7: "stdout ?w = []" "tail_output (stages_match ?X ?ss) (\<lambda>_. 0) ?X ?i (hr_tick ?w) (filter (\<lambda>l. l \<noteq> []) ?ls) = [''{}'']" by code_simp+
  show ?thesis using tail_query_output [OF 1 2 _ 3 4 _ 5 6] 7 unfolding Let_def by auto
qed

end
