(* ===== verification/Group_Props.thy ===== *)
theory Group_Props
  imports Tail_Props Agg_Props
begin

text \<open>
  Runs of the executor with an aggregation that has no window: \<open>nql_execute\<close> is called for one event after another, with the
  same query string, and every call parses the query, tests the \<open>where\<close> filter, looks up the context of the query string, updates
  the bucket of the group, stores the state and emits a result.

  \<open>group_spec\<close> (theory \<open>Agg_Props\<close>) is the specification of the buckets; \<open>query_groups\<close> reads the buckets of a query back from the
  contexts of the world. \<open>aggregate_step\<close> is the refinement of one call, \<open>aggregate_run\<close> that of a sequence of calls.
\<close>

section \<open>A sequence of events\<close>

fun execute_events ::
  "'j ext \<Rightarrow> ('j, 'x) nql_handlers \<Rightarrow> string option \<Rightarrow> 'j event list \<Rightarrow> ('j, 'x) nql_world_scheme \<Rightarrow>
   (bool list \<times> ('j, 'x) nql_world_scheme) outcome" where
  "execute_events X H q [] w = Ok ([], w)"
| "execute_events X H q (ev # evs) w =
     bind_outcome (nql_execute X H q ev w) (\<lambda>(m, w1).
     bind_outcome (execute_events X H q evs w1) (\<lambda>(ms, w2). Ok (m # ms, w2)))"

text \<open>The buckets of a query by group values, as they stand in the contexts.\<close>

definition ctx_groups :: "'j nql_exec_ctx option \<Rightarrow> string list option \<Rightarrow> 'j nql_agg_bucket option" where
  "ctx_groups c key = (case c of Some c \<Rightarrow> (case ctx_state c of AGG_STATE st \<Rightarrow> group_abs st key | _ \<Rightarrow> None) | None \<Rightarrow> None)"

definition query_groups ::
  "string \<Rightarrow> ('j, 'x) nql_world_scheme \<Rightarrow> string list option \<Rightarrow> 'j nql_agg_bucket option" where
  "query_groups q w = ctx_groups (find_ctx (Some q) w)"

text \<open>Contexts are numbered in the order of their creation (\<open>add_ctx\<close>).\<close>

definition contexts_numbered :: "('j, 'x) nql_world_scheme \<Rightarrow> bool" where
  "contexts_numbered w \<longleftrightarrow> map ctx_id (exec_contexts w) = rev [0..<length (exec_contexts w)]"

definition group_ready :: "nql_aggregate \<Rightarrow> string \<Rightarrow> ('j, 'x) cli_state \<Rightarrow> bool" where
  "group_ready agg q w \<longleftrightarrow> contexts_numbered w \<and> no_network w
     \<and> (case find_ctx (Some q) w of None \<Rightarrow> True | Some c \<Rightarrow> \<exists>st. ctx_state c = AGG_STATE st \<and> group_inv agg st)"

lemma numbered_contexts:
  assumes "contexts_numbered w"
  shows "distinct (map ctx_id (exec_contexts w))" "\<forall>c \<in> set (exec_contexts w). ctx_id c < length (exec_contexts w)"
proof -
  have m: "map ctx_id (exec_contexts w) = rev [0..<length (exec_contexts w)]" using assms by (simp add: contexts_numbered_def)
  show "distinct (map ctx_id (exec_contexts w))" unfolding m by simp
  have "ctx_id ` set (exec_contexts w) = {0..<length (exec_contexts w)}"
    using arg_cong [OF m, of set] by simp
  then show "\<forall>c \<in> set (exec_contexts w). ctx_id c < length (exec_contexts w)" by auto
qed

lemma contexts_numbered_cong:
  "map ctx_id (exec_contexts w') = map ctx_id (exec_contexts w) \<Longrightarrow> contexts_numbered w' = contexts_numbered w"
  unfolding contexts_numbered_def using map_eq_imp_length_eq by metis

lemma find_ctx_cong: "exec_contexts w' = exec_contexts w \<Longrightarrow> find_ctx q w' = find_ctx q w"
  by (cases q) (simp_all add: find_ctx_def)

text \<open>The context of a query: it is the one that its identifier finds, and no other query has it.\<close>

lemma find_ctx_id:
  assumes "contexts_numbered w" "find_ctx (Some q) w = Some c"
  shows "ctx_get (ctx_id c) w = Some (ctx_state c)" "query_string c = Some q"
    "find_ctx q' w = Some c' \<Longrightarrow> ctx_id c' = ctx_id c \<Longrightarrow> q' = Some q"
proof -
  have c: "c \<in> set (exec_contexts w)" "query_string c = Some q"
    using assms(2) by (auto simp: find_ctx_def dest: find_Some_D)
  show "ctx_get (ctx_id c) w = Some (ctx_state c)"
    using find_unique [OF numbered_contexts(1) [OF assms(1)] c(1) refl] by (simp add: ctx_get_def)
  show "query_string c = Some q" by (rule c(2))
  assume c': "find_ctx q' w = Some c'" "ctx_id c' = ctx_id c"
  then have "c' \<in> set (exec_contexts w)" "query_string c' = q'"
    by (auto simp: find_ctx_def split: option.splits dest: find_Some_D)
  with c c'(2) numbered_contexts(1) [OF assms(1)] show "q' = Some q"
    by (auto simp: distinct_map inj_on_def)
qed

section \<open>The state of a query\<close>

definition other_contexts :: "('j, 'x) nql_world_scheme \<Rightarrow> ('j, 'x) nql_world_scheme \<Rightarrow> bool" where
  "other_contexts w w1 \<longleftrightarrow> (\<exists>cs. w1 = w\<lparr>exec_contexts := cs\<rparr>)"

lemma other_contexts_refl: "other_contexts w w"
  by (simp add: other_contexts_def exI [of _ "exec_contexts w"])

text \<open>Looking up the state, or making a new one: the identifier leads to a state with the same groups.\<close>

lemma agg_state_ready:
  assumes r: "group_ready agg q w"
  obtains i w1 st where "get_agg_state agg (Some q) w = Ok (i, w1)" "agg_get i w1 = Ok st" "group_inv agg st"
    "group_abs st = query_groups q w" "contexts_numbered w1" "\<exists>c. find_ctx (Some q) w1 = Some c \<and> ctx_id c = i"
    "\<And>q'. q' \<noteq> Some q \<Longrightarrow> find_ctx q' w1 = find_ctx q' w" "other_contexts w w1"
proof (cases "find_ctx (Some q) w")
  case (Some c)
  with r obtain st where st: "ctx_state c = AGG_STATE st" "group_inv agg st" by (auto simp: group_ready_def)
  have n: "contexts_numbered w" using r by (simp add: group_ready_def)
  have "agg_get (ctx_id c) w = Ok st" using find_ctx_id(1) [OF n Some] st(1) by (simp add: agg_get_def)
  moreover have "group_abs st = query_groups q w"
    using Some st(1) by (simp add: query_groups_def ctx_groups_def fun_eq_iff)
  ultimately show thesis using that [of "ctx_id c" w st] Some st n other_contexts_refl by (auto simp: get_agg_state_def)
next
  case None
  have n: "contexts_numbered w" using r by (simp add: group_ready_def)
  let ?st = "start_agg_timer (started w) (copy_agg_config agg)"
  have inv: "group_inv agg ?st" using copy_agg_config_inv [of agg] by (auto simp: start_agg_timer_def group_inv_def addrs_ok_def)
  obtain i w1 where a: "add_ctx TYPE_AGGREGATE (Some q) (AGG_STATE ?st) w = (i, w1)" by fastforce
  note g = ctx_get_add [OF a numbered_contexts(2) [OF n]]
  have "group_abs ?st = query_groups q w"
    using None by (simp add: query_groups_def ctx_groups_def fun_eq_iff group_abs_def start_agg_timer_def copy_agg_config_def)
  moreover have "contexts_numbered w1" "other_contexts w w1"
    using a n by (auto simp: add_ctx_def contexts_numbered_def other_contexts_def)
  moreover have "find_ctx q' w1 = find_ctx q' w" if "q' \<noteq> Some q" for q'
    using that a by (cases q') (auto simp: add_ctx_def find_ctx_def)
  ultimately show thesis
    using that [of i w1 ?st] None a g inv by (simp add: get_agg_state_def agg_get_def)
qed

text \<open>Storing the state of a query.\<close>

lemma put_agg_state:
  assumes "contexts_numbered w" "find_ctx (Some q) w = Some c" "ctx_id c = i" "group_inv agg st" "no_network w"
  shows "group_ready agg q (ctx_put i (AGG_STATE st) w)" "query_groups q (ctx_put i (AGG_STATE st) w) = group_abs st"
    "q' \<noteq> Some q \<Longrightarrow> find_ctx q' (ctx_put i (AGG_STATE st) w) = find_ctx q' w"
proof -
  have f: "find_ctx (Some q) (ctx_put i (AGG_STATE st) w) = Some (c\<lparr>ctx_state := AGG_STATE st\<rparr>)"
    using assms(2,3) by (simp add: find_ctx_put)
  then show "query_groups q (ctx_put i (AGG_STATE st) w) = group_abs st"
    by (simp add: query_groups_def ctx_groups_def fun_eq_iff)
  have "contexts_numbered (ctx_put i (AGG_STATE st) w) = contexts_numbered w"
    by (rule contexts_numbered_cong) simp
  moreover have "no_network (ctx_put i (AGG_STATE st) w)" using assms(5) by (simp add: no_network_iff)
  ultimately show "group_ready agg q (ctx_put i (AGG_STATE st) w)"
    using f assms(1,4) by (simp add: group_ready_def)
  show "find_ctx q' (ctx_put i (AGG_STATE st) w) = find_ctx q' w" if "q' \<noteq> Some q"
    using find_ctx_id(3) [OF assms(1,2)] that assms(3) by (cases "find_ctx q' w") (auto simp: find_ctx_put)
qed

lemma group_ready_cong:
  "exec_contexts w' = exec_contexts w \<Longrightarrow> no_network w' = no_network w \<Longrightarrow> group_ready agg q w' = group_ready agg q w"
  using find_ctx_cong [of w' w "Some q"] contexts_numbered_cong [of w' w] by (simp add: group_ready_def)

section \<open>The result of an aggregation\<close>

definition has_percentile :: "nql_agg_func list \<Rightarrow> bool" where
  "has_percentile fs \<longleftrightarrow> list_ex (\<lambda>f. af_type f = NQL_AGG_PERCENTILE) fs"

lemma agg_metrics_defined: "\<not> has_percentile fs \<Longrightarrow> \<exists>m. agg_metrics X b fs m0 = Ok m"
proof (induction fs arbitrary: m0)
  case (Cons f fs)
  then have "\<exists>r. agg_metric X b f = Ok r" by (cases "af_type f") (auto simp: agg_metric_def has_percentile_def)
  with Cons show ?case by (auto simp: has_percentile_def)
qed simp

lemma result_defined: "\<not> has_percentile (funcs agg) \<Longrightarrow> \<exists>r. create_agg_result_event X t b (copy_agg_config agg) = Ok r"
  using agg_metrics_defined [of "funcs agg" X b "json_object X"]
  by (auto simp: create_agg_result_event_def copy_agg_config_def Let_def)

text \<open>The result depends on the configuration of the state only, and not on the address of the bucket.\<close>

lemma agg_metrics_addr: "agg_metrics X (b\<lparr>b_addr := a\<rparr>) fs m = agg_metrics X b fs m"
proof -
  have "agg_metric X (b\<lparr>b_addr := a\<rparr>) f = agg_metric X b f" for f
    by (cases "af_type f") (simp_all add: agg_metric_def split: option.split)
  then show ?thesis by (induction fs arbitrary: m) simp_all
qed

lemma result_config:
  assumes "group_inv agg st"
  shows "create_agg_result_event X t b st = create_agg_result_event X t (b\<lparr>b_addr := 0\<rparr>) (copy_agg_config agg)"
  using assms by (simp add: create_agg_result_event_def copy_agg_config_def group_inv_def agg_metrics_addr Let_def
      cong: if_cong option.case_cong bind_outcome_cong)

text \<open>Emission of a result: it is given to the handler and buffered by the engine, which finds no network event.\<close>

lemma emit_derived_log:
  fixes w :: "('j, 'x) cli_state"
  assumes "no_network w" "ev_type ev = NBLEX_EVENT_LOG" "ev_input ev = None"
  obtains w' where "nblex_event_emit X (cli_handlers X) ev w = Ok w'" "exec_contexts w' = exec_contexts w" "no_network w'"
    "event_handler w' = event_handler w" "events_processed w' = events_processed w + 1"
    "\<And>u. event_handler w = Some (EVENT_HANDLER_JSON, u) \<Longrightarrow> stdout w' = stdout w @ printed X ev"
proof -
  let ?w = "w\<lparr>events_processed := events_processed w + 1\<rparr>"
  have n: "no_network ?w" "correlation ?w \<noteq> None" using assms(1) by (auto simp: no_network_iff)
  obtain c where c: "nblex_correlation_process_event X (cli_handlers X) ev ?w = Ok (?w\<lparr>correlation := Some c\<rparr>)" "network_events c = []"
    using process_log_alone [OF n(1) assms(2)] by blast
  let ?v = "?w\<lparr>correlation := Some c\<rparr>"
  have e: "nblex_event_emit X (cli_handlers X) ev w = (case event_handler w of None \<Rightarrow> Ok ?v | Some h \<Rightarrow> derived_handlers X h ev ?v)"
    using c(1) n(2) assms(3) by (auto simp: nblex_event_emit_def emit_with_def filtered_out_def cli_derived Let_def split: option.split)
  show thesis
  proof (cases "event_handler w")
    case None
    then show ?thesis using that [of ?v] e c(2) by (simp add: no_network_iff)
  next
    case (Some h)
    obtain w' where w': "derived_handlers X h ev ?v = Ok w'" "world.truncate w' = world.truncate ?v"
      "exec_contexts w' = exec_contexts ?v"
      using derived_quiet by blast
    have "stdout w' = stdout w @ printed X ev" if "h = (EVENT_HANDLER_JSON, u)" for u
      using w'(1) that by (auto simp: event_handler_json_def print_event_stdout)
    then show ?thesis
      using that [of w'] e w' cli.truncate_fields [OF w'(2)] c(2) Some by (simp add: no_network_iff)
  qed
qed

section \<open>One event, and a sequence of events\<close>

text \<open>The group of an event after it, and what a handler that prints writes for the result.\<close>

definition add_to_group ::
  "'j ext \<Rightarrow> nql_aggregate \<Rightarrow> 'j event \<Rightarrow> (string list option \<Rightarrow> 'j nql_agg_bucket option) \<Rightarrow> 'j nql_agg_bucket" where
  "add_to_group X agg ev G = group_update X agg ev (case G (event_keys X agg ev) of Some b \<Rightarrow> b
     | None \<Rightarrow> new_bucket X 0 (event_keys X agg ev) (length (group_by_fields agg)) 0 UINT64_MAX)"

definition printed_result :: "'j ext \<Rightarrow> nql_aggregate \<Rightarrow> u64 \<Rightarrow> 'j nql_agg_bucket \<Rightarrow> string list" where
  "printed_result X agg t b = (case create_agg_result_event X t b (copy_agg_config agg) of Ok r \<Rightarrow> printed X r | UB \<Rightarrow> [])"

lemma event_time_world: "\<exists>n. snd (event_time X ev w) = w\<lparr>hr_tick := n\<rparr>"
  by (simp add: event_time_def nblex_timestamp_now_def) (metis world.surjective world.update_convs(10))

lemma group_ready_tick: "group_ready agg q (w\<lparr>hr_tick := n\<rparr>) = group_ready agg q w"
  by (rule group_ready_cong) (simp_all add: no_network_iff)

lemma emit_result_group:
  fixes w :: "('j, 'x) cli_state"
  assumes inv: "group_inv agg st" and n: "no_network w"
  shows "emit_result X (cli_handlers X) b st w = UB \<and> has_percentile (funcs agg) \<or>
    (\<exists>w' t. emit_result X (cli_handlers X) b st w = Ok w' \<and> exec_contexts w' = exec_contexts w \<and> no_network w'
      \<and> event_handler w' = event_handler w \<and> events_processed w' = events_processed w + 1
      \<and> (\<forall>u. event_handler w = Some (EVENT_HANDLER_JSON, u) \<longrightarrow>
           stdout w' = stdout w @ printed_result X agg t (b\<lparr>b_addr := 0\<rparr>)))"
proof -
  obtain t w1 where t: "nblex_timestamp_now X w = (t, w1)" "w1 = w\<lparr>hr_tick := Suc (hr_tick w)\<rparr>"
    by (simp add: nblex_timestamp_now_def)
  show ?thesis
  proof (cases "create_agg_result_event X t b st")
    case UB
    then have "has_percentile (as_funcs st)"
      using agg_metrics_defined [of "as_funcs st" X b "json_object X"]
      by (cases "has_percentile (as_funcs st)") (auto simp: create_agg_result_event_def Let_def outcome_simps)
    then show ?thesis using UB t(1) inv by (simp add: emit_result_def group_inv_def)
  next
    case (Ok r)
    then have r: "ev_input r = None" "ev_type r = NBLEX_EVENT_LOG"
      by (auto simp: create_agg_result_event_def nblex_event_new_def outcome_simps Let_def)
    have "no_network w1" using n t(2) by (simp add: no_network_iff)
    then obtain w' where w': "nblex_event_emit X (cli_handlers X) r w1 = Ok w'" "exec_contexts w' = exec_contexts w1" "no_network w'"
      "event_handler w' = event_handler w1" "events_processed w' = events_processed w1 + 1"
      "\<And>u. event_handler w1 = Some (EVENT_HANDLER_JSON, u) \<Longrightarrow> stdout w' = stdout w1 @ printed X r"
      using emit_derived_log [OF _ r(2,1)] by blast
    have "printed X r = printed_result X agg t (b\<lparr>b_addr := 0\<rparr>)"
      using Ok unfolding printed_result_def result_config [OF inv, of X t b] by simp
    then show ?thesis
      using w' Ok t by (intro disjI2 exI [of _ w'] exI [of _ t]) (simp add: emit_result_def)
  qed
qed

text \<open>What one call does for an event that the \<open>where\<close> filter lets through.\<close>

definition group_step ::
  "'j ext \<Rightarrow> nql_aggregate \<Rightarrow> string \<Rightarrow> 'j event \<Rightarrow> ('j, 'x) cli_state \<Rightarrow> ('j, 'x) cli_state \<Rightarrow> bool" where
  "group_step X agg q ev w w' \<longleftrightarrow> group_ready agg q w' \<and>
     query_groups q w' = (query_groups q w)(event_keys X agg ev \<mapsto> add_to_group X agg ev (query_groups q w)) \<and>
     (\<forall>q'. q' \<noteq> Some q \<longrightarrow> find_ctx q' w' = find_ctx q' w) \<and> event_handler w' = event_handler w \<and>
     events_processed w' = events_processed w + 1 \<and>
     (\<exists>t. \<forall>u. event_handler w = Some (EVENT_HANDLER_JSON, u) \<longrightarrow>
        stdout w' = stdout w @ printed_result X agg t (add_to_group X agg ev (query_groups q w)))"

lemma aggregate_step:
  fixes w :: "('j, 'x) cli_state"
  assumes r: "group_ready agg q w" and none: "w_type (agg_window agg) = NQL_WINDOW_NONE" and d: "ev_data ev = Some d"
    and p: "passes X ev (agg_where agg)"
  shows "execute_aggregate X (cli_handlers X) agg ev (Some q) w = UB \<and> has_percentile (funcs agg) \<or>
    (\<exists>w'. execute_aggregate X (cli_handlers X) agg ev (Some q) w = Ok (True, w') \<and> group_step X agg q ev w w')"
proof -
  obtain i w1 st c cs where 1: "get_agg_state agg (Some q) w = Ok (i, w1)" "agg_get i w1 = Ok st" "group_inv agg st"
    "group_abs st = query_groups q w" "contexts_numbered w1" "find_ctx (Some q) w1 = Some c" "ctx_id c = i"
    "\<And>q'. q' \<noteq> Some q \<Longrightarrow> find_ctx q' w1 = find_ctx q' w" "w1 = w\<lparr>exec_contexts := cs\<rparr>"
    using agg_state_ready [OF r] unfolding other_contexts_def by metis
  obtain ts w2 n where 2: "event_time X ev w1 = (ts, w2)" "w2 = w1\<lparr>hr_tick := n\<rparr>"
    using event_time_world [of X ev w1] by (metis prod.collapse)
  obtain a st2 b st3 where 3:
    "get_or_create_buckets_for_event X st (event_keys X agg ev) (length (group_by_fields agg)) ts = Ok ([a], st2)"
    "update_buckets X ev [a] st2 w2 = (st3, w2)" "group_inv agg st3" "find (\<lambda>b. b_addr b = a) (buckets st3) = Some b"
    "group_keys b = event_keys X agg ev"
    "group_abs st3 = (group_abs st)(event_keys X agg ev \<mapsto> add_to_group X agg ev (group_abs st))"
    by (rule group_buckets_step [OF 1(3) none d, of X ts]) (unfold add_to_group_def, blast)
  have win: "w_type (as_window st) = NQL_WINDOW_NONE" "w_type (as_window st3) = NQL_WINDOW_NONE" "as_group_by st = group_by_fields agg"
    using 1(3) 3(3) none by (simp_all add: group_inv_def)
  let ?w4 = "ctx_put i (AGG_STATE st3) w2"
  have e: "execute_aggregate X (cli_handlers X) agg ev (Some q) w =
      bind_outcome (emit_result X (cli_handlers X) b st3 ?w4) (\<lambda>w5. Ok (True, w5))"
    using p 1(1,2) 2(1) 3(1,2,4) win extract_event_keys(1) [OF d win(3), of X]
    by (simp add: execute_aggregate_def passes_def Let_def start_agg_timer_def del: update_buckets.simps split: option.splits)
  have w2: "contexts_numbered w2" "find_ctx (Some q) w2 = Some c" "no_network w2"
    using 1(5,6,9) 2(2) r by (simp_all add: contexts_numbered_def find_ctx_def group_ready_def no_network_iff)
  note put = put_agg_state [OF w2(1,2) 1(7) 3(3) w2(3)]
  have n4: "no_network ?w4" using put(1) by (simp add: group_ready_def)
  have g3: "group_abs st3 = (query_groups q w)(event_keys X agg ev \<mapsto> add_to_group X agg ev (query_groups q w))"
    using 3(6) unfolding 1(4) .
  have "b \<in> set (buckets st3)" using 3(4) find_Some_D by metis
  then have "find (\<lambda>c. group_keys c = event_keys X agg ev) (buckets st3) = Some b"
    using 3(3,5) by (intro find_unique) (auto simp: group_inv_def)
  then have b: "b\<lparr>b_addr := 0\<rparr> = add_to_group X agg ev (query_groups q w)"
    using fun_cong [OF g3, of "event_keys X agg ev"] by (simp add: group_abs_def)
  from emit_result_group [OF 3(3) n4, of X b] show ?thesis
  proof
    assume "emit_result X (cli_handlers X) b st3 ?w4 = UB \<and> has_percentile (funcs agg)"
    then show ?thesis using e by simp
  next
    assume "\<exists>w' t. emit_result X (cli_handlers X) b st3 ?w4 = Ok w' \<and> exec_contexts w' = exec_contexts ?w4 \<and> no_network w'
      \<and> event_handler w' = event_handler ?w4 \<and> events_processed w' = events_processed ?w4 + 1
      \<and> (\<forall>u. event_handler ?w4 = Some (EVENT_HANDLER_JSON, u) \<longrightarrow>
           stdout w' = stdout ?w4 @ printed_result X agg t (b\<lparr>b_addr := 0\<rparr>))"
    then obtain w' t where w': "emit_result X (cli_handlers X) b st3 ?w4 = Ok w'" "exec_contexts w' = exec_contexts ?w4" "no_network w'"
      "event_handler w' = event_handler ?w4" "events_processed w' = events_processed ?w4 + 1"
      "\<forall>u. event_handler ?w4 = Some (EVENT_HANDLER_JSON, u) \<longrightarrow> stdout w' = stdout ?w4 @ printed_result X agg t (b\<lparr>b_addr := 0\<rparr>)"
      by blast
    have w4: "event_handler ?w4 = event_handler w" "events_processed ?w4 = events_processed w" "stdout ?w4 = stdout w"
      unfolding 2(2) 1(9) by (simp_all add: ctx_put_def)
    have "group_ready agg q w'" using put(1) group_ready_cong [OF w'(2)] w'(3) n4 by blast
    moreover have "query_groups q w' = group_abs st3"
      using put(2) find_ctx_cong [OF w'(2)] by (simp add: query_groups_def)
    moreover have "find_ctx q' w' = find_ctx q' w" if "q' \<noteq> Some q" for q'
    proof -
      have "find_ctx q' w2 = find_ctx q' w1" using 2(2) by (intro find_ctx_cong) simp
      then show ?thesis using that put(3) 1(8) find_ctx_cong [OF w'(2)] by simp
    qed
    ultimately have "group_step X agg q ev w w'"
      using w'(4,5,6) w4 b g3 unfolding group_step_def by (intro conjI exI [of _ t]) simp_all
    then show ?thesis using e w'(1) by simp
  qed
qed

text \<open>The specification, one event further.\<close>

lemma group_spec_snoc:
  "group_spec X agg (hs @ [ev]) =
    (group_spec X agg hs)(event_keys X agg ev \<mapsto> add_to_group X agg ev (group_spec X agg hs))"
  by (auto simp: fun_eq_iff group_spec_def Let_def add_to_group_def group_bucket_def group_update_def)

text \<open>The bucket that is reported for the last event of a history.\<close>

definition last_group :: "'j ext \<Rightarrow> nql_aggregate \<Rightarrow> 'j event list \<Rightarrow> 'j nql_agg_bucket" where
  "last_group X agg hs = (let key = event_keys X agg (last hs) in
     group_bucket X agg key (filter (\<lambda>ev. event_keys X agg ev = key) hs))"

lemma add_to_group_last: "add_to_group X agg ev (group_spec X agg hs) = last_group X agg (hs @ [ev])"
  by (auto simp: add_to_group_def last_group_def group_spec_def Let_def group_bucket_def group_update_def)

definition reports :: "'j ext \<Rightarrow> nql_aggregate \<Rightarrow> u64 list \<Rightarrow> 'j event list \<Rightarrow> 'j event list \<Rightarrow> string list" where
  "reports X agg ts hs es =
     concat (map2 (\<lambda>t k. printed_result X agg t (last_group X agg (hs @ take (Suc k) es))) ts [0..<length es])"

lemma reports_Cons:
  assumes "length ts = length es"
  shows "reports X agg (t # ts) hs (ev # es) = printed_result X agg t (last_group X agg (hs @ [ev])) @ reports X agg ts (hs @ [ev]) es"
proof -
  have "[0..<length (ev # es)] = 0 # map Suc [0..<length es]" by (simp add: map_Suc_upt upt_conv_Cons del: upt_Suc)
  then show ?thesis by (simp add: reports_def zip_map2 case_prod_unfold comp_def del: upt_Suc)
qed

text \<open>What a sequence of calls has done, \<open>es\<close> being the events that the \<open>where\<close> filter let through, \<open>hs\<close> those before them.\<close>

definition group_run ::
  "'j ext \<Rightarrow> nql_aggregate \<Rightarrow> string \<Rightarrow> 'j event list \<Rightarrow> 'j event list \<Rightarrow> ('j, 'x) cli_state \<Rightarrow> ('j, 'x) cli_state \<Rightarrow> bool" where
  "group_run X agg q hs es w w' \<longleftrightarrow> query_groups q w' = group_spec X agg (hs @ es) \<and>
     (\<forall>q'. q' \<noteq> Some q \<longrightarrow> find_ctx q' w' = find_ctx q' w) \<and> event_handler w' = event_handler w \<and>
     events_processed w' = events_processed w + of_nat (length es) \<and>
     (\<exists>ts. length ts = length es \<and> (\<forall>u. event_handler w = Some (EVENT_HANDLER_JSON, u) \<longrightarrow>
        stdout w' = stdout w @ reports X agg ts hs es))"

lemma group_run_Cons:
  assumes s: "group_step X agg q ev w v" and g: "query_groups q w = group_spec X agg hs" and r: "group_run X agg q (hs @ [ev]) es v w'"
  shows "group_run X agg q hs (ev # es) w w'"
proof -
  obtain t where t: "\<forall>u. event_handler w = Some (EVENT_HANDLER_JSON, u) \<longrightarrow>
      stdout v = stdout w @ printed_result X agg t (last_group X agg (hs @ [ev]))"
    using s unfolding group_step_def g add_to_group_last by blast
  obtain ts where ts: "length ts = length es" "\<forall>u. event_handler v = Some (EVENT_HANDLER_JSON, u) \<longrightarrow>
      stdout w' = stdout v @ reports X agg ts (hs @ [ev]) es"
    using r unfolding group_run_def by blast
  have "\<forall>u. event_handler w = Some (EVENT_HANDLER_JSON, u) \<longrightarrow> stdout w' = stdout w @ reports X agg (t # ts) hs (ev # es)"
    using t ts s reports_Cons [OF ts(1), of X agg t hs ev] by (simp add: group_step_def)
  then show ?thesis
    using s r ts(1) unfolding group_run_def group_step_def by (intro conjI exI [of _ "t # ts"]) simp_all
qed

lemma aggregate_run:
  fixes w :: "('j, 'x) cli_state"
  assumes "nql_parse X (Some q) = Some (NQL_QUERY_AGGREGATE agg)" and "w_type (agg_window agg) = NQL_WINDOW_NONE"
    and "\<forall>ev \<in> set evs. ev_data ev \<noteq> None" and "group_ready agg q w" and "query_groups q w = group_spec X agg hs"
  shows "execute_events X (cli_handlers X) (Some q) evs w = UB \<and> has_percentile (funcs agg) \<or>
    (\<exists>w'. execute_events X (cli_handlers X) (Some q) evs w = Ok (map (\<lambda>ev. passes X ev (agg_where agg)) evs, w')
      \<and> group_run X agg q hs (filter (\<lambda>ev. passes X ev (agg_where agg)) evs) w w')"
  using assms(3-5)
proof (induction evs arbitrary: w hs)
  case Nil
  then show ?case by (simp add: group_run_def reports_def)
next
  case (Cons ev evs)
  have n: "nql_execute X (cli_handlers X) (Some q) ev u = execute_aggregate X (cli_handlers X) agg ev (Some q) u" for u :: "('j, 'x) cli_state"
    using assms(1) by (simp add: nql_execute_def)
  show ?case
  proof (cases "passes X ev (agg_where agg)")
    case False
    then have "execute_aggregate X (cli_handlers X) agg ev (Some q) w = Ok (False, w)"
      by (auto simp: execute_aggregate_def passes_def split: option.splits)
    then show ?thesis using Cons.IH [OF _ Cons.prems(2,3)] Cons.prems(1) n False by auto
  next
    case True
    obtain d where d: "ev_data ev = Some d" using Cons.prems(1) by auto
    from aggregate_step [OF Cons.prems(2) assms(2) d True] show ?thesis
    proof
      assume "execute_aggregate X (cli_handlers X) agg ev (Some q) w = UB \<and> has_percentile (funcs agg)"
      then show ?thesis using n by simp
    next
      assume "\<exists>v. execute_aggregate X (cli_handlers X) agg ev (Some q) w = Ok (True, v) \<and> group_step X agg q ev w v"
      then obtain v where v: "execute_aggregate X (cli_handlers X) agg ev (Some q) w = Ok (True, v)" "group_step X agg q ev w v"
        by blast
      then have "group_ready agg q v" "query_groups q v = group_spec X agg (hs @ [ev])"
        by (simp_all add: group_step_def Cons.prems(3) group_spec_snoc)
      from Cons.IH [OF _ this] Cons.prems(1) show ?thesis
        using n v(1) True group_run_Cons [OF v(2) Cons.prems(3)] by auto
    qed
  qed
qed

text \<open>The first event of a query finds no context.\<close>

lemma fresh_query:
  assumes "find_ctx (Some q) w = None" "contexts_numbered w" "no_network w"
  shows "group_ready agg q w" "query_groups q w = group_spec X agg []"
  using assms by (simp_all add: group_ready_def query_groups_def ctx_groups_def group_spec_def fun_eq_iff)

lemma fresh_run:
  fixes w :: "('j, 'x) cli_state"
  assumes "nql_parse X (Some q) = Some (NQL_QUERY_AGGREGATE agg)" and "w_type (agg_window agg) = NQL_WINDOW_NONE"
    and "\<forall>ev \<in> set evs. ev_data ev \<noteq> None"
    and "find_ctx (Some q) w = None" and "contexts_numbered w" and "no_network w"
  defines "es \<equiv> filter (\<lambda>ev. passes X ev (agg_where agg)) evs"
  shows "execute_events X (cli_handlers X) (Some q) evs w = UB \<and> has_percentile (funcs agg) \<or>
    (\<exists>w'. execute_events X (cli_handlers X) (Some q) evs w = Ok (map (\<lambda>ev. passes X ev (agg_where agg)) evs, w')
      \<and> group_run X agg q [] es w w')"
  unfolding es_def by (rule aggregate_run [OF assms(1-3) fresh_query [OF assms(4-6)]])

section \<open>The properties\<close>

text \<open>The number of events that the query let through and that have the given group values.\<close>

definition group_size :: "'j ext \<Rightarrow> nql_aggregate \<Rightarrow> 'j event list \<Rightarrow> string list option \<Rightarrow> nat" where
  "group_size X agg evs key = length (filter (\<lambda>ev. passes X ev (agg_where agg) \<and> event_keys X agg ev = key) evs)"

lemma group_spec_size:
  "group_spec X agg (filter (\<lambda>ev. passes X ev (agg_where agg)) evs) key =
    (if group_size X agg evs key = 0 then None
     else Some (group_bucket X agg key (filter (\<lambda>ev. passes X ev (agg_where agg) \<and> event_keys X agg ev = key) evs)))"
  by (simp add: group_spec_def group_size_def Let_def conj_commute)

lemma group_bucket_size: "b_count (group_bucket X agg key es) = of_nat (length es)"
  using group_bucket_count [of X agg es "new_bucket X 0 key (length (group_by_fields agg)) 0 UINT64_MAX"]
  by (simp add: group_bucket_def group_update_def [abs_def] new_bucket_def)

text \<open>The sample of the witnesses: a query with a filter, and four events, one of which the filter drops.\<close>

definition sample_query :: string where
  "sample_query = ''aggregate count() by svc where code > 1''"

definition sample_aggregate :: nql_aggregate where
  "sample_aggregate = (case nql_parse (tree_ext (\<lambda>_. None) (\<lambda>_. Some ''{}'') (\<lambda>_. True) (\<lambda>_ _. 0) (\<lambda>_. 0)) (Some sample_query) of
     Some (NQL_QUERY_AGGREGATE agg) \<Rightarrow> agg
   | _ \<Rightarrow> \<lparr>funcs = [], group_by_fields = [], agg_where = None, agg_window = window NQL_WINDOW_NONE 0 0 0\<rparr>)"

definition sample_event :: "string \<Rightarrow> int \<Rightarrow> jtree event" where
  "sample_event svc code = \<lparr>ev_type = NBLEX_EVENT_LOG, ev_timestamp = 1, ev_input = None,
     ev_data = Some (JObj [(''svc'', JStr svc), (''code'', JInt (word_of_int code))])\<rparr>"

definition sample_events :: "jtree event list" where
  "sample_events = [sample_event ''a'' 2, sample_event ''b'' 3, sample_event ''c'' 1, sample_event ''a'' 4]"

definition sample_world :: "jtree cli_world" where
  "sample_world = initial_program\<lparr>correlation := Some nblex_correlation_new, event_handler := Some (EVENT_HANDLER_JSON, None)\<rparr>"

abbreviation sample_ext :: "jtree ext" where
  "sample_ext \<equiv> tree_ext (\<lambda>_. None) (\<lambda>_. Some ''{}'') (\<lambda>_. True) (\<lambda>_ _. 0) (\<lambda>_. 0)"

lemma sample_run:
  "nql_parse sample_ext (Some sample_query) = Some (NQL_QUERY_AGGREGATE sample_aggregate)"
  "w_type (agg_window sample_aggregate) = NQL_WINDOW_NONE" "\<forall>ev \<in> set sample_events. ev_data ev \<noteq> None"
  "find_ctx (Some sample_query) sample_world = None" "contexts_numbered sample_world" "no_network sample_world"
  by code_simp+

lemma sample_passes:
  "map (\<lambda>ev. passes sample_ext ev (agg_where sample_aggregate)) sample_events = [True, True, False, True]"
  "group_size sample_ext sample_aggregate sample_events (Some [''a'']) = 2"
  "group_size sample_ext sample_aggregate sample_events (Some [''c'']) = 0"
  by code_simp+

lemma sample_defined: "\<not> has_percentile (funcs sample_aggregate)"
  by code_simp



text \<open>C10: after such a run the count of each bucket is the number of matching events with its group values (modulo \<open>2 ^ 64\<close>),
  and \<open>count()\<close> reports that number; a group without a matching event has no bucket; and the run has emitted one result for each
  matching event, and none for the others.\<close>

theorem group_by_counts:
  fixes w :: "('j, 'x) cli_state"
  assumes "nql_parse X (Some q) = Some (NQL_QUERY_AGGREGATE agg)" and "w_type (agg_window agg) = NQL_WINDOW_NONE"
    and "\<forall>ev \<in> set evs. ev_data ev \<noteq> None"
    and "find_ctx (Some q) w = None" and "contexts_numbered w" and "no_network w"
    and "execute_events X (cli_handlers X) (Some q) evs w = Ok (ms, w')"
  shows "map_option b_count (query_groups q w' key) =
      (if group_size X agg evs key = 0 then None else Some (of_nat (group_size X agg evs key)))
    \<and> (\<forall>b z. query_groups q w' key = Some b \<longrightarrow> agg_metric X b (new_func NQL_AGG_COUNT None z) =
        Ok (Some (''count'', json_integer X (of_nat (group_size X agg evs key)))))
    \<and> events_processed w' = events_processed w + of_nat (length (filter (\<lambda>ev. passes X ev (agg_where agg)) evs))"
proof -
  have r: "group_run X agg q [] (filter (\<lambda>ev. passes X ev (agg_where agg)) evs) w w'"
    using fresh_run [OF assms(1-6)] assms(7) by simp
  then have "query_groups q w' key = group_spec X agg (filter (\<lambda>ev. passes X ev (agg_where agg)) evs) key"
    by (simp add: group_run_def)
  then show ?thesis
    using r by (simp add: group_spec_size group_bucket_size agg_metric_def new_func_def group_run_def)
      (simp add: group_size_def)
qed

theorem group_by_counts_witness:
  "\<exists>ms w'. execute_events sample_ext (cli_handlers sample_ext) (Some sample_query) sample_events sample_world = Ok (ms, w')
    \<and> map_option b_count (query_groups sample_query w' (Some [''a''])) = Some 2
    \<and> query_groups sample_query w' (Some [''c'']) = None"
proof -
  obtain ms w' where e: "execute_events sample_ext (cli_handlers sample_ext) (Some sample_query) sample_events sample_world = Ok (ms, w')"
    using fresh_run [OF sample_run] sample_defined by auto
  note counts = group_by_counts [OF sample_run e]
  have "map_option b_count (query_groups sample_query w' (Some [''a''])) = Some 2"
    using counts [of "Some [''a'']"] unfolding sample_passes(2) by simp
  moreover have "query_groups sample_query w' (Some [''c'']) = None"
    using counts [of "Some [''c'']"] unfolding sample_passes(3) by simp
  ultimately show ?thesis using e by blast
qed

text \<open>C20: with a handler that prints, such a run prints one result for each matching event, in their order: the result event of the
  bucket of its group over the matching events up to and including this one. (Under the query handler of the command line nothing
  of this is printed, as the results have no input.)\<close>

theorem aggregate_reports:
  fixes w :: "('j, 'x) cli_state"
  assumes "nql_parse X (Some q) = Some (NQL_QUERY_AGGREGATE agg)" and "w_type (agg_window agg) = NQL_WINDOW_NONE"
    and "\<forall>ev \<in> set evs. ev_data ev \<noteq> None"
    and "find_ctx (Some q) w = None" and "contexts_numbered w" and "no_network w"
    and "execute_events X (cli_handlers X) (Some q) evs w = Ok (ms, w')" and "event_handler w = Some (EVENT_HANDLER_JSON, u)"
    and "es = filter (\<lambda>ev. passes X ev (agg_where agg)) evs"
  shows "\<exists>ts. length ts = length es \<and> stdout w' = stdout w @ concat (map2 (\<lambda>t n.
      case create_agg_result_event X t (the (group_spec X agg (take (Suc n) es) (event_keys X agg (es ! n)))) (copy_agg_config agg) of
        Ok r \<Rightarrow> printed X r | UB \<Rightarrow> []) ts [0..<length es])"
proof -
  have "group_run X agg q [] es w w'"
    using fresh_run [OF assms(1-6)] assms(7,9) by simp
  then obtain ts where ts: "length ts = length es" "stdout w' = stdout w @ reports X agg ts [] es"
    using assms(8) unfolding group_run_def by blast
  have eq: "the (group_spec X agg (take (Suc n) es) (event_keys X agg (es ! n))) = last_group X agg ([] @ take (Suc n) es)"
    if "n < length es" for n
    using that by (auto simp: take_Suc_conv_app_nth group_spec_def last_group_def Let_def)
  have "reports X agg ts [] es = concat (map2 (\<lambda>t n. printed_result X agg t
      (the (group_spec X agg (take (Suc n) es) (event_keys X agg (es ! n))))) ts [0..<length es])"
    unfolding reports_def
  proof (intro arg_cong [of _ _ concat] map_cong refl)
    fix x assume "x \<in> set (zip ts [0..<length es])"
    then have "snd x \<in> set [0..<length es]" by (metis prod.collapse set_zip_rightD)
    then have "snd x < length es" by simp
    from eq [OF this] show "(case x of (t, k) \<Rightarrow> printed_result X agg t (last_group X agg ([] @ take (Suc k) es))) =
      (case x of (t, n) \<Rightarrow> printed_result X agg t (the (group_spec X agg (take (Suc n) es) (event_keys X agg (es ! n)))))"
      unfolding case_prod_unfold by (rule arg_cong [OF sym])
  qed
  with ts(2) show ?thesis unfolding printed_result_def by (intro exI [of _ ts] conjI ts(1)) (simp only:)
qed

theorem aggregate_reports_witness:
  "\<exists>ms w'. execute_events sample_ext (cli_handlers sample_ext) (Some sample_query) sample_events sample_world = Ok (ms, w')
    \<and> stdout w' = [''{}'', ''{}'', ''{}'']"
proof -
  obtain ms w' where e: "execute_events sample_ext (cli_handlers sample_ext) (Some sample_query) sample_events sample_world = Ok (ms, w')"
    using fresh_run [OF sample_run] sample_defined by auto
  have h: "event_handler sample_world = Some (EVENT_HANDLER_JSON, None)" "stdout sample_world = []"
    by (simp_all add: sample_world_def initial_program_start)
  let ?es = "filter (\<lambda>ev. passes sample_ext ev (agg_where sample_aggregate)) sample_events"
  have es: "length ?es = 3" by code_simp
  have p: "(case create_agg_result_event sample_ext t b (copy_agg_config sample_aggregate) of Ok r \<Rightarrow> printed sample_ext r | UB \<Rightarrow> []) = [''{}'']"
    for t b
  proof -
    obtain r where "create_agg_result_event sample_ext t b (copy_agg_config sample_aggregate) = Ok r"
      using result_defined [OF sample_defined] by blast
    then show ?thesis by (simp add: printed_def nblex_event_to_json_def nblex_event_to_json_string_def tree_ext_def)
  qed
  have "\<exists>ts :: u64 list. length ts = 3 \<and> stdout w' = [] @ concat (map2 (\<lambda>t n. [''{}'']) ts [0..<3 :: nat])"
    using aggregate_reports [OF sample_run e h(1) refl] unfolding p es h(2) .
  then obtain ts :: "u64 list" where ts: "length ts = 3" "stdout w' = concat (map2 (\<lambda>t n. [''{}'']) ts [0..<3 :: nat])"
    by (metis append_Nil)
  obtain t0 t1 t2 where "ts = [t0, t1, t2]" using ts(1) by (auto simp: numeral_3_eq_3 length_Suc_conv)
  moreover have "[0..<3] = [0, 1, 2 :: nat]" by code_simp
  ultimately have "stdout w' = [''{}'', ''{}'', ''{}'']" using ts(2) by simp
  then show ?thesis using e by blast
qed

end
