(* ===== verification/Spec2Isabelle.thy ===== *)
theory Spec2Isabelle
  imports Filter_Props Agg_Props Cli_Props Nginx_Props File_Props Http_Props Pcap_Props File_Output_Props Metrics_Props
    Regex_Props Program_Props Nql_Wf Tail_Props Group_Props
begin

text \<open>
  A verification library for nblex, the network and buffer log explorer.

  The program reads log lines and packets, turns each into an \<open>event\<close> (a JSON object with a type and a
  timestamp) and emits it: a filter of the input may drop it, the correlation engine pairs log events
  with network events that happened at about the same time, and a handler prints it, hands it to the output modules or
  runs an nQL query on it. Queries filter, show, aggregate over windows and correlate; their results are events
  themselves and are emitted again. The inputs and the output come from the command line or from a configuration file.

  \<^bold>\<open>Theories and sources.\<close> Names are those of the C code.

  \<^item> \<open>Prelude\<close>: fixed-width integers, undefined behaviour as a value (\<open>outcome\<close>), the characters and
    string functions of the C library the program uses.
  \<^item> \<open>F64\<close>: binary64 arithmetic with one rounding per operation, \<open>strtod\<close> and \<open>%f\<close>.
  \<^item> \<open>Json\<close>: the functions of the JSON library as a record of parameters (\<open>ext\<close>), the laws the program
    relies on as the locale \<open>jansson\<close>, and a tree implementation that interprets it.
  \<^item> \<open>Filter_Engine\<close>, \<open>Filter_Syntax\<close>, \<open>Filter_Props\<close>: \<open>core/filter_engine.c\<close>.
  \<^item> \<open>Events\<close>: \<open>core/nblex_event.c\<close> (creation), \<open>input/input_base.c\<close>, \<open>output/json_output.c\<close>.
  \<^item> \<open>Nql_Parser\<close>: \<open>parsers/nql_parser.c\<close>; \<open>Nql_Syntax\<close> has an abstract syntax of queries with its text, \<open>Nql_Props\<close> the
    round trip, \<open>Nql_Wf\<close> what the parser returns for an arbitrary text.
  \<^item> \<open>World\<close>, \<open>Correlation\<close>: \<open>core/nblex_world.c\<close>, \<open>nblex_event_emit\<close>,
    \<open>correlation/time_correlation.c\<close>.
  \<^item> \<open>Log_Parsers\<close>, \<open>Logfmt_Props\<close>, \<open>Line_Props\<close>, \<open>Nginx_Props\<close>: the parsers of log lines,
    \<open>parsers/json_parser.c\<close>, \<open>parsers/logfmt_parser.c\<close>, \<open>parsers/syslog_parser.c\<close>, \<open>parsers/nginx_parser.c\<close>.
  \<^item> \<open>Aggregation\<close>, \<open>Executor\<close>, \<open>Agg_Props\<close>, \<open>Exec_Props\<close>: \<open>core/nql_executor.c\<close>.
  \<^item> \<open>Cli\<close>, \<open>Cli_Props\<close>: the handlers of \<open>cli/main.c\<close>, and the program closed over them.
  \<^item> \<open>File_Input\<close>, \<open>File_Props\<close>: \<open>input/file_input.c\<close>; \<open>Pcap_Input\<close>, \<open>Pcap_Props\<close>: \<open>input/pcap_input.c\<close>.
  \<^item> \<open>Http_Parser\<close>, \<open>Http_Props\<close>, \<open>Dns_Parser\<close>, \<open>Dns_Props\<close>, \<open>Regex_Parser\<close>, \<open>Regex_Props\<close>: the parsers
    \<open>parsers/http_parser.c\<close>, \<open>parsers/dns_parser.c\<close> and \<open>parsers/regex_parser.c\<close>, which no input calls yet.
  \<^item> \<open>File_Output\<close>, \<open>File_Output_Props\<close>, \<open>Metrics_Output\<close>, \<open>Metrics_Props\<close>, \<open>Http_Output\<close>: the output modules
    \<open>output/file_output.c\<close>, \<open>output/metrics_output.c\<close> and \<open>output/http_output.c\<close>.
  \<^item> \<open>Config\<close>, \<open>Config_Props\<close>: \<open>core/config.c\<close>; \<open>Program\<close>, \<open>Program_Props\<close>: the options, the set-up and the
    start in \<open>main\<close> (\<open>cli/main.c\<close>).
  \<^item> \<open>Group_Props\<close>: runs of the executor with an aggregation that has no window, from the text of the query to the buckets in its
    context and the results that are emitted.
  \<^item> \<open>Tail_Props\<close>: the way of a line from a tailed file through its parser, the filter, the engine and the handler to the
    output, with and without a query.

  Each group of lemmas shows what its part promises: parsers read back what is printed (filters, queries, logfmt, access log
  lines, HTTP requests, DNS names); the engine, the executor, the file input, the metrics and the set-up keep their
  invariants; executing an aggregation refines grouping; the set-up succeeds exactly under the stated conditions; a name of a DNS packet is
  read in finitely many steps exactly when its chains of pointers end; and where the code does not do what it means to, the theorem says what it does.

  \<^bold>\<open>Interfaces.\<close> An emission calls the handler, and the handler may emit. The handler is a parameter
  of the engine and of the executor; what they promise about it is stated in locales:
  \<open>quiet_handlers\<close> (a derived event leaves the world alone), \<open>keeping_handlers\<close> (the invariant of the
  world is kept), \<open>nql_quiet_handlers\<close>, \<open>query_frame\<close> and \<open>nql_frame\<close> (what a query cannot change) and
  \<open>handlers_agree\<close>. All of them are interpreted on the handlers of the command line in \<open>Cli\<close>. The locale
  \<open>rotated_qsort\<close> says what the file output needs of \<open>qsort\<close>.

  \<^bold>\<open>Recursion and bounds.\<close> The nested emissions have a depth the model writes out: correlation events
  are not correlated again (\<open>emit_correlation\<close>), and the query handler ignores derived events
  (\<open>derived_handlers\<close>); the lemma \<open>query_handler_equation\<close> says that this is the recursion of the code. Two loops of the code need
  not end, the one of the logfmt parser and the one over the labels of a DNS name: their results are options, with \<open>None\<close>
  for a call that does not return, and so are the results of their callers. All other
  loops are structural or have a measure, so no fuel is used. Counters and timestamps are 64-bit words;
  signed subtraction of timestamps is undefined outside its range, and theorems that need timestamps
  below \<open>2 ^ 63\<close> say so.

  \<^bold>\<open>Not modelled.\<close> Failure of allocation, deallocation and reference counts (so not the double release of a network
  event after its emission); the event loop (its callbacks are the steps of \<open>program_step\<close>). What the code calls of other
  libraries and of the system is an argument: jansson and pcre2 (\<open>ext\<close>, \<open>regex_match\<close>), \<open>mktime\<close>, \<open>inet_ntop\<close> for IPv6,
  \<open>qsort\<close>, the return codes of libpcap and libuv (\<open>pcap_calls\<close>), the events of libyaml, the effect of the options of libcurl,
  \<open>getopt_long\<close>, the clock and the files (\<open>os_calls\<close>, \<open>environment\<close>). Messages on standard error are left out. A string is the
  bytes before its NUL.
\<close>

end
